(* ===== verification/Prelude.thy ===== *)
theory Prelude
  imports Main "HOL-Library.Word"
begin

unbundle bit_operations_syntax

text \<open>
  Shared vocabulary of the development: C integer types, the outcome of running C code, the
  memory the drivers address through pointers, the input/output trace through which the code
  meets the hardware, and the one loop combinator in which every unbounded C loop is written.

  \<^item> \<open>outcome\<close>: a C function returns (\<open>Ret\<close>), performs an access outside an array, which C
    leaves undefined (\<open>Undef\<close>), or never returns because a polling loop never ends (\<open>Hang\<close>).
  \<^item> \<open>device\<close>: the hardware behind the memory-mapped registers is not code of this repository's
    C program; it is a parameter that answers each register read as a function of everything
    that happened before.  Theorems quantify over it.
  \<^item> \<open>loop\<close>: repeat a body until it breaks, with the rules for invariants, for termination by
    a measure and for loops that never end.
\<close>

section \<open>Machine integers and named collections\<close>

type_synonym u8 = "8 word"
type_synonym u16 = "16 word"
type_synonym u32 = "32 word"
type_synonym u64 = "64 word"

named_theorems frame_intros \<open>how operations compose under a frame predicate\<close>
named_theorems run_simps \<open>unfolding of the sequencing of C statements\<close>

lemma sint_small:
  assumes "unat (w :: u32) < 2147483648"
  shows "sint w = int (unat w)"
proof -
  have "uint w < 2147483648" using assms by (simp only: uint_nat)
  then have "signed_take_bit 31 (uint w) = uint w"
    by (intro signed_take_bit_int_eq_self) (simp_all add: order_trans [of _ 0])
  then show ?thesis by (simp add: sint_uint)
qed

lemma sint_word_of_int: "- 2147483648 \<le> x \<Longrightarrow> x < 2147483648 \<Longrightarrow> sint (word_of_int x :: u32) = x"
  using signed_take_bit_int_eq_self [of 31 x] by (simp add: signed_of_int)

lemma list_of_four: "length xs = 4 \<Longrightarrow> \<exists>a b c d. xs = [a, b, c, d]"
  by (auto simp: length_Suc_conv eval_nat_numeral)

section \<open>Outcomes of C code\<close>

datatype 'a outcome = Ret 'a | Undef | Hang

fun seq :: "'a outcome \<Rightarrow> ('a \<Rightarrow> 'b outcome) \<Rightarrow> 'b outcome" where
  "seq (Ret x) f = f x"
| "seq Undef f = Undef"
| "seq Hang f = Hang"

lemma seq_Ret_right [simp]: "seq m Ret = m"
  by (cases m) auto

lemma seq_assoc [run_simps]: "seq (seq m f) g = seq m (\<lambda>x. seq (f x) g)"
  by (cases m) auto

lemma seq_eq_Ret: "seq m f = Ret y \<longleftrightarrow> (\<exists>x. m = Ret x \<and> f x = Ret y)"
  by (cases m) auto

lemma seq_eq_Undef: "seq m f = Undef \<longleftrightarrow> m = Undef \<or> (\<exists>x. m = Ret x \<and> f x = Undef)"
  by (cases m) auto

lemma seq_eq_Hang: "seq m f = Hang \<longleftrightarrow> m = Hang \<or> (\<exists>x. m = Ret x \<and> f x = Hang)"
  by (cases m) auto

lemma seq_RetE:
  assumes "seq m f = Ret y"
  obtains x where "m = Ret x" and "f x = Ret y"
  using assms by (auto simp: seq_eq_Ret)

lemma seq_not_Hang:
  "m \<noteq> Hang \<Longrightarrow> (\<And>x. m = Ret x \<Longrightarrow> f x \<noteq> Hang) \<Longrightarrow> seq m f \<noteq> Hang"
  by (cases m) auto

text \<open>What holds of every value a run can return, and of no undefined run.\<close>

fun post :: "'a outcome \<Rightarrow> ('a \<Rightarrow> bool) \<Rightarrow> bool" where
  "post (Ret x) Q = Q x"
| "post Undef Q = False"
| "post Hang Q = True"

lemma post_seq [frame_intros]:
  "post m R \<Longrightarrow> (\<And>x. R x \<Longrightarrow> post (f x) Q) \<Longrightarrow> post (seq m f) Q"
  by (cases m) auto

lemma post_mono: "post m R \<Longrightarrow> (\<And>x. R x \<Longrightarrow> Q x) \<Longrightarrow> post m Q"
  by (cases m) auto

lemma post_conj: "post m Q \<Longrightarrow> post m R \<Longrightarrow> post m (\<lambda>x. Q x \<and> R x)"
  by (cases m) auto

lemma post_RetD: "post m Q \<Longrightarrow> m = Ret x \<Longrightarrow> Q x"
  by simp

lemma post_not_Undef: "post m Q \<Longrightarrow> m \<noteq> Undef"
  by (cases m) auto

text \<open>The run returns, and what it returns satisfies \<open>Q\<close>.\<close>

fun yields :: "'a outcome \<Rightarrow> ('a \<Rightarrow> bool) \<Rightarrow> bool" where
  "yields (Ret x) Q = Q x"
| "yields Undef Q = False"
| "yields Hang Q = False"

lemma yields_iff: "yields m Q \<longleftrightarrow> post m Q \<and> m \<noteq> Hang"
  by (cases m) auto

lemma yields_Ret: "yields m Q \<longleftrightarrow> (\<exists>x. m = Ret x \<and> Q x)"
  by (cases m) auto

lemma yields_seq:
  "yields m R \<Longrightarrow> (\<And>x. R x \<Longrightarrow> yields (f x) Q) \<Longrightarrow> yields (seq m f) Q"
  by (cases m) auto

lemma yields_seq_Hang: "yields m R \<Longrightarrow> (\<And>x. R x \<Longrightarrow> f x = Hang) \<Longrightarrow> seq m f = Hang"
  by (cases m) auto

lemma yields_seq_Undef: "yields m R \<Longrightarrow> (\<And>x. R x \<Longrightarrow> f x = Undef) \<Longrightarrow> seq m f = Undef"
  by (cases m) auto

lemma yields_mono: "yields m R \<Longrightarrow> (\<And>x. R x \<Longrightarrow> Q x) \<Longrightarrow> yields m Q"
  by (cases m) auto

text \<open>
  Both at once: the run is never undefined, returns only what satisfies \<open>Q\<close>, and does return
  when \<open>L\<close> (the hardware answers).
\<close>

definition runs :: "bool \<Rightarrow> 'a outcome \<Rightarrow> ('a \<Rightarrow> bool) \<Rightarrow> bool" where
  "runs L m Q = (post m Q \<and> (L \<longrightarrow> m \<noteq> Hang))"

lemma runs_Ret [simp]: "runs L (Ret x) Q = Q x"
  by (simp add: runs_def)

lemma runs_seq: "runs L m R \<Longrightarrow> (\<And>x. R x \<Longrightarrow> runs L (f x) Q) \<Longrightarrow> runs L (seq m f) Q"
  by (cases m) (auto simp: runs_def)

lemma runs_mono: "runs L m R \<Longrightarrow> (\<And>x. R x \<Longrightarrow> Q x) \<Longrightarrow> runs L m Q"
  by (cases m) (auto simp: runs_def)

lemma runs_post: "runs L m Q \<Longrightarrow> post m Q"
  by (simp add: runs_def)

lemma runs_yields: "runs L m Q \<Longrightarrow> L \<Longrightarrow> yields m Q"
  by (simp add: runs_def yields_iff)

lemma runs_returns: "runs L m Q \<Longrightarrow> L \<Longrightarrow> post m P \<Longrightarrow> \<exists>x. m = Ret x \<and> P x"
  by (cases m) (auto simp: runs_def)

lemma yields_runs: "yields m Q \<Longrightarrow> runs L m Q"
  by (cases m) (auto simp: runs_def)

lemma runs_conj: "runs L m Q \<Longrightarrow> post m R \<Longrightarrow> runs L m (\<lambda>x. Q x \<and> R x)"
  by (cases m) (auto simp: runs_def)

section \<open>Loops\<close>

datatype ('s, 'r) turn = Again 's | Break 'r

partial_function (option) loop_opt ::
    "('s \<Rightarrow> ('s, 'r) turn outcome) \<Rightarrow> 's \<Rightarrow> 'r outcome option" where
  "loop_opt body s =
     (case body s of
        Undef \<Rightarrow> Some Undef
      | Hang \<Rightarrow> None
      | Ret w \<Rightarrow> (case w of Again s' \<Rightarrow> loop_opt body s' | Break r \<Rightarrow> Some (Ret r)))"

definition loop :: "('s \<Rightarrow> ('s, 'r) turn outcome) \<Rightarrow> 's \<Rightarrow> 'r outcome" where
  "loop body s = (case loop_opt body s of None \<Rightarrow> Hang | Some out \<Rightarrow> out)"

lemma loop_unfold:
  "loop body s =
     (case body s of
        Undef \<Rightarrow> Undef
      | Hang \<Rightarrow> Hang
      | Ret w \<Rightarrow> (case w of Again s' \<Rightarrow> loop body s' | Break r \<Rightarrow> Ret r))"
  unfolding loop_def
  by (subst loop_opt.simps) (auto split: outcome.splits turn.splits)

lemma loop_Again: "body s = Ret (Again s') \<Longrightarrow> loop body s = loop body s'"
  by (subst loop_unfold) simp

lemma loop_Break: "body s = Ret (Break r) \<Longrightarrow> loop body s = Ret r"
  by (subst loop_unfold) simp

text \<open>A loop whose body keeps an invariant can only return what the last turn establishes.\<close>

lemma loop_opt_inv:
  fixes body :: "'s \<Rightarrow> ('s, 'r) turn outcome"
  assumes ret: "loop_opt body s = Some out" and start: "I s"
    and step: "\<And>s. I s \<Longrightarrow> post (body s) (\<lambda>w. case w of Again s' \<Rightarrow> I s' | Break r \<Rightarrow> Q r)"
  shows "post out Q"
proof -
  have "f = body \<longrightarrow> I s \<longrightarrow> post out Q" if "loop_opt f s = Some out" for f s out
  proof (rule loop_opt.raw_induct
      [where P = "\<lambda>f s out. f = body \<longrightarrow> I s \<longrightarrow> post out Q", OF _ that])
    fix g :: "('s \<Rightarrow> ('s, 'r) turn outcome) \<Rightarrow> 's \<Rightarrow> 'r outcome option"
    fix f :: "'s \<Rightarrow> ('s, 'r) turn outcome" and s out
    assume IH: "\<And>f s out. g f s = Some out \<Longrightarrow> f = body \<longrightarrow> I s \<longrightarrow> post out Q"
      and eq: "(case f s of Undef \<Rightarrow> Some Undef | Hang \<Rightarrow> None
        | Ret w \<Rightarrow> (case w of Again s' \<Rightarrow> g f s' | Break r \<Rightarrow> Some (Ret r))) = Some out"
    show "f = body \<longrightarrow> I s \<longrightarrow> post out Q"
      using step [of s] eq IH by (auto split: outcome.splits turn.splits)
  qed
  with ret start show ?thesis by blast
qed

lemma loop_no_break:
  assumes "\<And>s r. body s \<noteq> Ret (Break r)"
  shows "loop body s \<noteq> Ret r"
proof -
  have "f = body \<longrightarrow> out \<noteq> Ret r" if "loop_opt f s = Some out" for f s out
  proof (rule loop_opt.raw_induct [where P = "\<lambda>f s out. f = body \<longrightarrow> out \<noteq> Ret r", OF _ that])
    fix g :: "('a \<Rightarrow> ('a, 'b) turn outcome) \<Rightarrow> 'a \<Rightarrow> 'b outcome option"
    fix f :: "'a \<Rightarrow> ('a, 'b) turn outcome" and s out
    assume IH: "\<And>f s out. g f s = Some out \<Longrightarrow> f = body \<longrightarrow> out \<noteq> Ret r"
      and eq: "(case f s of Undef \<Rightarrow> Some Undef | Hang \<Rightarrow> None
        | Ret w \<Rightarrow> (case w of Again s' \<Rightarrow> g f s' | Break r \<Rightarrow> Some (Ret r))) = Some out"
    show "f = body \<longrightarrow> out \<noteq> Ret r"
      using assms eq IH by (auto split: outcome.splits turn.splits)
  qed
  then show ?thesis by (auto simp: loop_def split: option.splits)
qed

lemma loop_post:
  assumes "I s"
    and "\<And>s. I s \<Longrightarrow> post (body s) (\<lambda>w. case w of Again s' \<Rightarrow> I s' | Break r \<Rightarrow> Q r)"
  shows "post (loop body s) Q"
  using loop_opt_inv [of body s _ I Q] assms
  by (auto simp: loop_def split: option.splits)

text \<open>Termination by a measure, and the converse: a body that always goes on never returns.\<close>

lemma loop_terminates:
  fixes f :: "'s \<Rightarrow> nat"
  assumes "I s"
    and step: "\<And>s s'. I s \<Longrightarrow> body s = Ret (Again s') \<Longrightarrow> I s' \<and> f s' < f s"
    and live: "\<And>s. I s \<Longrightarrow> body s \<noteq> Hang"
  shows "loop body s \<noteq> Hang"
  using assms(1)
proof (induction "f s" arbitrary: s rule: less_induct)
  case less
  show ?case
  proof (cases "body s")
    case (Ret w)
    then show ?thesis
      using less step [of s] by (subst loop_unfold) (auto split: turn.splits)
  next
    case Undef
    then show ?thesis by (subst loop_unfold) simp
  next
    case Hang
    with live less.prems show ?thesis by blast
  qed
qed

lemma loop_runs:
  fixes f :: "'s \<Rightarrow> nat"
  assumes "I s"
    and step: "\<And>s. I s \<Longrightarrow> runs L (body s) (\<lambda>w. case w of Again s' \<Rightarrow> I s' \<and> f s' < f s | Break r \<Rightarrow> Q r)"
  shows "runs L (loop body s) Q"
proof -
  have "post (body u) (\<lambda>w. case w of Again s' \<Rightarrow> I s' | Break r \<Rightarrow> Q r)" if "I u" for u
    by (rule post_mono [OF runs_post [OF step [OF that]]]) (simp split: turn.splits)
  then have "post (loop body s) Q"
    by (rule loop_post [where I = I, OF assms(1)])
  moreover have "loop body s \<noteq> Hang" if L: L
  proof (rule loop_terminates [where I = I and f = f, OF assms(1)])
    show "I s' \<and> f s' < f u" if "I u" and "body u = Ret (Again s')" for u s'
      using step [OF that(1)] that(2) by simp
    show "body u \<noteq> Hang" if "I u" for u
      using step [OF that] L by (simp add: runs_def)
  qed
  ultimately show ?thesis by (simp add: runs_def)
qed

lemma loop_hangs:
  assumes start: "I s"
    and step: "\<And>s. I s \<Longrightarrow> \<exists>s'. body s = Ret (Again s') \<and> I s'"
  shows "loop body s = Hang"
proof (cases "loop_opt body s")
  case None
  then show ?thesis by (simp add: loop_def)
next
  case (Some out)
  have "post out (\<lambda>_. False)"
    by (rule loop_opt_inv [where I = I, OF Some start]) (use step in fastforce)
  moreover have "post (loop body s) (\<lambda>_. False)"
    by (rule loop_post [where I = I, OF start]) (use step in fastforce)
  ultimately show ?thesis by (cases "loop body s") auto
qed

text \<open>A counted loop \<open>for (i = lo; i < lo + n; i++)\<close>.\<close>

fun for_up :: "(nat \<Rightarrow> 's \<Rightarrow> 's outcome) \<Rightarrow> nat \<Rightarrow> nat \<Rightarrow> 's \<Rightarrow> 's outcome" where
  "for_up body i 0 s = Ret s"
| "for_up body i (Suc n) s = seq (body i s) (for_up body (Suc i) n)"

lemma for_up_runs:
  assumes "I lo s"
    and "\<And>i s. lo \<le> i \<Longrightarrow> i < lo + n \<Longrightarrow> I i s \<Longrightarrow> runs L (body i s) (I (Suc i))"
  shows "runs L (for_up body lo n s) (I (lo + n))"
  using assms
proof (induction n arbitrary: lo s)
  case (Suc n)
  have "runs L (body lo s) (I (Suc lo))"
    using Suc.prems by simp
  moreover have "runs L (for_up body (Suc lo) n t) (I (lo + Suc n))" if "I (Suc lo) t" for t
    using Suc.IH [of "Suc lo" t] Suc.prems(2) that by simp
  ultimately show ?case by (auto intro: runs_seq)
qed simp

lemma for_up_append:
  "for_up body lo (m + n) s = seq (for_up body lo m s) (for_up body (lo + m) n)"
proof (induction m arbitrary: lo s)
  case (Suc m)
  then show ?case by (cases "body lo s") simp_all
qed simp

lemma for_up_post:
  assumes "I lo s"
    and "\<And>i s. lo \<le> i \<Longrightarrow> i < lo + n \<Longrightarrow> I i s \<Longrightarrow> post (body i s) (I (Suc i))"
  shows "post (for_up body lo n s) (I (lo + n))"
  using for_up_runs [of I lo s n False body] assms by (simp add: runs_def)

lemma for_up_yields:
  assumes "I lo s"
    and "\<And>i s. lo \<le> i \<Longrightarrow> i < lo + n \<Longrightarrow> I i s \<Longrightarrow> yields (body i s) (I (Suc i))"
  shows "yields (for_up body lo n s) (I (lo + n))"
  using for_up_runs [of I lo s n True body] assms by (simp add: runs_def yields_iff)

lemma for_up_Ret:
  assumes "for_up body lo n s = Ret s'" and "I s"
    and "\<And>i u v. I u \<Longrightarrow> body i u = Ret v \<Longrightarrow> I v"
  shows "I s'"
  using assms
proof (induction n arbitrary: lo s)
  case (Suc n)
  then show ?case by (auto simp: seq_eq_Ret)
qed simp

end
