(* ===== verification/Hardware.thy ===== *)
theory Hardware
  imports Prelude
begin

text \<open>
  The two things a driver touches: memory through pointers, and device registers through the
  \<open>IORD\<close>/\<open>IOWR\<close> macros of \<open>io.h\<close>.

  \<^item> Memory is a map from regions (one per C object) to its bytes; a pointer is a region and an
    offset, and an access outside the region is \<open>Undef\<close>.
  \<^item> The trace lists, oldest first, every register access, delay and no-op the code performed.
    A \<open>device\<close> answers a read at a byte address as a function of the whole trace so far, so
    nothing is assumed of the hardware: registers may change by themselves between two reads.
  \<^item> Projections of a trace: \<open>bus_writes base\<close> are the register writes inside the 32-byte window
    of one peripheral, \<open>bus_reads base reg\<close> the values read from one of its registers.
\<close>

section \<open>Memory\<close>

type_synonym 'r memory = "'r \<Rightarrow> u8 list"
type_synonym 'r pointer = "'r \<times> nat"

definition load :: "'r memory \<Rightarrow> 'r pointer \<Rightarrow> u8 outcome" where
  "load m p = (if snd p < length (m (fst p)) then Ret (m (fst p) ! snd p) else Undef)"

definition store :: "'r memory \<Rightarrow> 'r pointer \<Rightarrow> u8 \<Rightarrow> 'r memory outcome" where
  "store m p v =
     (if snd p < length (m (fst p)) then Ret (m(fst p := (m (fst p))[snd p := v])) else Undef)"

text \<open>The bytes \<open>n\<close> long at a pointer, and that they all lie inside the region.\<close>

definition bytes_at :: "'r memory \<Rightarrow> 'r pointer \<Rightarrow> nat \<Rightarrow> u8 list" where
  "bytes_at m p n = take n (drop (snd p) (m (fst p)))"

definition in_bounds :: "'r memory \<Rightarrow> 'r pointer \<Rightarrow> nat \<Rightarrow> bool" where
  "in_bounds m p n = (snd p + n \<le> length (m (fst p)))"

text \<open>Same region sizes: what no store changes.\<close>

definition same_shape :: "'r memory \<Rightarrow> 'r memory \<Rightarrow> bool" where
  "same_shape m m' = (\<forall>r. length (m' r) = length (m r))"

text \<open>Memory changed at most in the \<open>n\<close> bytes at \<open>p\<close>.\<close>

definition writes_only :: "'r pointer \<Rightarrow> nat \<Rightarrow> 'r memory \<Rightarrow> 'r memory \<Rightarrow> bool" where
  "writes_only p n m m' =
     (same_shape m m' \<and> (\<forall>r i. (r, i) \<notin> {fst p} \<times> {snd p..<snd p + n} \<longrightarrow> m' r ! i = m r ! i))"

lemma same_shape_refl [simp]: "same_shape m m"
  by (simp add: same_shape_def)

lemma same_shape_trans: "same_shape m m' \<Longrightarrow> same_shape m' m'' \<Longrightarrow> same_shape m m''"
  by (simp add: same_shape_def)

lemma same_shape_length: "same_shape m m' \<Longrightarrow> length (m' r) = length (m r)"
  by (simp add: same_shape_def)

lemma same_shape_in_bounds: "same_shape m m' \<Longrightarrow> in_bounds m' p n = in_bounds m p n"
  by (simp add: same_shape_def in_bounds_def)

lemma writes_only_refl [simp]: "writes_only p n m m"
  by (simp add: writes_only_def)

lemma writes_only_shape: "writes_only p n m m' \<Longrightarrow> same_shape m m'"
  by (simp add: writes_only_def)

lemma writes_only_length: "writes_only p n m m' \<Longrightarrow> length (m' r) = length (m r)"
  by (simp add: writes_only_def same_shape_def)

lemma writes_only_other:
  assumes "writes_only p n m m'" and "r \<noteq> fst p"
  shows "m' r = m r"
  using assms by (auto simp: writes_only_def same_shape_def intro!: nth_equalityI)

lemma writes_only_empty: "writes_only p 0 m m' \<Longrightarrow> m' = m"
  by (auto simp: writes_only_def same_shape_def intro!: nth_equalityI ext)

lemma writes_only_trans:
  assumes "writes_only p n m m'" and "writes_only p n m' m''"
  shows "writes_only p n m m''"
  using assms by (auto simp: writes_only_def intro: same_shape_trans)

lemma writes_only_mono:
  assumes "writes_only (r, i) n m m'" and "j \<le> i" and "i + n \<le> j + k"
  shows "writes_only (r, j) k m m'"
  using assms by (auto simp: writes_only_def)

lemma load_bytes_at:
  assumes "in_bounds m p n" and "k < n"
  shows "load m (fst p, snd p + k) = Ret (bytes_at m p n ! k)"
  using assms by (auto simp: load_def in_bounds_def bytes_at_def)

lemma load_Ret:
  assumes "i < length (m r)" shows "load m (r, i) = Ret (m r ! i)"
  using assms by (simp add: load_def)

lemma store_Ret:
  assumes "i < length (m r)" shows "store m (r, i) v = Ret (m(r := (m r)[i := v]))"
  using assms by (simp add: store_def)

lemma store_writes_only:
  "store m (r, i) v = Ret m' \<Longrightarrow> writes_only (r, i) 1 m m'"
  by (auto simp: store_def writes_only_def same_shape_def split: if_splits)

lemma length_bytes_at [simp]: "in_bounds m p n \<Longrightarrow> length (bytes_at m p n) = n"
  by (simp add: bytes_at_def in_bounds_def)

lemma bytes_at_map:
  assumes "i + n \<le> length (m r)"
  shows "bytes_at m (r, i) n = map (\<lambda>k. m r ! (i + k)) [0..<n]"
  using assms by (intro nth_equalityI) (auto simp: bytes_at_def)

lemma bytes_at_unchanged:
  assumes "writes_only (r, i) n m m'" and "j + k \<le> i \<or> i + n \<le> j \<or> q \<noteq> r"
  shows "bytes_at m' (q, j) k = bytes_at m (q, j) k"
proof (rule nth_equalityI)
  show "length (bytes_at m' (q, j) k) = length (bytes_at m (q, j) k)"
    using assms(1) by (simp add: bytes_at_def writes_only_length)
  fix l assume "l < length (bytes_at m' (q, j) k)"
  then have l: "l < k" "j + l < length (m' q)" "j + l < length (m q)"
    using assms(1) by (auto simp: bytes_at_def writes_only_length)
  then have "m' q ! (j + l) = m q ! (j + l)"
    using assms by (auto simp: writes_only_def)
  with l show "bytes_at m' (q, j) k ! l = bytes_at m (q, j) k ! l"
    by (simp add: bytes_at_def)
qed

lemma bytes_at_store_snoc:
  assumes "in_bounds m (r, i) (Suc k)"
  shows "bytes_at (m(r := (m r)[i + k := v])) (r, i) (Suc k) = bytes_at m (r, i) k @ [v]"
  using assms
  by (simp add: bytes_at_def in_bounds_def take_Suc_conv_app_nth drop_update_swap take_update_cancel)

section \<open>Registers, delays and the trace\<close>

datatype io_event = Rd u32 u32 | Wr u32 u32 | Delay u32 | Nop

type_synonym trace = "io_event list"
type_synonym device = "trace \<Rightarrow> u32 \<Rightarrow> u32"

text \<open>\<open>__IO_CALC_ADDRESS_NATIVE\<close>: registers are 32 bits wide.\<close>

definition reg_address :: "u32 \<Rightarrow> nat \<Rightarrow> u32" where
  "reg_address base reg = base + of_nat (reg * 4)"

definition IORD :: "device \<Rightarrow> u32 \<Rightarrow> nat \<Rightarrow> trace \<Rightarrow> u32 \<times> trace" where
  "IORD dev base reg t =
     (let v = dev t (reg_address base reg) in (v, t @ [Rd (reg_address base reg) v]))"

definition IOWR :: "u32 \<Rightarrow> nat \<Rightarrow> u32 \<Rightarrow> trace \<Rightarrow> trace" where
  "IOWR base reg v t = t @ [Wr (reg_address base reg) v]"

text \<open>\<open>usleep\<close> delays (see theory Timing for the loop that does it); \<open>asm("nop")\<close> does nothing.\<close>

definition usleep :: "u32 \<Rightarrow> trace \<Rightarrow> trace" where
  "usleep us t = t @ [Delay us]"

definition nops :: "nat \<Rightarrow> trace \<Rightarrow> trace" where
  "nops n t = t @ replicate n Nop"

section \<open>Projections of a trace\<close>

definition in_window :: "u32 \<Rightarrow> u32 \<Rightarrow> bool" where
  "in_window base a = (unat (a - base) < 32)"

fun at_window :: "u32 \<Rightarrow> io_event \<Rightarrow> bool" where
  "at_window base (Rd a v) = in_window base a"
| "at_window base (Wr a v) = in_window base a"
| "at_window base (Delay us) = False"
| "at_window base Nop = False"

fun bus_writes :: "u32 \<Rightarrow> trace \<Rightarrow> (nat \<times> u32) list" where
  "bus_writes base [] = []"
| "bus_writes base (e # es) =
     (case e of
        Wr a v \<Rightarrow> (if in_window base a then (unat (a - base) div 4, v) # bus_writes base es
                   else bus_writes base es)
      | _ \<Rightarrow> bus_writes base es)"

fun bus_reads :: "u32 \<Rightarrow> nat \<Rightarrow> trace \<Rightarrow> u32 list" where
  "bus_reads base reg [] = []"
| "bus_reads base reg (e # es) =
     (case e of
        Rd a v \<Rightarrow> (if a = reg_address base reg then v # bus_reads base reg es
                   else bus_reads base reg es)
      | _ \<Rightarrow> bus_reads base reg es)"

lemma bus_writes_append [simp]: "bus_writes base (s @ t) = bus_writes base s @ bus_writes base t"
  by (induction s) (auto split: io_event.splits)

lemma bus_reads_append [simp]:
  "bus_reads base reg (s @ t) = bus_reads base reg s @ bus_reads base reg t"
  by (induction s) (auto split: io_event.splits)

lemma bus_writes_none: "\<forall>e \<in> set es. \<not> at_window base e \<Longrightarrow> bus_writes base es = []"
  by (induction es) (auto split: io_event.splits)

text \<open>The new events of a run all satisfy a predicate.\<close>

definition extends :: "(io_event \<Rightarrow> bool) \<Rightarrow> trace \<Rightarrow> trace \<Rightarrow> bool" where
  "extends P t t' = (\<exists>es. t' = t @ es \<and> (\<forall>e \<in> set es. P e))"

lemma extends_refl [simp, intro]: "extends P t t"
  by (simp add: extends_def)

lemma extends_trans [trans]: "extends P t t' \<Longrightarrow> extends P t' t'' \<Longrightarrow> extends P t t''"
  by (auto simp: extends_def)

lemma extends_weaken: "extends P t t' \<Longrightarrow> (\<And>e. P e \<Longrightarrow> Q e) \<Longrightarrow> extends Q t t'"
  by (auto simp: extends_def)

lemma extends_snoc: "extends P t s \<Longrightarrow> P e \<Longrightarrow> extends P t (s @ [e])"
  by (auto simp: extends_def)

lemma extends_bus_writes:
  assumes "extends P t t'" and "\<And>e. P e \<Longrightarrow> \<not> at_window base e"
  shows "bus_writes base t' = bus_writes base t"
  using assms bus_writes_none [of _ base] by (auto simp: extends_def)

lemma extends_bus_reads:
  assumes "extends P t t'" and "\<And>e. P e \<Longrightarrow> \<not> at_window base e" and "in_window base (reg_address base reg)"
  shows "bus_reads base reg t' = bus_reads base reg t"
proof -
  have "\<forall>e \<in> set es. P e \<Longrightarrow> bus_reads base reg es = []" for es
    using assms(2) [of "Rd (reg_address base reg) v" for v] assms(3)
    by (induction es) (auto split: io_event.splits)
  with assms(1) show ?thesis by (auto simp: extends_def)
qed

text \<open>Peripherals at least 32 bytes apart have disjoint windows.\<close>

lemma in_window_apart:
  assumes "in_window b a" and "32 \<le> unat (b - c)" and "unat (b - c) \<le> 4294967264"
  shows "\<not> in_window c a"
proof -
  have "a - c = (b - c) + (a - b)" by simp
  then have "unat (a - c) = unat (b - c) + unat (a - b)"
    using assms unfolding in_window_def by (simp only: unat_plus_if') simp
  with assms show ?thesis by (simp add: in_window_def)
qed

lemma at_window_apart:
  assumes "at_window b e" and "32 \<le> unat (b - c)" and "unat (b - c) \<le> 4294967264"
  shows "\<not> at_window c e"
  using assms in_window_apart by (cases e) auto

lemma unat_reg_address: "reg < 8 \<Longrightarrow> unat (reg_address base reg - base) = reg * 4"
  by (simp add: reg_address_def unat_of_nat del: of_nat_mult)

lemma reg_in_window [simp]: "reg < 8 \<Longrightarrow> in_window base (reg_address base reg)"
  by (simp add: in_window_def unat_reg_address)

lemma reg_address_inj [simp]:
  assumes "r < 8" and "r' < 8"
  shows "reg_address base r = reg_address base r' \<longleftrightarrow> r = r'"
proof
  assume "reg_address base r = reg_address base r'"
  then have "r * 4 = r' * 4"
    using assms unat_reg_address by metis
  then show "r = r'" by simp
qed simp

lemma extends_IORD [frame_intros]:
  "reg < 8 \<Longrightarrow> extends (at_window base) t s
     \<Longrightarrow> extends (at_window base) t (snd (IORD dev base reg s))"
  by (auto simp: IORD_def Let_def intro: extends_snoc)

lemma extends_IOWR [frame_intros]:
  "reg < 8 \<Longrightarrow> extends (at_window base) t s \<Longrightarrow> extends (at_window base) t (IOWR base reg v s)"
  by (auto simp: IOWR_def intro: extends_snoc)

text \<open>The values read are the device's answers.\<close>

fun answered :: "device \<Rightarrow> io_event \<Rightarrow> bool" where
  "answered dev (Rd a v) = (\<exists>t. v = dev t a)"
| "answered dev (Wr a v) = True"
| "answered dev (Delay us) = True"
| "answered dev Nop = True"

definition on_bus :: "device \<Rightarrow> u32 \<Rightarrow> io_event \<Rightarrow> bool" where
  "on_bus dev base e = (at_window base e \<and> answered dev e)"

lemma on_bus_IORD [frame_intros]:
  "reg < 8 \<Longrightarrow> extends (on_bus dev base) t s
     \<Longrightarrow> extends (on_bus dev base) t (snd (IORD dev base reg s))"
  by (auto simp: IORD_def Let_def on_bus_def intro!: extends_snoc)

lemma on_bus_IOWR [frame_intros]:
  "reg < 8 \<Longrightarrow> extends (on_bus dev base) t s \<Longrightarrow> extends (on_bus dev base) t (IOWR base reg v s)"
  by (auto simp: IOWR_def on_bus_def intro!: extends_snoc)

lemma on_bus_Rd [simp]:
  "reg < 8 \<Longrightarrow> on_bus dev base (Rd (reg_address base reg) (dev t (reg_address base reg)))"
  by (auto simp: on_bus_def)

lemma on_bus_window: "extends (on_bus dev base) t t' \<Longrightarrow> extends (at_window base) t t'"
  by (erule extends_weaken) (simp add: on_bus_def)

lemma IORD_writes [simp]:
  "bus_writes b (snd (IORD dev base reg t)) = bus_writes b t"
  by (auto simp: IORD_def Let_def)

lemma IOWR_writes [simp]:
  "reg < 8 \<Longrightarrow> bus_writes base (IOWR base reg v t) = bus_writes base t @ [(reg, v)]"
  by (simp add: IOWR_def unat_reg_address)

lemma IOWR_reads [simp]: "bus_reads b reg' (IOWR base reg v t) = bus_reads b reg' t"
  by (simp add: IOWR_def)

lemma quiet_bus [simp]:
  "bus_writes b (usleep us t) = bus_writes b t" "bus_reads b reg (usleep us t) = bus_reads b reg t"
  "bus_writes b (nops n t) = bus_writes b t" "bus_reads b reg (nops n t) = bus_reads b reg t"
  by (induction n) (auto simp: usleep_def nops_def)

lemma IORD_reads [simp]:
  "reg < 8 \<Longrightarrow> reg' < 8 \<Longrightarrow> bus_reads base reg' (snd (IORD dev base reg t))
     = bus_reads base reg' t @ (if reg' = reg then [fst (IORD dev base reg t)] else [])"
  by (auto simp: IORD_def Let_def)

end
