(* ===== verification/Spi.thy ===== *)
theory Spi
  imports Hardware
begin

text \<open>
  \<open>alt_avalon_spi_command\<close> (\<open>altera_avalon_spi.c\<close>): one transaction of the Avalon SPI master, by
  polling.  The C cursors \<open>write_data\<close> and \<open>read_data\<close> are offsets into their regions, loads
  and stores go to the same memory in the order of the code (the firmware passes overlapping
  buffers), and the three polling loops are instances of \<open>loop\<close>.  The counters \<open>write_zeros\<close>
  and \<open>read_ignore\<close> are only decremented when positive, so they are naturals; \<open>credits\<close> is a
  signed integer that stays between -1024 and 1 plus the number of bytes read.

  Lemmas: what holds of every device (frame, memory safety, flow control), what holds of a core
  that raises RRDY only for an unread byte (the exact bytes sent and stored), and that a core
  that answers within a bounded number of polls makes the routine return.  The locale
  \<open>spi_master\<close> is the contract the command handlers use.
\<close>

section \<open>Registers of the core (\<open>altera_avalon_spi_regs.h\<close>)\<close>

abbreviation (input) SPI_RXDATA :: nat where "SPI_RXDATA \<equiv> 0"
abbreviation (input) SPI_TXDATA :: nat where "SPI_TXDATA \<equiv> 1"
abbreviation (input) SPI_STATUS :: nat where "SPI_STATUS \<equiv> 2"
abbreviation (input) SPI_CONTROL :: nat where "SPI_CONTROL \<equiv> 3"
abbreviation (input) SPI_SLAVE_SEL :: nat where "SPI_SLAVE_SEL \<equiv> 5"

definition SPI_STATUS_TMT_MSK :: u32 where "SPI_STATUS_TMT_MSK = 0x20"
definition SPI_STATUS_TRDY_MSK :: u32 where "SPI_STATUS_TRDY_MSK = 0x40"
definition SPI_STATUS_RRDY_MSK :: u32 where "SPI_STATUS_RRDY_MSK = 0x80"
definition SPI_CONTROL_SSO_MSK :: u32 where "SPI_CONTROL_SSO_MSK = 0x400"
definition ALT_AVALON_SPI_COMMAND_MERGE :: u32 where "ALT_AVALON_SPI_COMMAND_MERGE = 1"
definition ALT_AVALON_SPI_COMMAND_TOGGLE_SS_N :: u32 where "ALT_AVALON_SPI_COMMAND_TOGGLE_SS_N = 2"

definition trdy :: "u32 \<Rightarrow> bool" where "trdy s = (s AND SPI_STATUS_TRDY_MSK \<noteq> 0)"
definition rrdy :: "u32 \<Rightarrow> bool" where "rrdy s = (s AND SPI_STATUS_RRDY_MSK \<noteq> 0)"
definition tmt :: "u32 \<Rightarrow> bool" where "tmt s = (s AND SPI_STATUS_TMT_MSK \<noteq> 0)"

section \<open>The transaction\<close>

record 'r xfer =
  x_write_data :: nat
  x_read_data :: nat
  x_write_zeros :: nat
  x_read_ignore :: nat
  x_credits :: int
  x_memory :: "'r memory"
  x_trace :: trace

text \<open>The inner \<open>do ... while\<close>: poll the status until the core can take or has a byte.\<close>

definition spi_poll :: "device \<Rightarrow> u32 \<Rightarrow> int \<Rightarrow> trace \<Rightarrow> (u32 \<times> trace) outcome" where
  "spi_poll dev base credits =
     loop (\<lambda>t. let (status, t') = IORD dev base SPI_STATUS t in
       Ret (if (\<not> trdy status \<or> credits = 0) \<and> \<not> rrdy status then Again t'
            else Break (status, t')))"

text \<open>Send a byte when the core is ready for one and a credit is left.\<close>

definition spi_push :: "u32 \<Rightarrow> 'r \<Rightarrow> nat \<Rightarrow> u32 \<Rightarrow> 'r xfer \<Rightarrow> 'r xfer outcome" where
  "spi_push base region write_end status s =
     (if trdy status \<and> x_credits s > 0 then
        let s = s\<lparr>x_credits := x_credits s - 1\<rparr> in
        if x_write_data s < write_end then
          seq (load (x_memory s) (region, x_write_data s)) (\<lambda>b.
            Ret (s\<lparr>x_write_data := x_write_data s + 1,
                   x_trace := IOWR base SPI_TXDATA (ucast b) (x_trace s)\<rparr>))
        else if x_write_zeros s > 0 then
          Ret (s\<lparr>x_write_zeros := x_write_zeros s - 1,
                 x_trace := IOWR base SPI_TXDATA 0 (x_trace s)\<rparr>)
        else Ret (s\<lparr>x_credits := - 1024\<rparr>)
      else Ret s)"

text \<open>Take a byte when the core has one; the transaction ends with the last byte expected.\<close>

definition spi_pull ::
    "device \<Rightarrow> u32 \<Rightarrow> 'r \<Rightarrow> nat \<Rightarrow> u32 \<Rightarrow> 'r xfer \<Rightarrow> ('r xfer, 'r xfer) turn outcome" where
  "spi_pull dev base region read_end status s =
     (if rrdy status then
        let (rxdata, t) = IORD dev base SPI_RXDATA (x_trace s); s = s\<lparr>x_trace := t\<rparr> in
        seq (if x_read_ignore s > 0 then Ret (s\<lparr>x_read_ignore := x_read_ignore s - 1\<rparr>)
             else seq (store (x_memory s) (region, x_read_data s) (ucast rxdata)) (\<lambda>m.
               Ret (s\<lparr>x_memory := m, x_read_data := x_read_data s + 1\<rparr>))) (\<lambda>s.
        let s = s\<lparr>x_credits := x_credits s + 1\<rparr> in
        Ret (if x_read_ignore s = 0 \<and> x_read_data s = read_end then Break s else Again s))
      else Ret (Again s))"

definition spi_turn ::
    "device \<Rightarrow> u32 \<Rightarrow> 'r pointer \<Rightarrow> nat \<Rightarrow> 'r pointer \<Rightarrow> nat \<Rightarrow> 'r xfer
       \<Rightarrow> ('r xfer, 'r xfer) turn outcome" where
  "spi_turn dev base wr w rd r s =
     seq (spi_poll dev base (x_credits s) (x_trace s)) (\<lambda>(status, t).
     seq (spi_push base (fst wr) (snd wr + w) status (s\<lparr>x_trace := t\<rparr>)) (\<lambda>s.
     spi_pull dev base (fst rd) (snd rd + r) status s))"

text \<open>The final \<open>do ... while\<close>: wait until the core has finished transmitting.\<close>

definition spi_drain :: "device \<Rightarrow> u32 \<Rightarrow> trace \<Rightarrow> trace outcome" where
  "spi_drain dev base =
     loop (\<lambda>t. let (status, t') = IORD dev base SPI_STATUS t in
       Ret (if \<not> tmt status then Again t' else Break t'))"

definition spi_setup :: "device \<Rightarrow> u32 \<Rightarrow> u32 \<Rightarrow> u32 \<Rightarrow> trace \<Rightarrow> trace" where
  "spi_setup dev base slave flags t =
     (let t = IOWR base SPI_SLAVE_SEL (push_bit (unat slave) 1) t;
          t = (if flags AND ALT_AVALON_SPI_COMMAND_TOGGLE_SS_N = 0
               then IOWR base SPI_CONTROL SPI_CONTROL_SSO_MSK t else t)
      in snd (IORD dev base SPI_RXDATA t))"

definition spi_release :: "u32 \<Rightarrow> u32 \<Rightarrow> trace \<Rightarrow> trace" where
  "spi_release base flags t =
     (if flags AND ALT_AVALON_SPI_COMMAND_MERGE = 0 then IOWR base SPI_CONTROL 0 t else t)"

definition alt_avalon_spi_command ::
    "device \<Rightarrow> u32 \<Rightarrow> u32 \<Rightarrow> nat \<Rightarrow> 'r pointer \<Rightarrow> nat \<Rightarrow> 'r pointer \<Rightarrow> u32
       \<Rightarrow> 'r memory \<times> trace \<Rightarrow> (nat \<times> 'r memory \<times> trace) outcome" where
  "alt_avalon_spi_command dev base slave write_length write_data read_length read_data flags mt =
     seq (loop (spi_turn dev base write_data write_length read_data read_length)
            \<lparr>x_write_data = snd write_data, x_read_data = snd read_data,
             x_write_zeros = read_length, x_read_ignore = write_length, x_credits = 1,
             x_memory = fst mt, x_trace = spi_setup dev base slave flags (snd mt)\<rparr>) (\<lambda>s.
     seq (spi_drain dev base (x_trace s)) (\<lambda>t.
     Ret (read_length, x_memory s, spi_release base flags t)))"

section \<open>For every device: frame and memory safety\<close>

definition xfer_frame ::
    "device \<Rightarrow> u32 \<Rightarrow> 'r pointer \<Rightarrow> nat \<Rightarrow> 'r memory \<Rightarrow> trace \<Rightarrow> 'r xfer \<Rightarrow> bool" where
  "xfer_frame dev base rd r m t s =
     (snd rd \<le> x_read_data s \<and> x_read_data s \<le> snd rd + r
      \<and> writes_only rd r m (x_memory s) \<and> extends (on_bus dev base) t (x_trace s))"

definition unfinished :: "'r pointer \<Rightarrow> nat \<Rightarrow> 'r xfer \<Rightarrow> bool" where
  "unfinished rd r s = (\<not> (x_read_ignore s = 0 \<and> x_read_data s = snd rd + r))"

lemma spi_poll_frame:
  "post (spi_poll dev base c t)
     (\<lambda>(status, t'). extends (on_bus dev base) t t' \<and> (trdy status \<and> c \<noteq> 0 \<or> rrdy status))"
  unfolding spi_poll_def
  by (rule loop_post [where I = "extends (on_bus dev base) t"])
    (auto simp: IORD_def Let_def intro: extends_snoc)

lemma spi_drain_frame:
  "post (spi_drain dev base t) (extends (on_bus dev base) t)"
  unfolding spi_drain_def
  by (rule loop_post [where I = "extends (on_bus dev base) t"])
    (auto simp: IORD_def Let_def intro: extends_snoc)

lemma spi_setup_frame: "extends (on_bus dev base) t (spi_setup dev base slave flags t)"
  unfolding spi_setup_def Let_def
  by (intro on_bus_IORD) (auto intro!: on_bus_IOWR)

lemma spi_release_frame:
  "extends (on_bus dev base) t s \<Longrightarrow> extends (on_bus dev base) t (spi_release base flags s)"
  by (simp add: spi_release_def on_bus_IOWR)

lemma spi_push_frame:
  assumes "xfer_frame dev base rd r m t s" and "unfinished rd r s" and "in_bounds m wr w"
  shows "post (spi_push base (fst wr) (snd wr + w) status s)
           (\<lambda>s. xfer_frame dev base rd r m t s \<and> unfinished rd r s)"
proof -
  have "length (x_memory s (fst wr)) = length (m (fst wr))"
    using assms by (auto simp: xfer_frame_def writes_only_length)
  with assms show ?thesis
    by (auto simp: spi_push_def xfer_frame_def unfinished_def Let_def load_def in_bounds_def
        intro: on_bus_IOWR)
qed

lemma spi_pull_frame:
  assumes frame: "xfer_frame dev base rd r m t s" and todo: "unfinished rd r s"
    and room: "in_bounds m rd r"
  shows "post (spi_pull dev base (fst rd) (snd rd + r) status s)
           (\<lambda>x. case x of Again s' \<Rightarrow> xfer_frame dev base rd r m t s' \<and> unfinished rd r s'
              | Break s' \<Rightarrow> xfer_frame dev base rd r m t s')"
proof (cases "rrdy status")
  case True
  obtain v t' where rd: "IORD dev base SPI_RXDATA (x_trace s) = (v, t')"
    by fastforce
  have ext: "extends (on_bus dev base) t t'"
    using frame on_bus_IORD [of SPI_RXDATA dev base t "x_trace s"] rd
    by (auto simp: xfer_frame_def)
  show ?thesis
  proof (cases "x_read_ignore s > 0")
    case True
    with \<open>rrdy status\<close> rd ext frame show ?thesis
      by (auto simp: spi_pull_def xfer_frame_def unfinished_def Let_def)
  next
    case False
    then have lt: "x_read_data s < snd rd + r"
      using frame todo by (auto simp: xfer_frame_def unfinished_def)
    have "x_read_data s < length (x_memory s (fst rd))"
      using lt room frame writes_only_shape same_shape_length
      by (fastforce simp: xfer_frame_def in_bounds_def)
    then obtain m' where m': "store (x_memory s) (fst rd, x_read_data s) (ucast v) = Ret m'"
      by (simp add: store_def)
    have "writes_only rd r m m'"
      using frame lt writes_only_mono [OF store_writes_only [OF m'], of "snd rd" r]
      by (auto simp: xfer_frame_def intro: writes_only_trans)
    with False \<open>rrdy status\<close> rd ext frame m' lt show ?thesis
      by (auto simp: spi_pull_def xfer_frame_def unfinished_def Let_def)
  qed
next
  case False
  with assms show ?thesis by (simp add: spi_pull_def)
qed

lemma spi_turn_frame:
  assumes "xfer_frame dev base rd r m t s" and "unfinished rd r s"
    and "in_bounds m wr w" and "in_bounds m rd r"
  shows "post (spi_turn dev base wr w rd r s)
           (\<lambda>x. case x of Again s' \<Rightarrow> xfer_frame dev base rd r m t s' \<and> unfinished rd r s'
              | Break s' \<Rightarrow> xfer_frame dev base rd r m t s')"
  unfolding spi_turn_def
proof (rule post_seq [OF spi_poll_frame], clarify)
  fix status t'
  assume "extends (on_bus dev base) (x_trace s) t'"
  then have "xfer_frame dev base rd r m t (s\<lparr>x_trace := t'\<rparr>)" "unfinished rd r (s\<lparr>x_trace := t'\<rparr>)"
    using assms by (auto simp: xfer_frame_def unfinished_def intro: extends_trans)
  then show "post (seq (spi_push base (fst wr) (snd wr + w) status (s\<lparr>x_trace := t'\<rparr>))
       (spi_pull dev base (fst rd) (snd rd + r) status))
     (\<lambda>x. case x of Again s' \<Rightarrow> xfer_frame dev base rd r m t s' \<and> unfinished rd r s'
        | Break s' \<Rightarrow> xfer_frame dev base rd r m t s')"
    using assms by (auto intro: post_seq [OF spi_push_frame] spi_pull_frame)
qed

lemma alt_avalon_spi_command_frame:
  assumes "in_bounds m wr w" and "in_bounds m rd r" and "0 < w + r"
  shows "post (alt_avalon_spi_command dev base slave w wr r rd flags (m, t))
           (\<lambda>(n, m', t'). n = r \<and> writes_only rd r m m' \<and> extends (on_bus dev base) t t')"
proof -
  let ?t = "spi_setup dev base slave flags t"
  have "post (loop (spi_turn dev base wr w rd r)
          \<lparr>x_write_data = snd wr, x_read_data = snd rd, x_write_zeros = r, x_read_ignore = w,
           x_credits = 1, x_memory = m, x_trace = ?t\<rparr>) (xfer_frame dev base rd r m ?t)"
    using assms
    by (intro loop_post [where I = "\<lambda>s. xfer_frame dev base rd r m ?t s \<and> unfinished rd r s"]
        spi_turn_frame) (auto simp: xfer_frame_def unfinished_def)
  then show ?thesis
    unfolding alt_avalon_spi_command_def
    by (auto simp: xfer_frame_def intro!: post_seq [OF _ post_seq [OF spi_drain_frame]]
        elim!: post_mono intro!: spi_release_frame
        intro: extends_trans [OF extends_trans [OF spi_setup_frame]])
qed

section \<open>For a core that raises RRDY only for an unread byte: the exact transfer\<close>

text \<open>
  The receive side of the line, computed from the trace: whether a byte the core has received is
  still unread (every TXDATA write shifts one byte in, an RXDATA read takes it), and how many
  TXDATA writes happened while one was unread (each would lose a byte).
\<close>

fun line_step :: "u32 \<Rightarrow> io_event \<Rightarrow> bool \<times> nat \<Rightarrow> bool \<times> nat" where
  "line_step base (Wr a v) (unread, lost) =
     (if a = reg_address base SPI_TXDATA then (True, if unread then lost + 1 else lost)
      else (unread, lost))"
| "line_step base (Rd a v) (unread, lost) =
     (if a = reg_address base SPI_RXDATA then (False, lost) else (unread, lost))"
| "line_step base (Delay us) l = l"
| "line_step base Nop l = l"

definition spi_line :: "u32 \<Rightarrow> trace \<Rightarrow> bool \<times> nat" where
  "spi_line base t = fold (line_step base) t (False, 0)"

definition spi_unread :: "u32 \<Rightarrow> trace \<Rightarrow> bool" where
  "spi_unread base t = fst (spi_line base t)"

definition spi_overruns :: "u32 \<Rightarrow> trace \<Rightarrow> nat" where
  "spi_overruns base t = snd (spi_line base t)"

text \<open>The documented meaning of the status bit RRDY of the core.\<close>

definition spi_core :: "device \<Rightarrow> u32 \<Rightarrow> bool" where
  "spi_core dev base = (\<forall>t. rrdy (dev t (reg_address base SPI_STATUS)) \<longrightarrow> spi_unread base t)"

lemma spi_line_append [simp]:
  "spi_line base (t @ es) = fold (line_step base) es (spi_line base t)"
  by (simp add: spi_line_def)

lemma line_step_Wr [simp]:
  "reg < 8 \<Longrightarrow> line_step base (Wr (reg_address base reg) v) l =
     (if reg = SPI_TXDATA then (True, if fst l then snd l + 1 else snd l) else l)"
  by (cases l) auto

lemma line_step_Rd [simp]:
  "reg < 8 \<Longrightarrow> line_step base (Rd (reg_address base reg) v) l =
     (if reg = SPI_RXDATA then (False, snd l) else l)"
  by (cases l) auto

definition same_line :: "u32 \<Rightarrow> trace \<Rightarrow> trace \<Rightarrow> bool" where
  "same_line base t t' =
     (bus_writes base t' = bus_writes base t \<and> spi_line base t' = spi_line base t
      \<and> bus_reads base SPI_RXDATA t' = bus_reads base SPI_RXDATA t)"

lemma same_line_status:
  "same_line base t s \<Longrightarrow> same_line base t (s @ [Rd (reg_address base SPI_STATUS) v])"
  by (simp add: same_line_def)

lemma spi_poll_exact:
  assumes "spi_core dev base"
  shows "post (spi_poll dev base c t)
     (\<lambda>(status, t'). same_line base t t' \<and> (rrdy status \<longrightarrow> spi_unread base t)
        \<and> (trdy status \<and> c \<noteq> 0 \<or> rrdy status))"
  unfolding spi_poll_def
  using assms
  by (intro loop_post [where I = "same_line base t"])
    (auto simp: IORD_def Let_def spi_core_def spi_unread_def same_line_def)

lemma spi_drain_exact: "post (spi_drain dev base t) (same_line base t)"
  unfolding spi_drain_def
  by (intro loop_post [where I = "same_line base t"])
    (auto simp: IORD_def Let_def same_line_def)

definition sent_bytes :: "'r memory \<Rightarrow> 'r pointer \<Rightarrow> nat \<Rightarrow> nat \<Rightarrow> u32 list" where
  "sent_bytes m wr w r = map ucast (bytes_at m wr w) @ replicate r 0"

text \<open>After \<open>n\<close> bytes sent and the words \<open>rxs\<close> received.\<close>

definition xfer_at ::
    "u32 \<Rightarrow> 'r pointer \<Rightarrow> nat \<Rightarrow> 'r pointer \<Rightarrow> nat \<Rightarrow> 'r memory \<Rightarrow> trace \<Rightarrow> nat \<Rightarrow> u32 list \<Rightarrow> 'r xfer
       \<Rightarrow> bool" where
  "xfer_at base wr w rd r m t n rxs s =
     (n \<le> w + r \<and> (n = length rxs \<and> x_credits s = 1 \<or> n = Suc (length rxs) \<and> x_credits s = 0)
      \<and> x_write_data s = snd wr + min n w \<and> x_write_zeros s = r - (n - w)
      \<and> x_read_ignore s = w - length rxs \<and> x_read_data s = snd rd + (length rxs - w)
      \<and> writes_only rd r m (x_memory s) \<and> (length rxs \<le> w \<longrightarrow> x_memory s = m)
      \<and> bytes_at (x_memory s) rd (length rxs - w) = map ucast (drop w rxs)
      \<and> bus_writes base (x_trace s) =
          bus_writes base t @ map (Pair SPI_TXDATA) (take n (sent_bytes m wr w r))
      \<and> bus_reads base SPI_RXDATA (x_trace s) = bus_reads base SPI_RXDATA t @ rxs
      \<and> spi_line base (x_trace s) = (n \<noteq> length rxs, spi_overruns base t))"

lemma xfer_at_line:
  assumes "xfer_at base wr w rd r m t n rxs s" and "same_line base (x_trace s) t'"
  shows "xfer_at base wr w rd r m t n rxs (s\<lparr>x_trace := t'\<rparr>)"
  using assms by (simp add: xfer_at_def same_line_def)

lemma xfer_at_credits:
  "xfer_at base wr w rd r m t n rxs s \<Longrightarrow>
     n = length rxs \<and> x_credits s = 1 \<or> n = Suc (length rxs) \<and> x_credits s = 0"
  unfolding xfer_at_def by blast

lemma xfer_at_unread:
  assumes "xfer_at base wr w rd r m t n rxs s"
  shows "spi_unread base (x_trace s) \<longleftrightarrow> n = Suc (length rxs)"
proof -
  have "spi_line base (x_trace s) = (n \<noteq> length rxs, spi_overruns base t)"
    and "n = length rxs \<or> n = Suc (length rxs)"
    using assms unfolding xfer_at_def by blast+
  then show ?thesis by (auto simp: spi_unread_def)
qed

lemma spi_push_exact:
  assumes at: "xfer_at base wr w rd r m t n rxs s" and todo: "length rxs < w + r"
    and room: "in_bounds m wr w" and ready: "trdy status" "x_credits s \<noteq> 0"
  shows "\<exists>s'. spi_push base (fst wr) (snd wr + w) status s = Ret s'
           \<and> xfer_at base wr w rd r m t (Suc n) rxs s'"
proof -
  have n: "n = length rxs" "x_credits s = 1"
    using at ready by (auto simp: xfer_at_def)
  show ?thesis
  proof (cases "n < w")
    case True
    then have "x_memory s = m" "x_write_data s = snd wr + n"
      using at n by (auto simp: xfer_at_def)
    with True have "spi_push base (fst wr) (snd wr + w) status s =
        Ret (s\<lparr>x_credits := 0, x_write_data := Suc (snd wr + n),
               x_trace := IOWR base SPI_TXDATA (ucast (bytes_at m wr w ! n)) (x_trace s)\<rparr>)"
      using n ready load_bytes_at [OF room True] by (simp add: spi_push_def)
    moreover have "take (Suc n) (sent_bytes m wr w r) =
        take n (sent_bytes m wr w r) @ [ucast (bytes_at m wr w ! n)]"
      using True room by (simp add: sent_bytes_def take_Suc_conv_app_nth nth_append)
    ultimately show ?thesis
      using at n True by (auto simp: xfer_at_def IOWR_def unat_reg_address)
  next
    case False
    then have "spi_push base (fst wr) (snd wr + w) status s =
        Ret (s\<lparr>x_credits := 0, x_write_zeros := r - (n - w) - 1,
               x_trace := IOWR base SPI_TXDATA 0 (x_trace s)\<rparr>)"
      using at n ready todo by (auto simp: spi_push_def xfer_at_def)
    moreover have "take (Suc n) (sent_bytes m wr w r) = take n (sent_bytes m wr w r) @ [0]"
      using False room n todo by (simp add: sent_bytes_def Suc_diff_le replicate_append_same)
    ultimately show ?thesis
      using at n False todo by (auto simp: xfer_at_def IOWR_def unat_reg_address)
  qed
qed

lemma spi_pull_exact:
  assumes at: "xfer_at base wr w rd r m t (Suc (length rxs)) rxs s"
    and room: "in_bounds m rd r" and ready: "rrdy status"
  shows "\<exists>s' v. spi_pull dev base (fst rd) (snd rd + r) status s =
             Ret (if Suc (length rxs) = w + r then Break s' else Again s')
           \<and> xfer_at base wr w rd r m t (Suc (length rxs)) (rxs @ [v]) s'
           \<and> v = dev (x_trace s) (reg_address base SPI_RXDATA)"
proof -
  let ?v = "dev (x_trace s) (reg_address base SPI_RXDATA)"
  let ?t = "x_trace s @ [Rd (reg_address base SPI_RXDATA) ?v]"
  have n: "Suc (length rxs) \<le> w + r" "x_credits s = 0"
    using at by (auto simp: xfer_at_def)
  show ?thesis
  proof (cases "length rxs < w")
    case True
    let ?s = "s\<lparr>x_trace := ?t, x_read_ignore := w - length rxs - 1, x_credits := 1\<rparr>"
    have "spi_pull dev base (fst rd) (snd rd + r) status s =
        Ret (if Suc (length rxs) = w + r then Break ?s else Again ?s)"
      using at n True ready by (auto simp: spi_pull_def IORD_def xfer_at_def Let_def)
    moreover have "xfer_at base wr w rd r m t (Suc (length rxs)) (rxs @ [?v]) ?s"
      using at True by (auto simp: xfer_at_def)
    ultimately show ?thesis by blast
  next
    case False
    let ?k = "length rxs - w"
    let ?m = "(x_memory s)(fst rd := (x_memory s (fst rd))[snd rd + ?k := ucast ?v])"
    let ?s = "s\<lparr>x_trace := ?t, x_memory := ?m, x_read_data := Suc (snd rd + ?k), x_credits := 1\<rparr>"
    have wo: "writes_only rd r m (x_memory s)"
      and bs: "bytes_at (x_memory s) rd ?k = map ucast (drop w rxs)"
      and ptr: "x_read_ignore s = 0" "x_read_data s = snd rd + ?k"
      using at False by (auto simp: xfer_at_def)
    have room': "in_bounds (x_memory s) (fst rd, snd rd) (Suc ?k)"
      using room wo n False by (auto simp: in_bounds_def writes_only_length)
    then have st: "store (x_memory s) (fst rd, snd rd + ?k) (ucast ?v) = Ret ?m"
      by (simp add: in_bounds_def store_Ret)
    have "writes_only rd r m ?m"
      using wo writes_only_mono [OF store_writes_only [OF st], of "snd rd" r] n False
      by (auto intro: writes_only_trans)
    moreover have "bytes_at ?m rd (Suc ?k) = map ucast (drop w rxs) @ [ucast ?v]"
      using bytes_at_store_snoc [OF room'] bs by simp
    ultimately have "xfer_at base wr w rd r m t (Suc (length rxs)) (rxs @ [?v]) ?s"
      using at False unfolding xfer_at_def by (simp add: Suc_diff_le)
    moreover have "spi_pull dev base (fst rd) (snd rd + r) status s =
        Ret (if Suc (length rxs) = w + r then Break ?s else Again ?s)"
      using n False ready ptr st by (auto simp: spi_pull_def IORD_def Let_def)
    ultimately show ?thesis by blast
  qed
qed

text \<open>A word that is read when \<open>bytes\<close> have been sent since \<open>t\<close> and the word received for the last
  of them is unread.\<close>

definition read_after :: "device \<Rightarrow> u32 \<Rightarrow> u32 list \<Rightarrow> trace \<Rightarrow> u32 \<Rightarrow> bool" where
  "read_after dev base bytes t v =
     (\<exists>u. bus_writes base u = bus_writes base t @ map (Pair SPI_TXDATA) bytes \<and> spi_unread base u
        \<and> v = dev u (reg_address base SPI_RXDATA))"

lemma xfer_at_read_after:
  assumes at: "xfer_at base wr w rd r m t (Suc (length rxs)) rxs s"
    and all: "Suc (length rxs) = w + r" and room: "in_bounds m wr w"
  shows "read_after dev base (sent_bytes m wr w r) t (dev (x_trace s) (reg_address base SPI_RXDATA))"
proof -
  have "length (sent_bytes m wr w r) = Suc (length rxs)"
    using room all by (simp add: sent_bytes_def)
  then have "bus_writes base (x_trace s) =
      bus_writes base t @ map (Pair SPI_TXDATA) (sent_bytes m wr w r)"
    using at by (simp add: xfer_at_def)
  then show ?thesis
    using xfer_at_unread [OF at] unfolding read_after_def by blast
qed

lemma spi_turn_exact:
  assumes core: "spi_core dev base" and at: "xfer_at base wr w rd r m t n rxs s"
    and todo: "length rxs < w + r" and room: "in_bounds m wr w" "in_bounds m rd r"
  shows "post (spi_turn dev base wr w rd r s)
     (\<lambda>x. case x of
        Again s' \<Rightarrow> \<exists>n' rxs'. xfer_at base wr w rd r m t n' rxs' s' \<and> length rxs' < w + r
                      \<and> n' + length rxs' = Suc (n + length rxs)
      | Break s' \<Rightarrow> \<exists>rxs'. xfer_at base wr w rd r m t (w + r) rxs' s' \<and> length rxs' = w + r
                      \<and> read_after dev base (sent_bytes m wr w r) t (last rxs'))"
  unfolding spi_turn_def
proof (rule post_seq [OF spi_poll_exact [OF core]], clarify)
  fix status t'
  assume line: "same_line base (x_trace s) t'"
    and unread: "rrdy status \<longrightarrow> spi_unread base (x_trace s)"
    and go: "trdy status \<and> x_credits s \<noteq> 0 \<or> rrdy status"
  note at' = xfer_at_line [OF at line]
  show "post (seq (spi_push base (fst wr) (snd wr + w) status (s\<lparr>x_trace := t'\<rparr>))
       (spi_pull dev base (fst rd) (snd rd + r) status))
     (\<lambda>x. case x of
        Again s' \<Rightarrow> \<exists>n' rxs'. xfer_at base wr w rd r m t n' rxs' s' \<and> length rxs' < w + r
                      \<and> n' + length rxs' = Suc (n + length rxs)
      | Break s' \<Rightarrow> \<exists>rxs'. xfer_at base wr w rd r m t (w + r) rxs' s' \<and> length rxs' = w + r
                      \<and> read_after dev base (sent_bytes m wr w r) t (last rxs'))"
  proof (cases "spi_unread base (x_trace s)")
    case True
    then have n: "n = Suc (length rxs)" and "x_credits s = 0"
      using at xfer_at_unread [OF at] by (auto simp: xfer_at_def)
    then have "rrdy status" using go by simp
    from spi_pull_exact [OF at' [unfolded n] room(2) this, of dev] obtain s' v where
      "spi_pull dev base (fst rd) (snd rd + r) status (s\<lparr>x_trace := t'\<rparr>) =
         Ret (if Suc (length rxs) = w + r then Break s' else Again s')"
      and "xfer_at base wr w rd r m t (Suc (length rxs)) (rxs @ [v]) s'"
      and v: "v = dev t' (reg_address base SPI_RXDATA)" by auto
    moreover have "spi_push base (fst wr) (snd wr + w) status (s\<lparr>x_trace := t'\<rparr>) =
        Ret (s\<lparr>x_trace := t'\<rparr>)"
      using \<open>x_credits s = 0\<close> by (simp add: spi_push_def)
    moreover have "length (rxs @ [v]) = Suc (length rxs)" by simp
    moreover have "read_after dev base (sent_bytes m wr w r) t (last (rxs @ [v]))"
      if "Suc (length rxs) = w + r"
      using xfer_at_read_after [OF at' [unfolded n] that room(1), of dev] v by simp
    ultimately show ?thesis
      using todo n by (auto intro!: exI [of _ "rxs @ [v]"] exI [of _ "Suc (length rxs)"])
  next
    case False
    then have ready: "trdy status" "x_credits (s\<lparr>x_trace := t'\<rparr>) \<noteq> 0" "\<not> rrdy status"
      using go unread by auto
    from spi_push_exact [OF at' todo room(1) ready(1,2)] obtain s' where
      "spi_push base (fst wr) (snd wr + w) status (s\<lparr>x_trace := t'\<rparr>) = Ret s'"
      and "xfer_at base wr w rd r m t (Suc n) rxs s'" by blast
    then show ?thesis
      using ready(3) todo
      by (auto simp: spi_pull_def intro!: exI [of _ "Suc n"] exI [of _ rxs])
  qed
qed

text \<open>The register writes of one transaction on the bus, in order.\<close>

definition spi_transaction :: "u32 \<Rightarrow> u32 \<Rightarrow> u32 list \<Rightarrow> (nat \<times> u32) list" where
  "spi_transaction slave flags bytes =
     (SPI_SLAVE_SEL, push_bit (unat slave) 1)
     # (if flags AND ALT_AVALON_SPI_COMMAND_TOGGLE_SS_N = 0
        then [(SPI_CONTROL, SPI_CONTROL_SSO_MSK)] else [])
     @ map (Pair SPI_TXDATA) bytes
     @ (if flags AND ALT_AVALON_SPI_COMMAND_MERGE = 0 then [(SPI_CONTROL, 0)] else [])"

lemma spi_setup_exact:
  "bus_writes base (spi_setup dev base slave flags t) =
     bus_writes base t @ (SPI_SLAVE_SEL, push_bit (unat slave) 1)
       # (if flags AND ALT_AVALON_SPI_COMMAND_TOGGLE_SS_N = 0
          then [(SPI_CONTROL, SPI_CONTROL_SSO_MSK)] else [])"
  "\<exists>stale. bus_reads base SPI_RXDATA (spi_setup dev base slave flags t) =
     bus_reads base SPI_RXDATA t @ [stale]"
  "spi_line base (spi_setup dev base slave flags t) = (False, spi_overruns base t)"
  by (auto simp: spi_setup_def IORD_def IOWR_def Let_def unat_reg_address spi_overruns_def)

lemma spi_release_exact:
  "bus_writes base (spi_release base flags t) =
     bus_writes base t @ (if flags AND ALT_AVALON_SPI_COMMAND_MERGE = 0 then [(SPI_CONTROL, 0)] else [])"
  "bus_reads base SPI_RXDATA (spi_release base flags t) = bus_reads base SPI_RXDATA t"
  "spi_line base (spi_release base flags t) = spi_line base t"
  by (auto simp: spi_release_def IOWR_def unat_reg_address)

text \<open>The last word a transaction reads: it is read when everything has been sent, before the chip
  select is released.\<close>

definition spi_opening :: "u32 \<Rightarrow> u32 \<Rightarrow> u32 list \<Rightarrow> (nat \<times> u32) list" where
  "spi_opening slave flags bytes =
     (SPI_SLAVE_SEL, push_bit (unat slave) 1)
     # (if flags AND ALT_AVALON_SPI_COMMAND_TOGGLE_SS_N = 0
        then [(SPI_CONTROL, SPI_CONTROL_SSO_MSK)] else [])
     @ map (Pair SPI_TXDATA) bytes"

definition spi_last_word :: "device \<Rightarrow> u32 \<Rightarrow> u32 \<Rightarrow> u32 \<Rightarrow> u32 list \<Rightarrow> trace \<Rightarrow> trace \<Rightarrow> bool" where
  "spi_last_word dev base slave flags bytes t t' =
     (\<exists>u. bus_writes base u = bus_writes base t @ spi_opening slave flags bytes \<and> spi_unread base u
        \<and> last (bus_reads base SPI_RXDATA t') = dev u (reg_address base SPI_RXDATA))"

text \<open>What a transaction with \<open>w\<close> bytes to send and \<open>r\<close> to receive leaves.\<close>

definition spi_done ::
    "u32 \<Rightarrow> u32 \<Rightarrow> nat \<Rightarrow> 'r pointer \<Rightarrow> nat \<Rightarrow> 'r pointer \<Rightarrow> u32 \<Rightarrow> 'r memory \<Rightarrow> trace
       \<Rightarrow> nat \<times> 'r memory \<times> trace \<Rightarrow> bool" where
  "spi_done base slave w wr r rd flags m t = (\<lambda>(k, m', t').
     k = r \<and> bus_writes base t' =
       bus_writes base t @ spi_transaction slave flags (sent_bytes m wr w r)
     \<and> spi_overruns base t' = spi_overruns base t
     \<and> (\<exists>stale ignored rxs. length ignored = w \<and> length rxs = r
          \<and> bus_reads base SPI_RXDATA t' = bus_reads base SPI_RXDATA t @ stale # ignored @ rxs
          \<and> bytes_at m' rd r = map ucast rxs))"

lemma alt_avalon_spi_command_done:
  assumes core: "spi_core dev base" and room: "in_bounds m wr w" "in_bounds m rd r"
    and some: "0 < w + r"
  shows "post (alt_avalon_spi_command dev base slave w wr r rd flags (m, t))
           (\<lambda>(k, m', t'). spi_done base slave w wr r rd flags m t (k, m', t')
              \<and> spi_last_word dev base slave flags (sent_bytes m wr w r) t t')"
proof -
  let ?R = "\<lambda>(k, m', t'). spi_done base slave w wr r rd flags m t (k, m', t')
              \<and> spi_last_word dev base slave flags (sent_bytes m wr w r) t t'"
  let ?t = "spi_setup dev base slave flags t"
  let ?Done = "\<lambda>s. \<exists>rxs. xfer_at base wr w rd r m ?t (w + r) rxs s \<and> length rxs = w + r
      \<and> read_after dev base (sent_bytes m wr w r) ?t (last rxs)"
  obtain stale where stale: "bus_reads base SPI_RXDATA ?t = bus_reads base SPI_RXDATA t @ [stale]"
    using spi_setup_exact(2) by blast
  have "post (loop (spi_turn dev base wr w rd r)
          \<lparr>x_write_data = snd wr, x_read_data = snd rd, x_write_zeros = r, x_read_ignore = w,
           x_credits = 1, x_memory = m, x_trace = ?t\<rparr>) ?Done"
  proof (rule loop_post
      [where I = "\<lambda>s. \<exists>n rxs. xfer_at base wr w rd r m ?t n rxs s \<and> length rxs < w + r"])
    show "\<exists>n rxs. xfer_at base wr w rd r m ?t n rxs
        \<lparr>x_write_data = snd wr, x_read_data = snd rd, x_write_zeros = r, x_read_ignore = w,
         x_credits = 1, x_memory = m, x_trace = ?t\<rparr> \<and> length rxs < w + r"
      using some spi_setup_exact(3)
      by (intro exI [of _ 0] exI [of _ "[]"]) (auto simp: xfer_at_def bytes_at_def spi_overruns_def)
    show "post (spi_turn dev base wr w rd r s)
        (\<lambda>x. case x of Again s' \<Rightarrow> \<exists>n rxs. xfer_at base wr w rd r m ?t n rxs s' \<and> length rxs < w + r
           | Break s' \<Rightarrow> ?Done s')"
      if "\<exists>n rxs. xfer_at base wr w rd r m ?t n rxs s \<and> length rxs < w + r" for s
    proof -
      from that obtain n rxs where
        at: "xfer_at base wr w rd r m ?t n rxs s" and "length rxs < w + r" by blast
      then show ?thesis
        by (rule post_mono [OF spi_turn_exact [OF core _ _ room]]) (auto split: turn.splits)
    qed
  qed
  moreover have "post (seq (spi_drain dev base (x_trace s))
        (\<lambda>t. Ret (r, x_memory s, spi_release base flags t))) ?R" if fin: "?Done s" for s
  proof (rule post_seq [OF spi_drain_exact])
    fix t' assume line: "same_line base (x_trace s) t'"
    from fin obtain rxs where at: "xfer_at base wr w rd r m ?t (w + r) rxs s"
      and len: "length rxs = w + r"
      and "read_after dev base (sent_bytes m wr w r) ?t (last rxs)" by blast
    then obtain u where u: "bus_writes base u = bus_writes base ?t @ map (Pair SPI_TXDATA) (sent_bytes m wr w r)"
      "spi_unread base u" and final: "last rxs = dev u (reg_address base SPI_RXDATA)"
      by (auto simp: read_after_def)
    have "length (sent_bytes m wr w r) = w + r"
      using room by (simp add: sent_bytes_def)
    moreover note xfer_at_line [OF at line]
    ultimately have "bus_writes base t' = bus_writes base ?t @ map (Pair SPI_TXDATA) (sent_bytes m wr w r)"
      and rx: "bus_reads base SPI_RXDATA t' = bus_reads base SPI_RXDATA ?t @ rxs"
      and "bytes_at (x_memory s) rd r = map ucast (drop w rxs)"
      and "spi_line base t' = (False, spi_overruns base ?t)"
      using len by (simp_all add: xfer_at_def)
    moreover have "\<exists>stale ignored rxs'. length ignored = w \<and> length rxs' = r
        \<and> bus_reads base SPI_RXDATA t' = bus_reads base SPI_RXDATA t @ stale # ignored @ rxs'
        \<and> map ucast (drop w rxs) = (map ucast rxs' :: u8 list)"
      by (rule exI [of _ stale], rule exI [of _ "take w rxs"], rule exI [of _ "drop w rxs"])
        (use rx stale len in simp)
    ultimately have "spi_done base slave w wr r rd flags m t (r, x_memory s, spi_release base flags t')"
      unfolding spi_done_def spi_transaction_def split_conv
      using spi_setup_exact(1,3) by (simp add: spi_release_exact spi_overruns_def)
    moreover have "last (bus_reads base SPI_RXDATA (spi_release base flags t')) = last rxs"
      using rx len some by (auto simp: spi_release_exact last_append)
    then have "spi_last_word dev base slave flags (sent_bytes m wr w r) t (spi_release base flags t')"
      unfolding spi_last_word_def using u final
      by (intro exI [of _ u]) (simp add: spi_setup_exact(1) spi_opening_def)
    ultimately show "post (Ret (r, x_memory s, spi_release base flags t')) ?R" by simp
  qed
  ultimately show ?thesis
    unfolding alt_avalon_spi_command_def fst_conv snd_conv by (rule post_seq)
qed

lemma alt_avalon_spi_command_exact:
  assumes "spi_core dev base" and "in_bounds m wr w" and "in_bounds m rd r" and "0 < w + r"
  shows "post (alt_avalon_spi_command dev base slave w wr r rd flags (m, t))
           (spi_done base slave w wr r rd flags m t)"
  by (rule post_mono [OF alt_avalon_spi_command_done [OF assms]]) auto

lemma alt_avalon_spi_command_last:
  assumes "spi_core dev base" and "in_bounds m wr w" and "in_bounds m rd r" and "0 < w + r"
  shows "post (alt_avalon_spi_command dev base slave w wr r rd flags (m, t))
           (\<lambda>(k, m', t'). spi_last_word dev base slave flags (sent_bytes m wr w r) t t')"
  by (rule post_mono [OF alt_avalon_spi_command_done [OF assms]]) auto

section \<open>A core that answers in bounded time\<close>

text \<open>The status reads at the end of a trace, with nothing else on any bus in between.\<close>

definition idle_polls :: "u32 \<Rightarrow> trace \<Rightarrow> nat" where
  "idle_polls base t =
     length (takeWhile (\<lambda>e. case e of Rd a v \<Rightarrow> a = reg_address base SPI_STATUS | _ \<Rightarrow> False) (rev t))"

text \<open>
  After \<open>N\<close> status reads in a row the core has shifted the byte it was given: it is empty and
  ready for another, and reports the byte it received while that one is unread.
\<close>

definition spi_live :: "nat \<Rightarrow> device \<Rightarrow> u32 \<Rightarrow> bool" where
  "spi_live N dev base = (\<forall>t. N \<le> idle_polls base t \<longrightarrow>
     (let s = dev t (reg_address base SPI_STATUS) in
        tmt s \<and> trdy s \<and> (spi_unread base t \<longrightarrow> rrdy s)))"

lemma idle_polls_status [simp]:
  "idle_polls base (t @ [Rd (reg_address base SPI_STATUS) v]) = Suc (idle_polls base t)"
  by (simp add: idle_polls_def)

lemma spi_poll_returns:
  assumes live: "spi_live N dev base" and c: "c \<noteq> 0 \<or> spi_unread base t"
  shows "spi_poll dev base c t \<noteq> Hang"
  unfolding spi_poll_def
proof (rule loop_terminates [where I = "same_line base t" and f = "\<lambda>s. N - idle_polls base s"])
  fix s s'
  assume line: "same_line base t s"
    and "(let (status, t') = IORD dev base SPI_STATUS s in
       Ret (if (\<not> trdy status \<or> c = 0) \<and> \<not> rrdy status then Again t' else Break (status, t')))
       = Ret (Again s')"
  then have s': "s' = s @ [Rd (reg_address base SPI_STATUS) (dev s (reg_address base SPI_STATUS))]"
    and more: "\<not> trdy (dev s (reg_address base SPI_STATUS)) \<or> c = 0"
      "\<not> rrdy (dev s (reg_address base SPI_STATUS))"
    by (auto simp: IORD_def Let_def split: if_splits)
  have "spi_unread base s = spi_unread base t"
    using line by (simp add: same_line_def spi_unread_def)
  then have "idle_polls base s < N"
    using live c more by (auto simp: spi_live_def Let_def not_le [symmetric])
  then show "same_line base t s' \<and> N - idle_polls base s' < N - idle_polls base s"
    using line s' by (auto simp: same_line_def)
qed (auto simp: same_line_def Let_def IORD_def)

lemma spi_drain_returns:
  assumes "spi_live N dev base"
  shows "spi_drain dev base t \<noteq> Hang"
  unfolding spi_drain_def
proof (rule loop_terminates [where I = "\<lambda>_. True" and f = "\<lambda>s. N - idle_polls base s"])
  fix s s'
  assume "(let (status, t') = IORD dev base SPI_STATUS s in
       Ret (if \<not> tmt status then Again t' else Break t')) = Ret (Again s')"
  then have "s' = s @ [Rd (reg_address base SPI_STATUS) (dev s (reg_address base SPI_STATUS))]"
    and "\<not> tmt (dev s (reg_address base SPI_STATUS))"
    by (auto simp: IORD_def Let_def split: if_splits)
  then show "True \<and> N - idle_polls base s' < N - idle_polls base s"
    using assms by (auto simp: spi_live_def Let_def not_le [symmetric])
qed (auto simp: Let_def IORD_def)

lemma spi_turn_returns:
  assumes live: "spi_live N dev base" and at: "xfer_at base wr w rd r m t n rxs s"
  shows "spi_turn dev base wr w rd r s \<noteq> Hang"
proof -
  have "x_credits s \<noteq> 0 \<or> spi_unread base (x_trace s)"
    using xfer_at_credits [OF at] xfer_at_unread [OF at] by auto
  moreover have "spi_push base (fst wr) (snd wr + w) status s' \<noteq> Hang" for status s'
    by (simp add: spi_push_def Let_def load_def)
  moreover have "spi_pull dev base (fst rd) (snd rd + r) status s' \<noteq> Hang" for status s'
    by (simp add: spi_pull_def Let_def store_def IORD_def)
  ultimately show ?thesis
    unfolding spi_turn_def
    by (auto simp: seq_eq_Hang spi_poll_returns [OF live])
qed

lemma alt_avalon_spi_command_returns:
  assumes core: "spi_core dev base" and live: "spi_live N dev base"
    and room: "in_bounds m wr w" "in_bounds m rd r" and some: "0 < w + r"
  shows "alt_avalon_spi_command dev base slave w wr r rd flags (m, t) \<noteq> Hang"
proof -
  let ?t = "spi_setup dev base slave flags t"
  let ?at = "\<lambda>n rxs. xfer_at base wr w rd r m ?t n rxs"
  define progress where "progress s = length (bus_writes base (x_trace s))
      + length (bus_reads base SPI_RXDATA (x_trace s))" for s :: "'a xfer"
  define sofar where "sofar = length (bus_writes base ?t) + length (bus_reads base SPI_RXDATA ?t)"
  have progress: "progress s = sofar + n + length rxs" if "?at n rxs s" for n rxs s
    using that room by (auto simp: progress_def sofar_def xfer_at_def sent_bytes_def)
  have "loop (spi_turn dev base wr w rd r)
      \<lparr>x_write_data = snd wr, x_read_data = snd rd, x_write_zeros = r, x_read_ignore = w,
       x_credits = 1, x_memory = m, x_trace = ?t\<rparr> \<noteq> Hang"
  proof (rule loop_terminates [where I = "\<lambda>s. \<exists>n rxs. ?at n rxs s \<and> length rxs < w + r"
      and f = "\<lambda>s. sofar + 2 * (w + r) + 1 - progress s"])
    show "\<exists>n rxs. ?at n rxs \<lparr>x_write_data = snd wr, x_read_data = snd rd, x_write_zeros = r,
         x_read_ignore = w, x_credits = 1, x_memory = m, x_trace = ?t\<rparr> \<and> length rxs < w + r"
      using some spi_setup_exact(3)
      by (intro exI [of _ 0] exI [of _ "[]"]) (auto simp: xfer_at_def bytes_at_def spi_overruns_def)
  next
    fix s s'
    assume "\<exists>n rxs. ?at n rxs s \<and> length rxs < w + r"
      and again: "spi_turn dev base wr w rd r s = Ret (Again s')"
    then obtain n rxs where at: "?at n rxs s" and todo: "length rxs < w + r" by blast
    from post_RetD [OF spi_turn_exact [OF core at todo room] again]
    obtain n' rxs' where at': "?at n' rxs' s'" and "length rxs' < w + r"
      and "n' + length rxs' = Suc (n + length rxs)" by auto
    moreover have "n + length rxs \<le> 2 * (w + r)"
      using at todo by (auto simp: xfer_at_def)
    ultimately show "(\<exists>n rxs. ?at n rxs s' \<and> length rxs < w + r)
        \<and> sofar + 2 * (w + r) + 1 - progress s' < sofar + 2 * (w + r) + 1 - progress s"
      using progress [OF at] progress [OF at'] by auto
  next
    show "spi_turn dev base wr w rd r s \<noteq> Hang"
      if "\<exists>n rxs. ?at n rxs s \<and> length rxs < w + r" for s
      using that spi_turn_returns [OF live] by blast
  qed
  then show ?thesis
    unfolding alt_avalon_spi_command_def fst_conv snd_conv
    by (intro seq_not_Hang spi_drain_returns [OF live]) simp_all
qed

section \<open>The contract of the command handlers\<close>

text \<open>
  \<open>core base\<close> says that the hardware at \<open>base\<close> is the documented core, \<open>live base\<close> that it
  answers in bounded time; the laws marked by neither hold of every device.
\<close>

locale spi_master =
  fixes dev :: device
    and command :: "u32 \<Rightarrow> u32 \<Rightarrow> nat \<Rightarrow> 'r pointer \<Rightarrow> nat \<Rightarrow> 'r pointer \<Rightarrow> u32
      \<Rightarrow> 'r memory \<times> trace \<Rightarrow> (nat \<times> 'r memory \<times> trace) outcome"
    and core :: "u32 \<Rightarrow> bool"
    and live :: "u32 \<Rightarrow> bool"
  assumes frame: "in_bounds m wr w \<Longrightarrow> in_bounds m rd r \<Longrightarrow> 0 < w + r \<Longrightarrow>
      post (command base slave w wr r rd flags (m, t))
        (\<lambda>(n, m', t'). n = r \<and> writes_only rd r m m' \<and> extends (on_bus dev base) t t')"
    and exact: "core base \<Longrightarrow> in_bounds m wr w \<Longrightarrow> in_bounds m rd r \<Longrightarrow> 0 < w + r \<Longrightarrow>
      post (command base slave w wr r rd flags (m, t)) (spi_done base slave w wr r rd flags m t)"
    and last_word: "core base \<Longrightarrow> in_bounds m wr w \<Longrightarrow> in_bounds m rd r \<Longrightarrow> 0 < w + r \<Longrightarrow>
      post (command base slave w wr r rd flags (m, t))
        (\<lambda>(n, m', t'). spi_last_word dev base slave flags (sent_bytes m wr w r) t t')"
    and returns: "core base \<Longrightarrow> live base \<Longrightarrow> in_bounds m wr w \<Longrightarrow> in_bounds m rd r \<Longrightarrow> 0 < w + r \<Longrightarrow>
      command base slave w wr r rd flags (m, t) \<noteq> Hang"
begin

lemma window:
  assumes "in_bounds m wr w" and "in_bounds m rd r" and "0 < w + r"
  shows "post (command base slave w wr r rd flags (m, t))
    (\<lambda>(n, m', t'). n = r \<and> writes_only rd r m m' \<and> extends (at_window base) t t')"
  by (rule post_mono [OF frame [OF assms]]) (auto intro: on_bus_window)

text \<open>A transaction that only sends leaves memory alone and is exactly its writes.\<close>

lemma send_exact:
  assumes "core base" and "in_bounds m wr w" and "in_bounds m rd 0" and "0 < w"
  shows "post (command base slave w wr 0 rd flags (m, t))
     (\<lambda>(n, m', t'). m' = m \<and> extends (at_window base) t t' \<and>
        bus_writes base t' =
          bus_writes base t @ spi_transaction slave flags (map ucast (bytes_at m wr w)))"
  by (rule post_mono [OF post_conj [OF window exact]])
    (use assms in \<open>auto simp: spi_done_def sent_bytes_def dest: writes_only_empty\<close>)

text \<open>A core that is there and answers gives a result.\<close>

lemma completes:
  assumes "core base" and "live base" and "in_bounds m wr w" and "in_bounds m rd r" and "0 < w + r"
  shows "\<exists>n m' t'. command base slave w wr r rd flags (m, t) = Ret (n, m', t')
           \<and> spi_done base slave w wr r rd flags m t (n, m', t')"
  using exact [of base m wr w rd r slave flags t] returns [of base m wr w rd r slave flags t] assms
  by (cases "command base slave w wr r rd flags (m, t)") auto

end

interpretation spi: spi_master dev "alt_avalon_spi_command dev" "spi_core dev" "spi_live N dev" for dev N
  by unfold_locales
    (rule alt_avalon_spi_command_frame alt_avalon_spi_command_exact
        alt_avalon_spi_command_last alt_avalon_spi_command_returns; assumption)+

section \<open>A concrete core\<close>

text \<open>A core whose slave echoes the last byte it was sent, always ready.\<close>

definition last_sent :: "u32 \<Rightarrow> trace \<Rightarrow> u32" where
  "last_sent base t = last (0 # map snd (filter (\<lambda>(reg, v). reg = SPI_TXDATA) (bus_writes base t)))"

definition spi_echo :: "u32 \<Rightarrow> device" where
  "spi_echo base t a =
     (if a = reg_address base SPI_STATUS
      then SPI_STATUS_TMT_MSK OR SPI_STATUS_TRDY_MSK
             OR (if spi_unread base t then SPI_STATUS_RRDY_MSK else 0)
      else if a = reg_address base SPI_RXDATA then last_sent base t else 0)"

lemma spi_echo_core: "spi_core (spi_echo base) base"
  by (simp add: spi_core_def spi_echo_def rrdy_def SPI_STATUS_TMT_MSK_def SPI_STATUS_TRDY_MSK_def
      SPI_STATUS_RRDY_MSK_def)

lemma spi_echo_live: "spi_live N (spi_echo base) base"
  by (auto simp: spi_live_def spi_echo_def Let_def tmt_def trdy_def rrdy_def
      SPI_STATUS_TMT_MSK_def SPI_STATUS_TRDY_MSK_def SPI_STATUS_RRDY_MSK_def)

section \<open>Properties\<close>

text \<open>Property C2. On the documented core, when it answers in bounded time, a transaction returns
  \<open>read_length\<close>; the register writes on its bus are exactly the slave selection, the chip select,
  the bytes of \<open>write_data\<close> followed by one zero per byte to read, and the release of the chip
  select, in this order and with the given flags; no received byte is ever overrun; the words read
  from RXDATA are one stale word, one ignored word per byte written, and then the words whose low
  bytes are stored at \<open>read_data\<close>, in order; nothing else in memory changes.  The two buffers may
  overlap.\<close>

theorem spi_command_transfers:
  assumes "spi_core dev base" and "spi_live N dev base"
    and "in_bounds m wr w" and "in_bounds m rd r" and "0 < w + r"
  shows "\<exists>m' t' stale ignored rxs.
     alt_avalon_spi_command dev base slave w wr r rd flags (m, t) = Ret (r, m', t')
     \<and> bus_writes base t' = bus_writes base t
         @ spi_transaction slave flags (map ucast (bytes_at m wr w) @ replicate r 0)
     \<and> spi_overruns base t' = spi_overruns base t
     \<and> bus_reads base SPI_RXDATA t' = bus_reads base SPI_RXDATA t @ stale # ignored @ rxs
     \<and> length ignored = w \<and> length rxs = r
     \<and> bytes_at m' rd r = map ucast rxs \<and> writes_only rd r m m'"
proof -
  obtain n m' t' where run: "alt_avalon_spi_command dev base slave w wr r rd flags (m, t) = Ret (n, m', t')"
    and "spi_done base slave w wr r rd flags m t (n, m', t')"
    using spi.completes [OF assms] by blast
  moreover have "n = r \<and> writes_only rd r m m'"
    using post_RetD [OF spi.window [OF assms(3-5)] run] by simp
  ultimately show ?thesis
    unfolding spi_done_def sent_bytes_def by auto
qed

definition witness_memory :: "unit \<Rightarrow> u8 list" where
  "witness_memory u = [0x81, 0x02, 0, 0, 0, 0]"

theorem spi_command_transfers_witness:
  "\<exists>m' t' stale ignored rxs.
     alt_avalon_spi_command (spi_echo 0x11040) 0x11040 0 2 ((), 0) 2 ((), 2) 0 (witness_memory, [])
       = Ret (2, m', t')
     \<and> bus_writes 0x11040 t' = bus_writes 0x11040 []
         @ spi_transaction 0 0 (map ucast (bytes_at witness_memory ((), 0) 2) @ replicate 2 0)
     \<and> spi_overruns 0x11040 t' = spi_overruns 0x11040 []
     \<and> bus_reads 0x11040 SPI_RXDATA t' = bus_reads 0x11040 SPI_RXDATA [] @ stale # ignored @ rxs
     \<and> length ignored = 2 \<and> length rxs = 2
     \<and> bytes_at m' ((), 2) 2 = map ucast rxs \<and> writes_only ((), 2) 2 witness_memory m'"
  by (rule spi_command_transfers [OF spi_echo_core spi_echo_live [of 0]])
    (simp_all add: in_bounds_def witness_memory_def)

text \<open>Property C3. Whatever the hardware answers, a transaction with something to do and with both
  buffers inside their regions never accesses memory out of bounds, accesses only the registers of
  its core, and changes no memory but the \<open>read_length\<close> bytes at \<open>read_data\<close>; it returns
  \<open>read_length\<close> or polls for ever.\<close>

theorem spi_command_safe:
  assumes "in_bounds m wr w" and "in_bounds m rd r" and "0 < w + r"
  shows "case alt_avalon_spi_command dev base slave w wr r rd flags (m, t) of
      Ret (n, m', t') \<Rightarrow> n = r \<and> writes_only rd r m m' \<and> extends (at_window base) t t'
    | Undef \<Rightarrow> False
    | Hang \<Rightarrow> True"
  using spi.window [OF assms, of dev base slave flags t]
  by (cases "alt_avalon_spi_command dev base slave w wr r rd flags (m, t)") auto

theorem spi_command_safe_witness:
  "case alt_avalon_spi_command (\<lambda>t a. 0xFFFFFFFF) 0x11040 0 2 ((), 0) 2 ((), 4) 0 (witness_memory, []) of
      Ret (n, m', t') \<Rightarrow> n = 2 \<and> writes_only ((), 4) 2 witness_memory m' \<and> extends (at_window 0x11040) [] t'
    | Undef \<Rightarrow> False
    | Hang \<Rightarrow> True"
  by (rule spi_command_safe) (simp_all add: in_bounds_def witness_memory_def)

end
