(* ===== verification/I2c.thy ===== *)
theory I2c
  imports Hardware
begin

text \<open>
  The polled driver of the OpenCores I2C master, \<open>lms_ctr_app/i2c_opencores.c\<close>.  Each operation
  writes its registers, polls \<open>SR\<close> until the transfer-in-progress bit clears or
  \<open>MAX_RETRIES\<close> polls found it set, and reads the outcome.  The functions are total: the retry
  counter bounds the loop (\<open>i2c_wait\<close>, a recursion whose termination is proved), whatever the
  hardware does.  \<open>retries\<close> is a C \<open>int\<close> between 0 and 1001, modelled as \<open>nat\<close>.

  Lemmas: the register writes and the reads of each operation, the bound on the polls, the exact
  conditions under which each reports a missing acknowledge, and the prescaler computation.  The
  locale \<open>i2c_master\<close> is the contract used by the board code.
\<close>

section \<open>Registers (\<open>i2c_opencores_regs.h\<close>)\<close>

abbreviation (input) I2C_PRERLO :: nat where "I2C_PRERLO \<equiv> 0"
abbreviation (input) I2C_PRERHI :: nat where "I2C_PRERHI \<equiv> 1"
abbreviation (input) I2C_CTR :: nat where "I2C_CTR \<equiv> 2"
abbreviation (input) I2C_TXR :: nat where "I2C_TXR \<equiv> 3"
abbreviation (input) I2C_RXR :: nat where "I2C_RXR \<equiv> 3"
abbreviation (input) I2C_CR :: nat where "I2C_CR \<equiv> 4"
abbreviation (input) I2C_SR :: nat where "I2C_SR \<equiv> 4"

definition I2C_CTR_EN_MSK :: u32 where "I2C_CTR_EN_MSK = 0x80"
definition I2C_CR_STA_MSK :: u32 where "I2C_CR_STA_MSK = 0x80"
definition I2C_CR_STO_MSK :: u32 where "I2C_CR_STO_MSK = 0x40"
definition I2C_CR_RD_MSK :: u32 where "I2C_CR_RD_MSK = 0x20"
definition I2C_CR_WR_MSK :: u32 where "I2C_CR_WR_MSK = 0x10"
definition I2C_CR_NACK_MSK :: u32 where "I2C_CR_NACK_MSK = 0x8"
definition I2C_CR_IACK_MSK :: u32 where "I2C_CR_IACK_MSK = 0x1"
definition I2C_SR_RXNACK_MSK :: u32 where "I2C_SR_RXNACK_MSK = 0x80"
definition I2C_SR_TIP_MSK :: u32 where "I2C_SR_TIP_MSK = 0x2"

definition I2C_ACK :: u32 where "I2C_ACK = 0"
definition I2C_NOACK :: u32 where "I2C_NOACK = 1"

definition MAX_RETRIES :: nat where "MAX_RETRIES = 1000"

section \<open>Operations\<close>

definition i2c_prescale :: "u32 \<Rightarrow> u32 \<Rightarrow> u32" where
  "i2c_prescale clk speed = clk div (5 * speed) - 1"

definition I2C_init :: "u32 \<Rightarrow> u32 \<Rightarrow> u32 \<Rightarrow> trace \<Rightarrow> trace" where
  "I2C_init base clk speed t =
     (let prescale = i2c_prescale clk speed;
          t = IOWR base I2C_CTR 0 t;
          t = IOWR base I2C_CR I2C_CR_IACK_MSK t;
          t = IOWR base I2C_PRERLO (0xff AND prescale) t;
          t = IOWR base I2C_PRERHI (0xff AND drop_bit 8 prescale) t
      in IOWR base I2C_CTR I2C_CTR_EN_MSK t)"

definition tip :: "u32 \<Rightarrow> bool" where "tip s = (s AND I2C_SR_TIP_MSK \<noteq> 0)"
definition rxnack :: "u32 \<Rightarrow> bool" where "rxnack s = (s AND I2C_SR_RXNACK_MSK \<noteq> 0)"

text \<open>\<open>while ((IORD_SR & TIP) && (retries++ < MAX_RETRIES));\<close>\<close>

function i2c_wait :: "device \<Rightarrow> u32 \<Rightarrow> nat \<Rightarrow> trace \<Rightarrow> nat \<times> trace" where
  "i2c_wait dev base retries t =
     (let (sr, t') = IORD dev base I2C_SR t in
      if tip sr then
        (if retries < MAX_RETRIES then i2c_wait dev base (retries + 1) t' else (retries + 1, t'))
      else (retries, t'))"
  by pat_completeness auto
termination
  by (relation "measure (\<lambda>(dev, base, retries, t). MAX_RETRIES - retries)") auto

declare i2c_wait.simps [simp del]

definition I2C_start :: "device \<Rightarrow> u32 \<Rightarrow> u32 \<Rightarrow> u32 \<Rightarrow> trace \<Rightarrow> u32 \<times> trace" where
  "I2C_start dev base add rd t =
     (let t = IOWR base I2C_TXR (push_bit 1 add + (1 AND rd)) t;
          t = IOWR base I2C_CR (I2C_CR_STA_MSK OR I2C_CR_WR_MSK) t;
          (retries, t) = i2c_wait dev base 0 t;
          (sr, t) = IORD dev base I2C_SR t
      in (if rxnack sr \<or> retries \<ge> MAX_RETRIES then I2C_NOACK else I2C_ACK, t))"

definition I2C_read :: "device \<Rightarrow> u32 \<Rightarrow> u32 \<Rightarrow> trace \<Rightarrow> u32 \<times> trace" where
  "I2C_read dev base last_byte t =
     (let t = (if last_byte \<noteq> 0
               then IOWR base I2C_CR (I2C_CR_RD_MSK OR I2C_CR_NACK_MSK OR I2C_CR_STO_MSK) t
               else IOWR base I2C_CR I2C_CR_RD_MSK t);
          (retries, t) = i2c_wait dev base 0 t
      in IORD dev base I2C_RXR t)"

definition I2C_write :: "device \<Rightarrow> u32 \<Rightarrow> u8 \<Rightarrow> u32 \<Rightarrow> trace \<Rightarrow> u32 \<times> trace" where
  "I2C_write dev base data last_byte t =
     (let t = IOWR base I2C_TXR (ucast data) t;
          t = (if last_byte \<noteq> 0 then IOWR base I2C_CR (I2C_CR_WR_MSK OR I2C_CR_STO_MSK) t
               else IOWR base I2C_CR I2C_CR_WR_MSK t);
          (retries, t) = i2c_wait dev base 0 t;
          (sr, t) = IORD dev base I2C_SR t
      in (if rxnack sr then I2C_NOACK else I2C_ACK, t))"

section \<open>The wait loop\<close>

text \<open>The status values the wait loop reads: all but the last with TIP set.\<close>

lemma i2c_wait_polls:
  assumes "i2c_wait dev base k t = (k', t')" and "k \<le> MAX_RETRIES"
  shows "\<exists>srs. t' = t @ map (Rd (reg_address base I2C_SR)) srs \<and> srs \<noteq> []
     \<and> (\<forall>sr \<in> set (butlast srs). tip sr)
     \<and> (if tip (last srs) then k' = MAX_RETRIES + 1 \<and> length srs = MAX_RETRIES + 1 - k
        else k' = k + length srs - 1 \<and> k' \<le> MAX_RETRIES)"
  using assms
proof (induction dev base k t rule: i2c_wait.induct)
  case (1 dev base k t)
  let ?sr = "dev t (reg_address base I2C_SR)"
  let ?t = "t @ [Rd (reg_address base I2C_SR) ?sr]"
  show ?case
  proof (cases "tip ?sr \<and> k < MAX_RETRIES")
    case True
    then have "i2c_wait dev base (k + 1) ?t = (k', t')"
      using 1(2) by (subst (asm) i2c_wait.simps) (simp add: IORD_def Let_def)
    with 1(1) [of _ ?sr ?t] True obtain srs where
      "t' = ?t @ map (Rd (reg_address base I2C_SR)) srs" "srs \<noteq> []"
      "\<forall>sr \<in> set (butlast srs). tip sr"
      "if tip (last srs) then k' = MAX_RETRIES + 1 \<and> length srs = MAX_RETRIES + 1 - (k + 1)
       else k' = (k + 1) + length srs - 1 \<and> k' \<le> MAX_RETRIES"
      by (auto simp: IORD_def Let_def)
    with True show ?thesis
      by (intro exI [of _ "?sr # srs"]) (auto split: if_splits)
  next
    case False
    then show ?thesis
      using 1(2,3) by (subst (asm) i2c_wait.simps)
        (auto simp: IORD_def Let_def split: if_splits intro!: exI [of _ "[?sr]"])
  qed
qed

lemma i2c_wait_extends:
  assumes "k \<le> MAX_RETRIES"
  obtains srs where "snd (i2c_wait dev base k t) = t @ map (Rd (reg_address base I2C_SR)) srs"
    and "srs \<noteq> []" and "length srs \<le> MAX_RETRIES + 1 - k"
proof -
  obtain k' t' where eq: "i2c_wait dev base k t = (k', t')" by fastforce
  from i2c_wait_polls [OF this assms] obtain srs where
    "t' = t @ map (Rd (reg_address base I2C_SR)) srs" "srs \<noteq> []"
    "if tip (last srs) then k' = MAX_RETRIES + 1 \<and> length srs = MAX_RETRIES + 1 - k
     else k' = k + length srs - 1 \<and> k' \<le> MAX_RETRIES" by blast
  with eq that show thesis by (fastforce split: if_splits)
qed

lemma bus_writes_Rd [simp]: "bus_writes base (map (Rd a) vs) = []"
  by (induction vs) auto

lemma bus_reads_Rd [simp]:
  "bus_reads base reg (map (Rd a) vs) = (if a = reg_address base reg then vs else [])"
  by (induction vs) auto

lemma i2c_wait_frame [frame_intros]:
  "extends (at_window base) t s \<Longrightarrow> extends (at_window base) t (snd (i2c_wait dev base 0 s))"
  by (rule i2c_wait_extends [of 0 dev base s]) (auto simp: extends_def)

lemma i2c_wait_writes [simp]:
  "bus_writes base (snd (i2c_wait dev base 0 t)) = bus_writes base t"
  by (rule i2c_wait_extends [of 0 dev base t]) auto

lemma i2c_wait_reads [simp]:
  "bus_reads base I2C_RXR (snd (i2c_wait dev base 0 t)) = bus_reads base I2C_RXR t"
  by (rule i2c_wait_extends [of 0 dev base t]) auto

section \<open>What each operation does on the bus\<close>

lemma I2C_start_bus:
  "extends (at_window base) t (snd (I2C_start dev base add rd t))"
  "bus_writes base (snd (I2C_start dev base add rd t)) =
     bus_writes base t @ [(I2C_TXR, push_bit 1 add + (1 AND rd)), (I2C_CR, 0x90)]"
  "bus_reads base I2C_RXR (snd (I2C_start dev base add rd t)) = bus_reads base I2C_RXR t"
  by (auto simp: I2C_start_def Let_def split_beta I2C_CR_STA_MSK_def I2C_CR_WR_MSK_def
      intro!: frame_intros)

lemma I2C_read_bus:
  "extends (at_window base) t (snd (I2C_read dev base last_byte t))"
  "bus_writes base (snd (I2C_read dev base last_byte t)) =
     bus_writes base t @ [(I2C_CR, if last_byte \<noteq> 0 then 0x68 else 0x20)]"
  "bus_reads base I2C_RXR (snd (I2C_read dev base last_byte t)) =
     bus_reads base I2C_RXR t @ [fst (I2C_read dev base last_byte t)]"
  by (auto simp: I2C_read_def Let_def split_beta I2C_CR_RD_MSK_def I2C_CR_NACK_MSK_def
      I2C_CR_STO_MSK_def intro!: frame_intros)

lemma I2C_write_bus:
  "extends (at_window base) t (snd (I2C_write dev base data last_byte t))"
  "bus_writes base (snd (I2C_write dev base data last_byte t)) =
     bus_writes base t @ [(I2C_TXR, ucast data), (I2C_CR, if last_byte \<noteq> 0 then 0x50 else 0x10)]"
  "bus_reads base I2C_RXR (snd (I2C_write dev base data last_byte t)) = bus_reads base I2C_RXR t"
  by (auto simp: I2C_write_def Let_def split_beta I2C_CR_WR_MSK_def I2C_CR_STO_MSK_def
      intro!: frame_intros)

lemma I2C_init_bus:
  "extends (at_window base) t (I2C_init base clk speed t)"
  "bus_writes base (I2C_init base clk speed t) =
     bus_writes base t @ [(I2C_CTR, 0), (I2C_CR, 1), (I2C_PRERLO, 0xff AND i2c_prescale clk speed),
       (I2C_PRERHI, 0xff AND drop_bit 8 (i2c_prescale clk speed)), (I2C_CTR, 0x80)]"
  "bus_reads base I2C_RXR (I2C_init base clk speed t) = bus_reads base I2C_RXR t"
  by (auto simp: I2C_init_def Let_def I2C_CR_IACK_MSK_def I2C_CTR_EN_MSK_def intro!: frame_intros)

section \<open>The contract of the board code\<close>

locale i2c_master =
  fixes start :: "u32 \<Rightarrow> u32 \<Rightarrow> u32 \<Rightarrow> trace \<Rightarrow> u32 \<times> trace"
    and read :: "u32 \<Rightarrow> u32 \<Rightarrow> trace \<Rightarrow> u32 \<times> trace"
    and put :: "u32 \<Rightarrow> u8 \<Rightarrow> u32 \<Rightarrow> trace \<Rightarrow> u32 \<times> trace"
  assumes start_frame: "extends (at_window base) t (snd (start base add rd t))"
    and start_writes: "bus_writes base (snd (start base add rd t)) =
      bus_writes base t @ [(I2C_TXR, push_bit 1 add + (1 AND rd)), (I2C_CR, 0x90)]"
    and start_reads: "bus_reads base I2C_RXR (snd (start base add rd t)) = bus_reads base I2C_RXR t"
    and read_frame: "extends (at_window base) t (snd (read base last_byte t))"
    and read_writes: "bus_writes base (snd (read base last_byte t)) =
      bus_writes base t @ [(I2C_CR, if last_byte \<noteq> 0 then 0x68 else 0x20)]"
    and read_reads: "bus_reads base I2C_RXR (snd (read base last_byte t)) =
      bus_reads base I2C_RXR t @ [fst (read base last_byte t)]"
    and put_frame: "extends (at_window base) t (snd (put base data last_byte t))"
    and put_writes: "bus_writes base (snd (put base data last_byte t)) =
      bus_writes base t @ [(I2C_TXR, ucast data), (I2C_CR, if last_byte \<noteq> 0 then 0x50 else 0x10)]"
    and put_reads: "bus_reads base I2C_RXR (snd (put base data last_byte t)) =
      bus_reads base I2C_RXR t"
begin

lemmas frames = start_frame read_frame put_frame
lemmas bus = start_writes start_reads read_writes read_reads put_writes put_reads

end

interpretation i2c: i2c_master "I2C_start dev" "I2C_read dev" "I2C_write dev" for dev
  by unfold_locales (simp_all add: I2C_start_bus I2C_read_bus I2C_write_bus)

lemma i2c_wait_stuck:
  assumes "\<And>es. tip (dev (t @ es) (reg_address base I2C_SR))" and "k \<le> MAX_RETRIES"
  shows "\<exists>srs. i2c_wait dev base k t = (MAX_RETRIES + 1, t @ map (Rd (reg_address base I2C_SR)) srs)
     \<and> length srs = MAX_RETRIES + 1 - k \<and> list_all tip srs"
  using assms
proof (induction "MAX_RETRIES - k" arbitrary: k t)
  case 0
  then have "tip (dev t (reg_address base I2C_SR))" using 0(2) [of "[]"] by simp
  with 0 show ?case
    by (subst i2c_wait.simps)
      (auto simp: IORD_def Let_def intro!: exI [of _ "[dev t (reg_address base I2C_SR)]"])
next
  case (Suc n)
  let ?sr = "dev t (reg_address base I2C_SR)"
  let ?t = "t @ [Rd (reg_address base I2C_SR) ?sr]"
  have tip: "tip ?sr" using Suc.prems(1) [of "[]"] by simp
  have later: "tip (dev (?t @ es) (reg_address base I2C_SR))" for es
    using Suc.prems(1) [of "Rd (reg_address base I2C_SR) ?sr # es"] by simp
  have n: "n = MAX_RETRIES - (k + 1)" "k + 1 \<le> MAX_RETRIES" using Suc.hyps(2) by linarith+
  from Suc.hyps(1) [OF n(1) later n(2)] obtain srs where
    "i2c_wait dev base (k + 1) ?t = (MAX_RETRIES + 1, ?t @ map (Rd (reg_address base I2C_SR)) srs)"
    "length srs = MAX_RETRIES + 1 - (k + 1)" "list_all tip srs" by auto
  moreover have "i2c_wait dev base k t = i2c_wait dev base (k + 1) ?t"
    using tip n(2) by (subst i2c_wait.simps) (simp add: IORD_def Let_def)
  ultimately show ?case
    using tip Suc.hyps(2) by (intro exI [of _ "?sr # srs"]) auto
qed

section \<open>Properties\<close>

text \<open>The status values a wait may read: TIP set in all but the last, and in the last too only when
  the retries ran out.\<close>

definition i2c_polls :: "u32 list \<Rightarrow> bool" where
  "i2c_polls srs =
     (srs \<noteq> [] \<and> length srs \<le> MAX_RETRIES + 1 \<and> list_all tip (butlast srs)
      \<and> (tip (last srs) \<longrightarrow> length srs = MAX_RETRIES + 1))"

text \<open>Property C13. The start of a transfer reports an acknowledge exactly when the core finished
  within the first \<open>MAX_RETRIES\<close> polls of its status and the status read after that shows no RXNACK;
  otherwise it reports a missing acknowledge.  The status polls before are at most
  \<open>MAX_RETRIES + 1\<close>, and all but the last of them show the transfer in progress.\<close>

theorem I2C_start_result:
  "\<exists>srs sr. snd (I2C_start dev base add rd t) =
       t @ [Wr (reg_address base I2C_TXR) (push_bit 1 add + (1 AND rd)), Wr (reg_address base I2C_CR) 0x90]
         @ map (Rd (reg_address base I2C_SR)) (srs @ [sr])
     \<and> i2c_polls srs
     \<and> fst (I2C_start dev base add rd t) =
         (if length srs \<le> MAX_RETRIES \<and> \<not> rxnack sr then I2C_ACK else I2C_NOACK)"
proof -
  let ?t = "t @ [Wr (reg_address base I2C_TXR) (push_bit 1 add + (1 AND rd)), Wr (reg_address base I2C_CR) 0x90]"
  obtain k t' where w: "i2c_wait dev base 0 ?t = (k, t')" by fastforce
  from i2c_wait_polls [OF w] obtain srs where srs: "t' = ?t @ map (Rd (reg_address base I2C_SR)) srs"
    "srs \<noteq> []" "\<forall>sr \<in> set (butlast srs). tip sr"
    "if tip (last srs) then k = MAX_RETRIES + 1 \<and> length srs = MAX_RETRIES + 1 - 0
     else k = 0 + length srs - 1 \<and> k \<le> MAX_RETRIES"
    by blast
  have bounds: "length srs \<le> MAX_RETRIES + 1" "tip (last srs) \<longrightarrow> length srs = MAX_RETRIES + 1"
    "k \<ge> MAX_RETRIES \<longleftrightarrow> \<not> length srs \<le> MAX_RETRIES"
    using srs(2,4) by (cases srs; auto split: if_splits)+
  have "I2C_start dev base add rd t =
      (if rxnack (dev t' (reg_address base I2C_SR)) \<or> k \<ge> MAX_RETRIES then I2C_NOACK else I2C_ACK,
       t' @ [Rd (reg_address base I2C_SR) (dev t' (reg_address base I2C_SR))])"
    using w by (simp add: I2C_start_def IOWR_def IORD_def Let_def I2C_CR_STA_MSK_def I2C_CR_WR_MSK_def)
  with srs bounds show ?thesis
    by (intro exI [of _ srs] exI [of _ "dev t' (reg_address base I2C_SR)"]) (auto simp: i2c_polls_def list_all_iff)
qed

text \<open>Property C14. When the core shows a transfer in progress (TIP) in every status from now on, each
  operation gives up after exactly 1001 polls of the status.  \<open>I2C_start\<close> then reports the missing
  acknowledge.  \<open>I2C_write\<close> does not look at the retries: it reports an acknowledge whenever the
  status it reads next has RXNACK clear.  \<open>I2C_read\<close> returns what is in the receive register, with
  nothing to tell that the transfer has not ended.\<close>

theorem I2C_timeout:
  assumes "\<And>es. es \<noteq> [] \<Longrightarrow> tip (dev (t @ es) (reg_address base I2C_SR))"
  shows "(\<exists>srs sr. length srs = MAX_RETRIES + 1 \<and> list_all tip (srs @ [sr])
       \<and> I2C_start dev base add rd t = (I2C_NOACK,
           t @ [Wr (reg_address base I2C_TXR) (push_bit 1 add + (1 AND rd)), Wr (reg_address base I2C_CR) 0x90]
             @ map (Rd (reg_address base I2C_SR)) (srs @ [sr])))
     \<and> (\<exists>srs sr. length srs = MAX_RETRIES + 1 \<and> list_all tip (srs @ [sr])
       \<and> I2C_write dev base data last_byte t = (if rxnack sr then I2C_NOACK else I2C_ACK,
           t @ [Wr (reg_address base I2C_TXR) (ucast data),
                Wr (reg_address base I2C_CR) (if last_byte \<noteq> 0 then 0x50 else 0x10)]
             @ map (Rd (reg_address base I2C_SR)) (srs @ [sr])))
     \<and> (\<exists>srs v. length srs = MAX_RETRIES + 1 \<and> list_all tip srs
       \<and> I2C_read dev base last_byte t = (v,
           t @ [Wr (reg_address base I2C_CR) (if last_byte \<noteq> 0 then 0x68 else 0x20)]
             @ map (Rd (reg_address base I2C_SR)) srs @ [Rd (reg_address base I2C_RXR) v]))"
proof -
  have stuck: "\<exists>srs. i2c_wait dev base 0 (t @ e # es) =
        (MAX_RETRIES + 1, t @ e # es @ map (Rd (reg_address base I2C_SR)) srs)
      \<and> length srs = MAX_RETRIES + 1 \<and> list_all tip srs" for e es
    using i2c_wait_stuck [of dev "t @ e # es" base 0] assms by simp
  have tip: "tip (dev (t @ e # es) (reg_address base I2C_SR))" for e es
    using assms by simp
  let ?c = "Wr (reg_address base I2C_CR)" and ?x = "Wr (reg_address base I2C_TXR)"
  let ?rd = "map (Rd (reg_address base I2C_SR))"
  let ?start = "?x (push_bit 1 add + (1 AND rd))"
  obtain srs where srs: "i2c_wait dev base 0 (t @ [?start, ?c 0x90]) = (MAX_RETRIES + 1, t @ ?start # [?c 0x90] @ ?rd srs)"
    "length srs = MAX_RETRIES + 1" "list_all tip srs"
    using stuck [of ?start "[?c 0x90]"] by auto
  have started: "\<exists>srs sr. length srs = MAX_RETRIES + 1 \<and> list_all tip (srs @ [sr])
      \<and> I2C_start dev base add rd t = (I2C_NOACK, t @ [?start, ?c 0x90] @ ?rd (srs @ [sr]))"
    by (rule exI [of _ srs], rule exI [of _ "dev (t @ ?start # [?c 0x90] @ ?rd srs) (reg_address base I2C_SR)"])
      (use srs tip [of ?start "[?c 0x90] @ ?rd srs"] in
        \<open>simp add: I2C_start_def IORD_def IOWR_def Let_def I2C_CR_STA_MSK_def I2C_CR_WR_MSK_def\<close>)
  let ?wr = "if last_byte \<noteq> 0 then 0x50 else 0x10 :: u32"
  obtain srs' where srs': "i2c_wait dev base 0 (t @ [?x (ucast data), ?c ?wr]) =
      (MAX_RETRIES + 1, t @ ?x (ucast data) # [?c ?wr] @ ?rd srs')"
    "length srs' = MAX_RETRIES + 1" "list_all tip srs'"
    using stuck [of "?x (ucast data)" "[?c ?wr]"] by auto
  have written: "\<exists>srs sr. length srs = MAX_RETRIES + 1 \<and> list_all tip (srs @ [sr])
      \<and> I2C_write dev base data last_byte t =
          (if rxnack sr then I2C_NOACK else I2C_ACK, t @ [?x (ucast data), ?c ?wr] @ ?rd (srs @ [sr]))"
    by (rule exI [of _ srs'],
        rule exI [of _ "dev (t @ ?x (ucast data) # [?c ?wr] @ ?rd srs') (reg_address base I2C_SR)"])
      (use srs' tip [of "?x (ucast data)" "[?c ?wr] @ ?rd srs'"] in
        \<open>simp add: I2C_write_def IORD_def IOWR_def Let_def I2C_CR_STO_MSK_def I2C_CR_WR_MSK_def split: if_splits\<close>)
  let ?rc = "if last_byte \<noteq> 0 then 0x68 else 0x20 :: u32"
  obtain ss where ss: "i2c_wait dev base 0 (t @ [?c ?rc]) = (MAX_RETRIES + 1, t @ ?c ?rc # [] @ ?rd ss)"
    "length ss = MAX_RETRIES + 1" "list_all tip ss"
    using stuck [of "?c ?rc" "[]"] by auto
  have "\<exists>srs v. length srs = MAX_RETRIES + 1 \<and> list_all tip srs
      \<and> I2C_read dev base last_byte t =
          (v, t @ [?c ?rc] @ ?rd srs @ [Rd (reg_address base I2C_RXR) v])"
    by (rule exI [of _ ss], rule exI [of _ "dev (t @ ?c ?rc # ?rd ss) (reg_address base I2C_RXR)"])
      (use ss in \<open>simp add: I2C_read_def IORD_def IOWR_def Let_def I2C_CR_STO_MSK_def I2C_CR_RD_MSK_def
         I2C_CR_NACK_MSK_def split: if_splits\<close>)
  with started written show ?thesis by blast
qed

theorem I2C_timeout_witness:
  "(\<exists>srs sr. length srs = MAX_RETRIES + 1 \<and> list_all tip (srs @ [sr])
       \<and> I2C_start (\<lambda>u a. 0x42) 0x11080 0x48 0 [] = (I2C_NOACK,
           [] @ [Wr (reg_address 0x11080 I2C_TXR) (push_bit 1 0x48 + (1 AND 0)), Wr (reg_address 0x11080 I2C_CR) 0x90]
             @ map (Rd (reg_address 0x11080 I2C_SR)) (srs @ [sr])))
     \<and> (\<exists>srs sr. length srs = MAX_RETRIES + 1 \<and> list_all tip (srs @ [sr])
       \<and> I2C_write (\<lambda>u a. 0x42) 0x11080 1 0 [] = (if rxnack sr then I2C_NOACK else I2C_ACK,
           [] @ [Wr (reg_address 0x11080 I2C_TXR) (ucast (1 :: u8)),
                Wr (reg_address 0x11080 I2C_CR) (if (0 :: u32) \<noteq> 0 then 0x50 else 0x10)]
             @ map (Rd (reg_address 0x11080 I2C_SR)) (srs @ [sr])))
     \<and> (\<exists>srs v. length srs = MAX_RETRIES + 1 \<and> list_all tip srs
       \<and> I2C_read (\<lambda>u a. 0x42) 0x11080 0 [] = (v,
           [] @ [Wr (reg_address 0x11080 I2C_CR) (if (0 :: u32) \<noteq> 0 then 0x68 else 0x20)]
             @ map (Rd (reg_address 0x11080 I2C_SR)) srs @ [Rd (reg_address 0x11080 I2C_RXR) v]))"
  by (rule I2C_timeout) (simp add: tip_def I2C_SR_TIP_MSK_def)

text \<open>Initialisation disables the core before the divider is programmed and enables it
  last; the two prescaler bytes together are the 16 low bits of \<open>clk / (5 * speed) - 1\<close>, and for
  the board's 100 MHz clock and 400 kHz bus they are 49 and 0.\<close>

lemma I2C_init_programs:
  "(\<exists>lo hi. bus_writes base (I2C_init base clk speed t) =
       bus_writes base t @ [(I2C_CTR, 0), (I2C_CR, 1), (I2C_PRERLO, lo), (I2C_PRERHI, hi), (I2C_CTR, 0x80)]
     \<and> push_bit 8 hi OR lo = take_bit 16 (clk div (5 * speed) - 1))
   \<and> bus_writes base (I2C_init base 100000000 400000 t) =
       bus_writes base t @ [(I2C_CTR, 0), (I2C_CR, 1), (I2C_PRERLO, 49), (I2C_PRERHI, 0), (I2C_CTR, 0x80)]"
proof (intro exI conjI)
  show "bus_writes base (I2C_init base clk speed t) =
      bus_writes base t @ [(I2C_CTR, 0), (I2C_CR, 1), (I2C_PRERLO, 0xff AND i2c_prescale clk speed),
        (I2C_PRERHI, 0xff AND drop_bit 8 (i2c_prescale clk speed)), (I2C_CTR, 0x80)]"
    by (rule I2C_init_bus(2))
  have mask8: "(0xff :: u32) = mask 8"
    by (simp add: mask_eq_exp_minus_1)
  show "push_bit 8 (0xff AND drop_bit 8 (i2c_prescale clk speed)) OR (0xff AND i2c_prescale clk speed) =
      take_bit 16 (clk div (5 * speed) - 1)"
    unfolding mask8 i2c_prescale_def by (rule bit_word_eqI) (auto simp: bit_simps)
qed (simp add: I2C_init_bus i2c_prescale_def)

end
