(* ===== verification/Machine.thy ===== *)
theory Machine
  imports Spi I2c
begin

text \<open>
  The state of the control firmware (\<open>lms_ctr_app/main.c\<close>): its buffers and addressable
  variables as memory regions, its other file-scope variables as record fields, and the input/output
  trace.  \<open>Null\<close> is an empty region, so an access through a null pointer is \<open>Undef\<close>.  Local arrays
  of C functions are regions too: what they hold when a function starts is whatever was there.

  \<open>effect W B s s'\<close> is the frame relation in which every operation is first characterised: only
  the bytes in \<open>W\<close> changed, only peripherals with a base address in \<open>B\<close> were accessed, and the regions
  kept their sizes.
\<close>

section \<open>Memory map of the system (\<open>system.h\<close>)\<close>

definition AV_FIFO_INT_0_BASE :: u32 where "AV_FIFO_INT_0_BASE = 0x110c0"
definition I2C_OPENCORES_0_BASE :: u32 where "I2C_OPENCORES_0_BASE = 0x11080"
definition LEDS_BASE :: u32 where "LEDS_BASE = 0x110a0"
definition LMS_CTR_GPIO_BASE :: u32 where "LMS_CTR_GPIO_BASE = 0x11060"
definition SPI_1_ADF_BASE :: u32 where "SPI_1_ADF_BASE = 0x11000"
definition SPI_1_DAC_BASE :: u32 where "SPI_1_DAC_BASE = 0x11020"
definition SPI_LMS_BASE :: u32 where "SPI_LMS_BASE = 0x11040"
definition ALT_CPU_FREQ :: u32 where "ALT_CPU_FREQ = 100000000"

lemmas base_defs = AV_FIFO_INT_0_BASE_def I2C_OPENCORES_0_BASE_def LEDS_BASE_def
  LMS_CTR_GPIO_BASE_def SPI_1_ADF_BASE_def SPI_1_DAC_BASE_def SPI_LMS_BASE_def

definition peripherals :: "u32 set" where
  "peripherals = {AV_FIFO_INT_0_BASE, I2C_OPENCORES_0_BASE, LEDS_BASE, LMS_CTR_GPIO_BASE,
     SPI_1_ADF_BASE, SPI_1_DAC_BASE, SPI_LMS_BASE}"

text \<open>The windows of the peripherals are disjoint.\<close>

lemma peripherals_distance:
  assumes "b \<in> peripherals" and "c \<in> peripherals" and "b \<noteq> c"
  shows "32 \<le> unat (b - c) \<and> unat (b - c) \<le> 4294967264"
  using assms unfolding peripherals_def base_defs by (elim insertE emptyE; simp)

lemma peripherals_apart:
  assumes "b \<in> peripherals" and "c \<in> peripherals" and "b \<noteq> c" and "at_window b e"
  shows "\<not> at_window c e"
  using assms peripherals_distance [of b c] at_window_apart by blast

section \<open>State\<close>

datatype region =
    Rx_buffer | Tx_buffer | Dac_val | Sc_brdg_data | Flash_page_data
  | DAC_data | ADF_data | Location | Status_buf | Status_rd_buf | Erase_location | Erase_rd_buf
  | Null

primrec extent :: "region \<Rightarrow> nat" where
  "extent Rx_buffer = 64"
| "extent Tx_buffer = 64"
| "extent Dac_val = 1"
| "extent Sc_brdg_data = 4"
| "extent Flash_page_data = 256"
| "extent DAC_data = 2"
| "extent ADF_data = 12"
| "extent Location = 4"
| "extent Status_buf = 2"
| "extent Status_rd_buf = 2"
| "extent Erase_location = 4"
| "extent Erase_rd_buf = 2"
| "extent Null = 0"

record machine =
  memory :: "region memory"
  io :: trace
  converted_val :: u16
  last_portion :: u32
  current_portion :: u32
  cmd_errors :: u8
  MCU_retries :: u8
  spiFastRead :: u8

definition well_formed :: "machine \<Rightarrow> bool" where
  "well_formed s = (\<forall>r. length (memory s r) = extent r)"

text \<open>The state before \<open>main\<close>: C initialisers, zero elsewhere.\<close>

definition initial_machine :: machine where
  "initial_machine =
     \<lparr>memory = (\<lambda>r. if r = Dac_val then [125] else replicate (extent r) 0), io = [],
      converted_val = 300, last_portion = 0, current_portion = 0, cmd_errors = 0, MCU_retries = 0,
      spiFastRead = 0\<rparr>"

lemma initial_well_formed: "well_formed initial_machine"
  by (simp add: well_formed_def initial_machine_def)

section \<open>Statements\<close>

type_synonym action = "machine \<Rightarrow> machine outcome"

definition peek :: "region \<times> nat \<Rightarrow> machine \<Rightarrow> u8 outcome" where
  "peek p s = load (memory s) p"

definition poke :: "region \<times> nat \<Rightarrow> u8 \<Rightarrow> action" where
  "poke p v s = seq (store (memory s) p v) (\<lambda>m. Ret (s\<lparr>memory := m\<rparr>))"

definition iowr :: "u32 \<Rightarrow> nat \<Rightarrow> u32 \<Rightarrow> action" where
  "iowr base reg v s = Ret (s\<lparr>io := IOWR base reg v (io s)\<rparr>)"

definition iord :: "device \<Rightarrow> u32 \<Rightarrow> nat \<Rightarrow> machine \<Rightarrow> (u32 \<times> machine) outcome" where
  "iord dev base reg s = (let (v, t) = IORD dev base reg (io s) in Ret (v, s\<lparr>io := t\<rparr>))"

definition delay :: "u32 \<Rightarrow> action" where
  "delay us s = Ret (s\<lparr>io := usleep us (io s)\<rparr>)"

text \<open>\<open>spirez = alt_avalon_spi_command(...)\<close>: the result is never used.\<close>

definition spi_command ::
    "device \<Rightarrow> u32 \<Rightarrow> u32 \<Rightarrow> nat \<Rightarrow> region \<times> nat \<Rightarrow> nat \<Rightarrow> region \<times> nat \<Rightarrow> u32 \<Rightarrow> action" where
  "spi_command dev base slave w wr r rd flags s =
     seq (alt_avalon_spi_command dev base slave w wr r rd flags (memory s, io s)) (\<lambda>(n, m, t).
     Ret (s\<lparr>memory := m, io := t\<rparr>))"

definition i2c_start :: "device \<Rightarrow> u32 \<Rightarrow> u32 \<Rightarrow> action" where
  "i2c_start dev add rd s =
     (let (v, t) = I2C_start dev I2C_OPENCORES_0_BASE add rd (io s) in Ret (s\<lparr>io := t\<rparr>))"

definition i2c_write :: "device \<Rightarrow> u8 \<Rightarrow> u32 \<Rightarrow> action" where
  "i2c_write dev data last_byte s =
     (let (v, t) = I2C_write dev I2C_OPENCORES_0_BASE data last_byte (io s) in Ret (s\<lparr>io := t\<rparr>))"

definition i2c_read :: "device \<Rightarrow> u32 \<Rightarrow> machine \<Rightarrow> (u32 \<times> machine) outcome" where
  "i2c_read dev last_byte s =
     (let (v, t) = I2C_read dev I2C_OPENCORES_0_BASE last_byte (io s) in Ret (v, s\<lparr>io := t\<rparr>))"

text \<open>Straight-line code: statements in order, and assignments to consecutive bytes.\<close>

primrec run :: "action list \<Rightarrow> action" where
  "run [] s = Ret s"
| "run (a # as) s = seq (a s) (run as)"

lemma run_Nil [simp]: "run [] = Ret"
  by (rule ext) simp

lemma run_Cons [run_simps]: "run (a # as) = (\<lambda>s. seq (a s) (run as))"
  by (rule ext) simp

lemma run_one [simp]: "run [a] = a"
  by (rule ext) simp

primrec pokes :: "region \<Rightarrow> nat \<Rightarrow> u8 list \<Rightarrow> action" where
  "pokes r i [] s = Ret s"
| "pokes r i (b # bs) s = seq (poke (r, i) b s) (pokes r (Suc i) bs)"

section \<open>Effects\<close>

definition touches :: "u32 set \<Rightarrow> io_event \<Rightarrow> bool" where
  "touches B e =
     (case e of Rd a v \<Rightarrow> (\<exists>b \<in> B. in_window b a) | Wr a v \<Rightarrow> (\<exists>b \<in> B. in_window b a) | _ \<Rightarrow> True)"

definition effect :: "(region \<times> nat) set \<Rightarrow> u32 set \<Rightarrow> machine \<Rightarrow> machine \<Rightarrow> bool" where
  "effect W B s s' =
     (well_formed s' \<and> (\<forall>r i. (r, i) \<notin> W \<longrightarrow> memory s' r ! i = memory s r ! i)
      \<and> extends (touches B) (io s) (io s'))"

named_theorems effect_rules \<open>the effect of one statement after what ran before it\<close>

lemma at_window_touches: "at_window b e \<Longrightarrow> b \<in> B \<Longrightarrow> touches B e"
  by (cases e) (auto simp: touches_def)

lemma touches_mono: "touches B e \<Longrightarrow> B \<subseteq> B' \<Longrightarrow> touches B' e"
  by (cases e) (auto simp: touches_def)

lemma effect_refl: "well_formed s \<Longrightarrow> effect W B s s"
  by (simp add: effect_def)

lemma effect_trans: "effect W B s s' \<Longrightarrow> effect W B s' s'' \<Longrightarrow> effect W B s s''"
  by (auto simp: effect_def intro: extends_trans)

lemma effect_mono:
  assumes "effect W B s s'" and "W \<subseteq> W'" and "B \<subseteq> B'"
  shows "effect W' B' s s'"
  using assms by (fastforce simp: effect_def intro: extends_weaken touches_mono)

lemma effect_well_formed: "effect W B s s' \<Longrightarrow> well_formed s'"
  by (simp add: effect_def)

lemma effect_memory: "effect W B s s' \<Longrightarrow> (r, i) \<notin> W \<Longrightarrow> memory s' r ! i = memory s r ! i"
  by (simp add: effect_def)

lemma effect_region:
  assumes "effect W B s s'" and "well_formed s" and "\<And>i. (r, i) \<notin> W"
  shows "memory s' r = memory s r"
  using assms by (auto simp: effect_def well_formed_def intro!: nth_equalityI)

lemma effect_bus_writes:
  assumes "effect W B s s'" and "c \<in> peripherals" and "B \<subseteq> peripherals" and "c \<notin> B"
  shows "bus_writes c (io s') = bus_writes c (io s)"
proof (rule extends_bus_writes)
  show "extends (touches B) (io s) (io s')" using assms by (simp add: effect_def)
  show "\<not> at_window c e" if "touches B e" for e
    using that assms peripherals_apart [of _ c e] by (cases e) (fastforce simp: touches_def)+
qed

lemma effect_bus_reads:
  assumes "effect W B s s'" and "c \<in> peripherals" and "B \<subseteq> peripherals" and "c \<notin> B" and "reg < 8"
  shows "bus_reads c reg (io s') = bus_reads c reg (io s)"
proof (rule extends_bus_reads)
  show "extends (touches B) (io s) (io s')" using assms by (simp add: effect_def)
  show "\<not> at_window c e" if "touches B e" for e
    using that assms peripherals_apart [of _ c e] by (cases e) (fastforce simp: touches_def)+
qed (use assms in simp)

lemma well_formed_length [simp]: "well_formed s \<Longrightarrow> length (memory s r) = extent r"
  by (simp add: well_formed_def)

lemma well_formed_update [simp]:
  "well_formed (s\<lparr>io := t\<rparr>) = well_formed s"
  "well_formed (s\<lparr>converted_val := cv\<rparr>) = well_formed s"
  "well_formed (s\<lparr>last_portion := p\<rparr>) = well_formed s"
  "well_formed (s\<lparr>current_portion := p\<rparr>) = well_formed s"
  "well_formed (s\<lparr>cmd_errors := e\<rparr>) = well_formed s"
  "well_formed (s\<lparr>MCU_retries := e\<rparr>) = well_formed s"
  "well_formed (s\<lparr>spiFastRead := e\<rparr>) = well_formed s"
  by (simp_all add: well_formed_def)

lemma effect_update [simp]:
  "effect W B s0 (s\<lparr>converted_val := cv\<rparr>) = effect W B s0 s"
  "effect W B s0 (s\<lparr>last_portion := p\<rparr>) = effect W B s0 s"
  "effect W B s0 (s\<lparr>current_portion := p\<rparr>) = effect W B s0 s"
  "effect W B s0 (s\<lparr>cmd_errors := e\<rparr>) = effect W B s0 s"
  "effect W B s0 (s\<lparr>MCU_retries := e\<rparr>) = effect W B s0 s"
  "effect W B s0 (s\<lparr>spiFastRead := e\<rparr>) = effect W B s0 s"
  by (simp_all add: effect_def)

text \<open>Sequencing, by the kind of value the first part returns.\<close>

lemma seq_effect [effect_rules]:
  "runs L m (effect W B s0) \<Longrightarrow> (\<And>s. effect W B s0 s \<Longrightarrow> runs L (f s) (effect W B s0))
     \<Longrightarrow> runs L (seq m f) (effect W B s0)"
  by (rule runs_seq)

lemma seq_effect_word [effect_rules]:
  fixes m :: "('a word \<times> machine) outcome"
  shows "runs L m (\<lambda>x. effect W B s0 (snd x))
     \<Longrightarrow> (\<And>v s. effect W B s0 s \<Longrightarrow> runs L (f (v, s)) (effect W B s0))
     \<Longrightarrow> runs L (seq m f) (effect W B s0)"
  by (cases m) (auto simp: runs_def)

lemma seq_effect_val [effect_rules]:
  fixes m :: "('a word \<times> machine) outcome"
  shows "runs L m (\<lambda>x. effect W B s0 (snd x))
     \<Longrightarrow> (\<And>v s. effect W B s0 s \<Longrightarrow> runs L (f (v, s)) (\<lambda>x. effect W B s0 (snd x)))
     \<Longrightarrow> runs L (seq m f) (\<lambda>x. effect W B s0 (snd x))"
  by (cases m) (auto simp: runs_def)

lemma seq_effect_to_val [effect_rules]:
  "runs L m (effect W B s0)
     \<Longrightarrow> (\<And>s. effect W B s0 s \<Longrightarrow> runs L (f s) (\<lambda>x. effect W B s0 (snd x)))
     \<Longrightarrow> runs L (seq m f) (\<lambda>x. effect W B s0 (snd x))"
  by (rule runs_seq)

lemma seq_effect_byte [effect_rules]:
  fixes m :: "u8 outcome"
  shows "runs L m (\<lambda>_. True) \<Longrightarrow> (\<And>v. runs L (f v) (effect W B s0)) \<Longrightarrow> runs L (seq m f) (effect W B s0)"
  by (rule runs_seq)

lemma peek_effect [effect_rules]:
  "well_formed s \<Longrightarrow> i < extent r \<Longrightarrow> runs L (peek (r, i) s) (\<lambda>_. True)"
  by (simp add: peek_def load_def)

lemma poke_effect [effect_rules]:
  assumes "effect W B s0 s" and "i < extent r" and "(r, i) \<in> W"
  shows "runs L (poke (r, i) v s) (effect W B s0)"
  using assms
  by (auto simp: poke_def store_def effect_def well_formed_def nth_list_update)

lemma peek_Ret [simp]: "i < length (memory s r) \<Longrightarrow> peek (r, i) s = Ret (memory s r ! i)"
  by (simp add: peek_def load_def)

lemma poke_Ret:
  "i < length (memory s r)
     \<Longrightarrow> poke (r, i) v s = Ret (s\<lparr>memory := (memory s)(r := (memory s r)[i := v])\<rparr>)"
  by (simp add: poke_def store_def)

lemma pokes_effect [effect_rules]:
  assumes "effect W B s0 s" and "i + length bs \<le> extent r" and "{r} \<times> {i..<i + length bs} \<subseteq> W"
  shows "runs L (pokes r i bs s) (effect W B s0)"
  using assms
proof (induction bs arbitrary: i s)
  case (Cons b bs)
  have "(r, i) \<in> W" and "{r} \<times> {Suc i..<Suc i + length bs} \<subseteq> W"
    using Cons.prems(3) by auto
  then show ?case
    using Cons.prems by (auto intro!: seq_effect poke_effect Cons.IH)
qed simp

text \<open>The exact result of assignments to consecutive bytes.\<close>

definition put_bytes :: "region \<Rightarrow> nat \<Rightarrow> u8 list \<Rightarrow> region memory \<Rightarrow> region memory" where
  "put_bytes r i bs m = m(r := take i (m r) @ bs @ drop (i + length bs) (m r))"

lemma pokes_Ret:
  assumes "i + length bs \<le> length (memory s r)"
  shows "pokes r i bs s = Ret (s\<lparr>memory := put_bytes r i bs (memory s)\<rparr>)"
  using assms
proof (induction bs arbitrary: i s)
  case Nil
  then show ?case by (simp add: put_bytes_def)
next
  case (Cons b bs)
  let ?s = "s\<lparr>memory := (memory s)(r := (memory s r)[i := b])\<rparr>"
  have "pokes r (Suc i) bs ?s = Ret (?s\<lparr>memory := put_bytes r (Suc i) bs (memory ?s)\<rparr>)"
    using Cons.prems by (intro Cons.IH) simp
  moreover have "put_bytes r (Suc i) bs (memory ?s) = put_bytes r i (b # bs) (memory s)"
    using Cons.prems by (simp add: put_bytes_def take_Suc_conv_app_nth take_update_cancel)
  ultimately show ?case
    using Cons.prems by (simp add: poke_def store_def)
qed

lemma for_up_pokes:
  assumes "lo + n \<le> length bs"
  shows "for_up (\<lambda>k. poke (r, i + k) (bs ! k)) lo n s = pokes r (i + lo) (take n (drop lo bs)) s"
  using assms
proof (induction n arbitrary: lo s)
  case (Suc n)
  then have "take (Suc n) (drop lo bs) = bs ! lo # take n (drop (Suc lo) bs)"
    by (simp add: Cons_nth_drop_Suc [symmetric])
  with Suc show ?case by (cases "poke (r, i + lo) (bs ! lo) s") simp_all
qed simp

lemma bytes_at_put_bytes [simp]:
  assumes "i + length bs \<le> length (m r)"
  shows "bytes_at (put_bytes r i bs m) (r, i) (length bs) = bs"
  using assms by (simp add: put_bytes_def bytes_at_def)

lemma put_bytes_all [simp]:
  "length bs = length (m r) \<Longrightarrow> put_bytes r 0 bs m = m(r := bs)"
  by (simp add: put_bytes_def)

lemma iowr_effect [effect_rules]:
  "effect W B s0 s \<Longrightarrow> base \<in> B \<Longrightarrow> reg < 8 \<Longrightarrow> runs L (iowr base reg v s) (effect W B s0)"
  by (auto simp: iowr_def IOWR_def effect_def
      intro!: extends_snoc at_window_touches [of base])

lemma iord_effect [effect_rules]:
  "effect W B s0 s \<Longrightarrow> base \<in> B \<Longrightarrow> reg < 8
     \<Longrightarrow> runs L (iord dev base reg s) (\<lambda>x. effect W B s0 (snd x))"
  by (auto simp: iord_def IORD_def Let_def effect_def
      intro!: extends_snoc at_window_touches [of base])

lemma for_up_effect [effect_rules]:
  assumes "effect W B s0 s"
    and "\<And>i s. lo \<le> i \<Longrightarrow> i < lo + n \<Longrightarrow> effect W B s0 s \<Longrightarrow> runs L (body i s) (effect W B s0)"
  shows "runs L (for_up body lo n s) (effect W B s0)"
  using for_up_runs [of "\<lambda>_. effect W B s0" lo s n L body] assms by blast

lemma delay_effect [effect_rules]:
  "effect W B s0 s \<Longrightarrow> runs L (delay us s) (effect W B s0)"
  by (auto simp: delay_def usleep_def effect_def intro!: extends_snoc) (simp add: touches_def)

lemma io_effect:
  assumes "effect W B s0 s" and "extends (at_window base) (io s) t" and "base \<in> B"
  shows "effect W B s0 (s\<lparr>io := t\<rparr>)"
proof -
  have "extends (touches B) (io s) t"
    using assms(2) by (rule extends_weaken) (rule at_window_touches [OF _ assms(3)])
  with assms(1) show ?thesis by (auto simp: effect_def intro: extends_trans)
qed

lemma i2c_effect [effect_rules]:
  assumes "effect W B s0 s" and "I2C_OPENCORES_0_BASE \<in> B"
  shows "runs L (i2c_start dev add rd s) (effect W B s0)"
    and "runs L (i2c_write dev data last_byte s) (effect W B s0)"
    and "runs L (i2c_read dev last_byte s) (\<lambda>x. effect W B s0 (snd x))"
  using io_effect [OF assms(1) i2c.start_frame assms(2)]
    io_effect [OF assms(1) i2c.put_frame assms(2)] io_effect [OF assms(1) i2c.read_frame assms(2)]
  by (auto simp: i2c_start_def i2c_write_def i2c_read_def split_beta)

text \<open>The hardware behind the three SPI masters is the documented core and answers.\<close>

definition spi_bases :: "u32 set" where
  "spi_bases = {SPI_1_ADF_BASE, SPI_1_DAC_BASE, SPI_LMS_BASE}"

definition spi_ok :: "device \<Rightarrow> bool" where
  "spi_ok dev = (\<forall>base \<in> spi_bases. spi_core dev base \<and> (\<exists>N. spi_live N dev base))"

lemma spi_bases_simps [simp]:
  "SPI_1_ADF_BASE \<in> spi_bases" "SPI_1_DAC_BASE \<in> spi_bases" "SPI_LMS_BASE \<in> spi_bases"
  by (simp_all add: spi_bases_def)

lemma spi_command_effect [effect_rules]:
  assumes "effect W B s0 s" and "base \<in> B" and "0 < w + r" and "base \<in> spi_bases"
    and "snd wr + w \<le> extent (fst wr)" and "snd rd + r \<le> extent (fst rd)"
    and "{fst rd} \<times> {snd rd..<snd rd + r} \<subseteq> W"
  shows "runs (spi_ok dev) (spi_command dev base slave w wr r rd flags s) (effect W B s0)"
proof -
  have wf: "well_formed s" using assms(1) by (simp add: effect_def)
  then have room: "in_bounds (memory s) wr w" "in_bounds (memory s) rd r"
    using assms by (simp_all add: in_bounds_def)
  have "runs (spi_ok dev) (alt_avalon_spi_command dev base slave w wr r rd flags (memory s, io s))
      (\<lambda>(n, m', t'). n = r \<and> writes_only rd r (memory s) m' \<and> extends (at_window base) (io s) t')"
    using spi.window [OF room assms(3), of dev base slave flags "io s"]
      spi.returns [OF _ _ room assms(3), of dev base _ slave flags "io s"] assms(4)
    by (auto simp: runs_def spi_ok_def)
  then show ?thesis
    unfolding spi_command_def
  proof (rule runs_seq, clarify)
    fix m' t'
    assume wo: "writes_only rd r (memory s) m'" and ext: "extends (at_window base) (io s) t'"
    have "effect W B s0 (s\<lparr>io := t'\<rparr>)"
      by (rule io_effect [OF assms(1) ext assms(2)])
    moreover have "m' q ! i = memory s q ! i" if "(q, i) \<notin> W" for q i
      using wo subsetD [OF assms(7), of "(q, i)"] that unfolding writes_only_def by blast
    moreover have "length (m' q) = extent q" for q
      using wf wo by (simp add: writes_only_length)
    ultimately have "effect W B s0 (s\<lparr>memory := m', io := t'\<rparr>)"
      by (simp add: effect_def well_formed_def)
    then show "runs (spi_ok dev) (Ret (s\<lparr>memory := m', io := t'\<rparr>)) (effect W B s0)" by simp
  qed
qed

section \<open>SPI transactions of the firmware, exactly\<close>

text \<open>Nothing but the trace changed; nothing but the trace and memory changed.\<close>

definition only_memory :: "machine \<Rightarrow> machine \<Rightarrow> bool" where
  "only_memory s s' =
     (converted_val s' = converted_val s \<and> last_portion s' = last_portion s
      \<and> current_portion s' = current_portion s \<and> cmd_errors s' = cmd_errors s
      \<and> MCU_retries s' = MCU_retries s \<and> spiFastRead s' = spiFastRead s)"

definition only_io :: "machine \<Rightarrow> machine \<Rightarrow> bool" where
  "only_io s s' = (only_memory s s' \<and> memory s' = memory s)"

lemma only_refl [simp]: "only_io s s" "only_memory s s"
  by (simp_all add: only_io_def only_memory_def)

lemma only_update [simp]:
  "only_io s (s'\<lparr>io := t\<rparr>) = only_io s s'"
  "only_memory s (s'\<lparr>io := t\<rparr>) = only_memory s s'"
  "only_memory s (s'\<lparr>memory := m\<rparr>) = only_memory s s'"
  by (simp_all add: only_io_def only_memory_def)

lemma only_io_trans: "only_io s s' \<Longrightarrow> only_io s' s'' \<Longrightarrow> only_io s s''"
  by (simp add: only_io_def only_memory_def)

lemma only_memory_trans: "only_memory s s' \<Longrightarrow> only_memory s' s'' \<Longrightarrow> only_memory s s''"
  by (simp add: only_memory_def)

lemma only_io_memory: "only_io s s' \<Longrightarrow> only_memory s s'"
  by (simp add: only_io_def)

lemma only_io_fields:
  assumes "only_io s s'"
  shows "memory s' = memory s" "well_formed s' = well_formed s"
  using assms by (simp_all add: only_io_def well_formed_def)

definition spi_sends :: "u32 \<Rightarrow> u32 \<Rightarrow> u32 list \<Rightarrow> machine \<Rightarrow> machine \<Rightarrow> bool" where
  "spi_sends base slave bytes s s' =
     (only_io s s' \<and> extends (at_window base) (io s) (io s')
      \<and> bus_writes base (io s') = bus_writes base (io s) @ spi_transaction slave 0 bytes)"

lemma spi_command_sends:
  assumes "spi_core dev base" and "well_formed s" and "snd wr + w \<le> extent (fst wr)" and "0 < w"
    and "snd rd \<le> extent (fst rd)"
  shows "post (spi_command dev base slave w wr 0 rd 0 s)
     (spi_sends base slave (map ucast (bytes_at (memory s) wr w)) s)"
  unfolding spi_command_def
  by (rule post_seq [OF spi.send_exact [OF assms(1)]])
    (use assms in \<open>auto simp: in_bounds_def spi_sends_def\<close>)

text \<open>A transaction that sends \<open>w\<close> bytes and receives \<open>r\<close>.\<close>

definition spi_exchanges ::
    "u32 \<Rightarrow> u32 \<Rightarrow> nat \<Rightarrow> region \<times> nat \<Rightarrow> nat \<Rightarrow> region \<times> nat \<Rightarrow> machine \<Rightarrow> machine \<Rightarrow> bool" where
  "spi_exchanges base slave w wr r rd s s' =
     (only_memory s s' \<and> writes_only rd r (memory s) (memory s')
      \<and> extends (at_window base) (io s) (io s')
      \<and> spi_done base slave w wr r rd 0 (memory s) (io s) (r, memory s', io s'))"

lemma spi_command_exchanges:
  assumes core: "spi_core dev base" and wf: "well_formed s" and some: "0 < w + r"
    and wr: "snd wr + w \<le> extent (fst wr)" and rd: "snd rd + r \<le> extent (fst rd)"
  shows "post (spi_command dev base slave w wr r rd 0 s) (spi_exchanges base slave w wr r rd s)"
proof -
  have room: "in_bounds (memory s) wr w" "in_bounds (memory s) rd r"
    using assms by (simp_all add: in_bounds_def)
  note cmd = spi.window [OF room some, of dev base slave 0 "io s"]
    spi.exact [OF core room some, of slave 0 "io s"]
  show ?thesis
    unfolding spi_command_def
    by (rule post_seq [OF post_conj [OF cmd]]) (auto simp: spi_exchanges_def)
qed

text \<open>The last word read is the hardware's answer once everything was sent.\<close>

lemma spi_command_last:
  assumes core: "spi_core dev base" and wf: "well_formed s" and some: "0 < w + r"
    and wr: "snd wr + w \<le> extent (fst wr)" and rd: "snd rd + r \<le> extent (fst rd)"
  shows "post (spi_command dev base slave w wr r rd flags s)
     (\<lambda>s'. spi_last_word dev base slave flags (sent_bytes (memory s) wr w r) (io s) (io s'))"
proof -
  have room: "in_bounds (memory s) wr w" "in_bounds (memory s) rd r"
    using assms by (simp_all add: in_bounds_def)
  show ?thesis
    unfolding spi_command_def
    by (rule post_seq [OF spi.last_word [OF core room some]]) auto
qed

lemma spi_command_completes:
  assumes "spi_core dev base" and "spi_live N dev base" and "well_formed s" and "0 < w + r"
    and "snd wr + w \<le> extent (fst wr)" and "snd rd + r \<le> extent (fst rd)"
  shows "spi_command dev base slave w wr r rd flags s \<noteq> Hang"
  unfolding spi_command_def
  using spi.returns [OF assms(1,2), of "memory s" wr w rd r slave flags "io s"] assms
  by (auto simp: in_bounds_def seq_eq_Hang)

section \<open>Concrete hardware and states\<close>

text \<open>A board whose three SPI masters have a slave that echoes, and whose other registers read zero.\<close>

definition echo_board :: device where
  "echo_board t a =
     (if in_window SPI_LMS_BASE a then spi_echo SPI_LMS_BASE t a
      else if in_window SPI_1_DAC_BASE a then spi_echo SPI_1_DAC_BASE t a
      else if in_window SPI_1_ADF_BASE a then spi_echo SPI_1_ADF_BASE t a
      else 0)"

lemma echo_board_ok: "spi_ok echo_board"
proof -
  have "echo_board t (reg_address base 2) = spi_echo base t (reg_address base 2)" if "base \<in> spi_bases" for base t
    using that by (auto simp: echo_board_def spi_bases_def base_defs in_window_def reg_address_def)
  then have "spi_core echo_board base" "spi_live 0 echo_board base" if "base \<in> spi_bases" for base
    using that spi_echo_core [of base] spi_echo_live [of 0 base] by (simp_all add: spi_core_def spi_live_def)
  then show ?thesis by (auto simp: spi_ok_def)
qed

text \<open>A state in which the receive buffer holds a header, and data that is zero after the bytes given.\<close>

definition with_packet :: "u8 list \<Rightarrow> u8 list \<Rightarrow> machine" where
  "with_packet header body = initial_machine\<lparr>memory := (memory initial_machine)
     (Rx_buffer := take 8 (header @ replicate 8 0) @ take 56 (body @ replicate 56 0))\<rparr>"

lemma with_packet_well_formed [simp]: "well_formed (with_packet header body)"
  using initial_well_formed by (auto simp: with_packet_def well_formed_def)

end
