(* ===== verification/Protocol.thy ===== *)
theory Protocol
  imports Machine
begin

text \<open>
  The LMS64C control protocol, \<open>LMS64C_protocol.h\<close>: 64-byte packets of an 8-byte header
  (command, status, number of data blocks, peripheral, four reserved bytes) and 56 bytes of data,
  received in \<open>glEp0Buffer_Rx\<close> and answered in \<open>glEp0Buffer_Tx\<close>, and the steps of \<open>main\<close> every
  command shares: reading the packet from the FIFO, preparing the response, the check of the
  number of blocks, and sending the response.
\<close>

section \<open>Constants\<close>

datatype eLMS_DEV =
    LMS_DEV_UNKNOWN | LMS_DEV_EVB6 | LMS_DEV_DIGIGREEN | LMS_DEV_DIGIRED | LMS_DEV_EVB7
  | LMS_DEV_ZIPPER | LMS_DEV_SOCKETBOARD | LMS_DEV_EVB7V2 | LMS_DEV_STREAM | LMS_DEV_NOVENA
  | LMS_DEV_DATASPARK | LMS_DEV_RFSPARK | LMS_DEV_LMS6002USB | LMS_DEV_RFESPARK
  | LMS_DEV_SODERA | LMS_DEV_SODERAPCIE

primrec lms_dev_code :: "eLMS_DEV \<Rightarrow> u8" where
  "lms_dev_code LMS_DEV_UNKNOWN = 0"
| "lms_dev_code LMS_DEV_EVB6 = 1"
| "lms_dev_code LMS_DEV_DIGIGREEN = 2"
| "lms_dev_code LMS_DEV_DIGIRED = 3"
| "lms_dev_code LMS_DEV_EVB7 = 4"
| "lms_dev_code LMS_DEV_ZIPPER = 5"
| "lms_dev_code LMS_DEV_SOCKETBOARD = 6"
| "lms_dev_code LMS_DEV_EVB7V2 = 7"
| "lms_dev_code LMS_DEV_STREAM = 8"
| "lms_dev_code LMS_DEV_NOVENA = 9"
| "lms_dev_code LMS_DEV_DATASPARK = 10"
| "lms_dev_code LMS_DEV_RFSPARK = 11"
| "lms_dev_code LMS_DEV_LMS6002USB = 12"
| "lms_dev_code LMS_DEV_RFESPARK = 13"
| "lms_dev_code LMS_DEV_SODERA = 14"
| "lms_dev_code LMS_DEV_SODERAPCIE = 15"

datatype eEXP_BOARD =
    EXP_BOARD_UNKNOWN | EXP_BOARD_UNSUPPORTED | EXP_BOARD_NO | EXP_BOARD_MYRIAD1
  | EXP_BOARD_MYRIAD2 | EXP_BOARD_MYRIAD_NOVENA | EXP_BOARD_HPM1000 | EXP_BOARD_MYRIAD7
  | EXP_BOARD_HPM7

primrec exp_board_code :: "eEXP_BOARD \<Rightarrow> u8" where
  "exp_board_code EXP_BOARD_UNKNOWN = 0"
| "exp_board_code EXP_BOARD_UNSUPPORTED = 1"
| "exp_board_code EXP_BOARD_NO = 2"
| "exp_board_code EXP_BOARD_MYRIAD1 = 3"
| "exp_board_code EXP_BOARD_MYRIAD2 = 4"
| "exp_board_code EXP_BOARD_MYRIAD_NOVENA = 5"
| "exp_board_code EXP_BOARD_HPM1000 = 6"
| "exp_board_code EXP_BOARD_MYRIAD7 = 7"
| "exp_board_code EXP_BOARD_HPM7 = 8"

definition FW_VER :: u8 where "FW_VER = 5"
definition DEV_TYPE :: u8 where "DEV_TYPE = lms_dev_code LMS_DEV_SODERAPCIE"
definition LMS_PROTOCOL_VER :: u8 where "LMS_PROTOCOL_VER = 1"
definition HW_VER :: u8 where "HW_VER = 1"
definition EXP_BOARD :: u8 where "EXP_BOARD = exp_board_code EXP_BOARD_UNKNOWN"

definition CMD_GET_INFO :: u8 where "CMD_GET_INFO = 0x00"
definition CMD_LMS_RST :: u8 where "CMD_LMS_RST = 0x20"
definition CMD_LMS7002_WR :: u8 where "CMD_LMS7002_WR = 0x21"
definition CMD_LMS7002_RD :: u8 where "CMD_LMS7002_RD = 0x22"
definition CMD_LMS_MCU_FW_WR :: u8 where "CMD_LMS_MCU_FW_WR = 0x2C"
definition CMD_ADF4002_WR :: u8 where "CMD_ADF4002_WR = 0x31"
definition CMD_GPIO_DIR_WR :: u8 where "CMD_GPIO_DIR_WR = 0x4F"
definition CMD_GPIO_DIR_RD :: u8 where "CMD_GPIO_DIR_RD = 0x50"
definition CMD_GPIO_WR :: u8 where "CMD_GPIO_WR = 0x51"
definition CMD_GPIO_RD :: u8 where "CMD_GPIO_RD = 0x52"
definition CMD_BRDSPI16_WR :: u8 where "CMD_BRDSPI16_WR = 0x55"
definition CMD_BRDSPI16_RD :: u8 where "CMD_BRDSPI16_RD = 0x56"
definition CMD_ANALOG_VAL_WR :: u8 where "CMD_ANALOG_VAL_WR = 0x61"
definition CMD_ANALOG_VAL_RD :: u8 where "CMD_ANALOG_VAL_RD = 0x62"

lemmas command_defs = CMD_GET_INFO_def CMD_LMS_RST_def CMD_LMS7002_WR_def CMD_LMS7002_RD_def
  CMD_LMS_MCU_FW_WR_def CMD_ADF4002_WR_def CMD_GPIO_DIR_WR_def CMD_GPIO_DIR_RD_def
  CMD_GPIO_WR_def CMD_GPIO_RD_def CMD_BRDSPI16_WR_def CMD_BRDSPI16_RD_def
  CMD_ANALOG_VAL_WR_def CMD_ANALOG_VAL_RD_def

definition STATUS_COMPLETED_CMD :: u8 where "STATUS_COMPLETED_CMD = 1"
definition STATUS_UNKNOWN_CMD :: u8 where "STATUS_UNKNOWN_CMD = 2"
definition STATUS_BUSY_CMD :: u8 where "STATUS_BUSY_CMD = 3"
definition STATUS_BLOCKS_ERROR_CMD :: u8 where "STATUS_BLOCKS_ERROR_CMD = 4"
definition STATUS_ERROR_CMD :: u8 where "STATUS_ERROR_CMD = 5"
definition STATUS_WRONG_ORDER_CMD :: u8 where "STATUS_WRONG_ORDER_CMD = 6"
definition STATUS_INVALID_PERIPH_ID_CMD :: u8 where "STATUS_INVALID_PERIPH_ID_CMD = 8"

lemmas status_defs = STATUS_COMPLETED_CMD_def STATUS_UNKNOWN_CMD_def STATUS_BUSY_CMD_def
  STATUS_BLOCKS_ERROR_CMD_def STATUS_ERROR_CMD_def STATUS_WRONG_ORDER_CMD_def
  STATUS_INVALID_PERIPH_ID_CMD_def

section \<open>The packet buffers\<close>

abbreviation (input) Command :: nat where "Command \<equiv> 0"
abbreviation (input) Status :: nat where "Status \<equiv> 1"
abbreviation (input) Data_blocks :: nat where "Data_blocks \<equiv> 2"
abbreviation (input) Periph_ID :: nat where "Periph_ID \<equiv> 3"

definition header_size :: nat where "header_size = 8"
definition data_field_size :: nat where "data_field_size = 64 - header_size"

text \<open>\<open>&LMS_Ctrl_Packet_Rx->Data_field[i]\<close> and \<open>&LMS_Ctrl_Packet_Tx->Data_field[i]\<close>.\<close>

definition rx_data :: "nat \<Rightarrow> region \<times> nat" where "rx_data i = (Rx_buffer, header_size + i)"
definition tx_data :: "nat \<Rightarrow> region \<times> nat" where "tx_data i = (Tx_buffer, header_size + i)"

definition set_status :: "u8 \<Rightarrow> action" where
  "set_status v = poke (Tx_buffer, Status) v"

text \<open>\<open>Check_many_blocks\<close>: true, with the error status set, when the blocks do not fit.\<close>

definition Check_many_blocks :: "nat \<Rightarrow> machine \<Rightarrow> (bool \<times> machine) outcome" where
  "Check_many_blocks block_size s =
     seq (peek (Rx_buffer, Data_blocks) s) (\<lambda>n.
     if unat n > data_field_size div block_size
     then seq (set_status STATUS_BLOCKS_ERROR_CMD s) (\<lambda>s. Ret (True, s))
     else Ret (False, s))"

section \<open>The FIFO\<close>

text \<open>The bytes of a little-endian 32-bit word and back, as the Nios II stores them.\<close>

definition word_bytes :: "u32 \<Rightarrow> u8 list" where
  "word_bytes v = map (\<lambda>k. ucast (drop_bit (8 * k) v)) [0, 1, 2, 3]"

definition bytes_word :: "u8 list \<Rightarrow> u32" where
  "bytes_word bs = foldr (\<lambda>b v. ucast b OR push_bit 8 v) bs 0"

definition store_word :: "region \<times> nat \<Rightarrow> u32 \<Rightarrow> action" where
  "store_word p v s =
     for_up (\<lambda>k. poke (fst p, snd p + k) (word_bytes v ! k)) 0 4 s"

definition load_word :: "region \<times> nat \<Rightarrow> machine \<Rightarrow> u32 outcome" where
  "load_word p s =
     (if snd p + 4 \<le> length (memory s (fst p)) then Ret (bytes_word (bytes_at (memory s) p 4))
      else Undef)"

definition getFifoData :: "device \<Rightarrow> region \<Rightarrow> nat \<Rightarrow> action" where
  "getFifoData dev buf k =
     for_up (\<lambda>cnt s. seq (iord dev AV_FIFO_INT_0_BASE 1 s) (\<lambda>(v, s).
       store_word (buf, 4 * cnt) v s)) 0 (k div 4)"

definition send_response :: action where
  "send_response =
     for_up (\<lambda>cnt s. seq (load_word (Tx_buffer, 4 * cnt) s) (\<lambda>v.
       iowr AV_FIFO_INT_0_BASE 0 v s)) 0 (64 div 4)"

definition set_led :: "u8 \<Rightarrow> action" where
  "set_led led_pattern = iowr LEDS_BASE 0 (ucast led_pattern)"

section \<open>Words and bytes\<close>

lemma length_word_bytes [simp]: "length (word_bytes v) = 4"
  by (simp add: word_bytes_def)

lemma bytes_word_word_bytes: "bytes_word (word_bytes v) = v"
proof (rule bit_word_eqI)
  fix n assume "n < LENGTH(32)"
  then consider "n < 8" | "8 \<le> n \<and> n < 16" | "16 \<le> n \<and> n < 24" | "24 \<le> n"
    by linarith
  then show "bit (bytes_word (word_bytes v)) n = bit v n"
    using \<open>n < LENGTH(32)\<close>
    by cases (auto simp: bytes_word_def word_bytes_def bit_simps)
qed

lemma word_bytes_bytes_word: "word_bytes (bytes_word [a, b, c, d]) = [a, b, c, d]"
  by (simp add: word_bytes_def bytes_word_def) 
    (intro conjI bit_word_eqI; auto simp: bit_simps dest: bit_imp_le_length)

lemma length_concat_words [simp]: "length (concat (map word_bytes ws)) = 4 * length ws"
  by (induction ws) auto

lemma word_bytes_bytes_word4: "length bs = 4 \<Longrightarrow> word_bytes (bytes_word bs) = bs"
  using list_of_four [of bs] by (auto simp: word_bytes_bytes_word)

lemma concat_chunks: "concat (map (\<lambda>i. take 4 (drop (4 * i) xs)) [0..<n]) = take (4 * n) xs"
  by (induction n) (simp_all add: take_add [symmetric] add.commute)

lemma store_word_Ret:
  assumes "i + 4 \<le> length (memory s r)"
  shows "store_word (r, i) v s = Ret (s\<lparr>memory := put_bytes r i (word_bytes v) (memory s)\<rparr>)"
proof -
  have "store_word (r, i) v s = pokes r i (word_bytes v) s"
    using for_up_pokes [of 0 4 "word_bytes v" r i s] by (simp add: store_word_def)
  then show ?thesis
    using pokes_Ret [of i "word_bytes v" s r] assms by simp
qed

lemma load_word_Ret:
  "i + 4 \<le> length (memory s r) \<Longrightarrow> load_word (r, i) s = Ret (bytes_word (bytes_at (memory s) (r, i) 4))"
  by (simp add: load_word_def)

end
