(* ===== verification/Board.thy ===== *)
theory Board
  imports Protocol
begin

text \<open>
  The chips on the board that \<open>main.c\<close> drives outside the command switch: the TCXO's DAC (AD5601)
  and phase detector (ADF4002) over SPI, the LM75 temperature sensor and the EEPROM over I2C.

  Lemmas: the exact words each chip is sent (for a core that follows its documentation), the I2C
  sequences, and the arithmetic of the temperature conversion and of the EEPROM address bytes.
\<close>

section \<open>Constants (\<open>sodera_pcie_brd_v1r0.h\<close>, \<open>main.c\<close>)\<close>

definition LM75_I2C_ADDR :: u32 where "LM75_I2C_ADDR = 0x48"
definition EEPROM_I2C_ADDR :: u32 where "EEPROM_I2C_ADDR = 0x50"
definition SPI_NR_LMS7002M :: u32 where "SPI_NR_LMS7002M = 0"
definition SPI_NR_BRD :: u32 where "SPI_NR_BRD = 1"
definition SPI_NR_DAC :: u32 where "SPI_NR_DAC = 0"
definition SPI_NR_ADF4002 :: u32 where "SPI_NR_ADF4002 = 0"
definition DAC_VAL_ADDR :: u16 where "DAC_VAL_ADDR = 0x0010"
definition DAC_DEFF_VAL :: u8 where "DAC_DEFF_VAL = 125"

section \<open>TCXO control\<close>

definition Control_TCXO_DAC :: "device \<Rightarrow> u8 \<Rightarrow> region \<times> nat \<Rightarrow> action" where
  "Control_TCXO_DAC dev oe data s =
     (if oe = 0 then
        run [poke (DAC_data, 0) 0xC0, poke (DAC_data, 1) 0x00,
             spi_command dev SPI_1_DAC_BASE SPI_NR_DAC 2 (DAC_data, 0) 0 (Null, 0) 0] s
      else
        run [\<lambda>s. seq (peek data s) (\<lambda>d. poke (DAC_data, 0) (drop_bit 2 d) s),
             \<lambda>s. seq (peek data s) (\<lambda>d. poke (DAC_data, 1) (push_bit 6 d) s),
             spi_command dev SPI_1_DAC_BASE SPI_NR_DAC 2 (DAC_data, 0) 0 (Null, 0) 0] s)"

definition Control_TCXO_ADF :: "device \<Rightarrow> u8 \<Rightarrow> region \<times> nat \<Rightarrow> action" where
  "Control_TCXO_ADF dev oe data s =
     (if oe = 0 then
        run [pokes ADF_data 0 [0x1f, 0x81, 0xf3, 0x1f, 0x81, 0xf2, 0x00, 0x01, 0xf4, 0x01, 0x80, 0x01],
             for_up (\<lambda>ADF_block. spi_command dev SPI_1_ADF_BASE SPI_NR_ADF4002 3
               (ADF_data, ADF_block * 3) 0 (Null, 0) 0) 0 4] s
      else spi_command dev SPI_1_ADF_BASE SPI_NR_ADF4002 3 data 0 (Null, 0) 0 s)"

section \<open>EEPROM and temperature sensor\<close>

text \<open>
  \<open>(uint8_t) (addr & 0xFF00) >> 8\<close>: the cast binds before the shift.
\<close>

definition addr_lsb :: "u16 \<Rightarrow> u8" where
  "addr_lsb addr = ucast addr AND 0x00FF"

definition addr_msb :: "u16 \<Rightarrow> u8" where
  "addr_msb addr = ucast (drop_bit 8 (ucast (ucast (addr AND 0xFF00) :: u8) :: u32))"

definition rd_dac_val :: "device \<Rightarrow> u16 \<Rightarrow> machine \<Rightarrow> (u16 \<times> machine) outcome" where
  "rd_dac_val dev addr s =
     seq (run [i2c_start dev EEPROM_I2C_ADDR 0, i2c_write dev (addr_msb addr) 0,
               i2c_write dev (addr_lsb addr) 0, i2c_start dev EEPROM_I2C_ADDR 1] s) (\<lambda>s.
     seq (i2c_read dev 0 s) (\<lambda>(eeprom_rd_val_0, s).
     seq (i2c_read dev 1 s) (\<lambda>(eeprom_rd_val_1, s).
     Ret (push_bit 8 (ucast (ucast eeprom_rd_val_1 :: u8)) OR ucast (ucast eeprom_rd_val_0 :: u8), s))))"

definition Configure_LM75 :: "device \<Rightarrow> action" where
  "Configure_LM75 dev =
     run [i2c_start dev LM75_I2C_ADDR 0, i2c_write dev 0x01 0, i2c_write dev 0x04 1,
          i2c_start dev LM75_I2C_ADDR 0, i2c_write dev 0x02 0, i2c_write dev 45 0, i2c_write dev 0 1,
          i2c_start dev LM75_I2C_ADDR 0, i2c_write dev 0x03 0, i2c_write dev 55 0, i2c_write dev 0 1]"

text \<open>\<open>converted_val\<close> from the two bytes of the temperature register, in tenths of a degree.\<close>

definition convert_msb :: "u32 \<Rightarrow> u16" where
  "convert_msb v = 10 * signed_drop_bit 8 (push_bit 8 (ucast v :: u16))"

definition convert_lsb :: "u16 \<Rightarrow> u32 \<Rightarrow> u16" where
  "convert_lsb cv v = (if v AND 0x80 \<noteq> 0 then cv + 5 else cv)"

definition read_temperature :: "device \<Rightarrow> action" where
  "read_temperature dev s =
     seq (run [i2c_start dev LM75_I2C_ADDR 0, i2c_write dev 0x00 1,
               i2c_start dev LM75_I2C_ADDR 1] s) (\<lambda>s.
     seq (i2c_read dev 0 s) (\<lambda>(v, s).
     let s = s\<lparr>converted_val := convert_msb v\<rparr> in
     seq (i2c_read dev 1 s) (\<lambda>(v, s).
     Ret (s\<lparr>converted_val := convert_lsb (converted_val s) v\<rparr>))))"

section \<open>Effects\<close>

lemma dac_effect [effect_rules]:
  assumes "effect W B s0 s" and "SPI_1_DAC_BASE \<in> B" and "{DAC_data} \<times> {0..<2} \<subseteq> W"
    and "oe \<noteq> 0 \<Longrightarrow> i < extent r"
  shows "runs (spi_ok dev) (Control_TCXO_DAC dev oe (r, i) s) (effect W B s0)"
proof -
  have W: "(DAC_data, 0) \<in> W" "(DAC_data, 1) \<in> W"
    using assms(3) by auto
  show ?thesis
    unfolding Control_TCXO_DAC_def run.simps seq_Ret_right
    using assms(1,2,4) W
    by (auto intro!: effect_rules dest: effect_well_formed)
qed

lemma adf_effect [effect_rules]:
  assumes "effect W B s0 s" and "SPI_1_ADF_BASE \<in> B" and "{ADF_data} \<times> {0..<12} \<subseteq> W"
    and "oe \<noteq> 0 \<Longrightarrow> i + 3 \<le> extent r"
  shows "runs (spi_ok dev) (Control_TCXO_ADF dev oe (r, i) s) (effect W B s0)"
  unfolding Control_TCXO_ADF_def run.simps seq_Ret_right
  using assms
  by (auto intro!: effect_rules for_up_effect)

lemma rd_dac_val_effect [effect_rules]:
  assumes "effect W B s0 s" and "I2C_OPENCORES_0_BASE \<in> B"
  shows "runs L (rd_dac_val dev addr s) (\<lambda>x. effect W B s0 (snd x))"
  unfolding rd_dac_val_def run.simps seq_Ret_right
  using assms by (auto intro!: effect_rules)

lemma lm75_effect [effect_rules]:
  assumes "effect W B s0 s" and "I2C_OPENCORES_0_BASE \<in> B"
  shows "runs L (Configure_LM75 dev s) (effect W B s0)"
    and "runs L (read_temperature dev s) (effect W B s0)"
  unfolding Configure_LM75_def read_temperature_def run.simps seq_Ret_right
  using assms by (auto intro!: effect_rules)

section \<open>The I2C sequences, exactly\<close>

text \<open>
  Reading two bytes after a pointer write, as both I2C slaves are read: the same for every
  master that keeps the contract.
\<close>

context i2c_master
begin

lemma read_two:
  "bus_writes base (snd (read base l2 (snd (read base l1 t)))) =
     bus_writes base t @ [(I2C_CR, if l1 \<noteq> 0 then 0x68 else 0x20), (I2C_CR, if l2 \<noteq> 0 then 0x68 else 0x20)]"
  "bus_reads base I2C_RXR (snd (read base l2 (snd (read base l1 t)))) =
     bus_reads base I2C_RXR t @ [fst (read base l1 t), fst (read base l2 (snd (read base l1 t)))]"
  by (simp_all add: bus)

lemma address_slave:
  "bus_writes base (snd (start base add rd t)) =
     bus_writes base t @ [(I2C_TXR, 2 * add + (1 AND rd)), (I2C_CR, 0x90)]"
  by (simp add: bus mult.commute)

end

lemma i2c_run_simps:
  "i2c_start dev add rd s = Ret (s\<lparr>io := snd (I2C_start dev I2C_OPENCORES_0_BASE add rd (io s))\<rparr>)"
  "i2c_write dev data last_byte s =
     Ret (s\<lparr>io := snd (I2C_write dev I2C_OPENCORES_0_BASE data last_byte (io s))\<rparr>)"
  "i2c_read dev last_byte s =
     Ret (fst (I2C_read dev I2C_OPENCORES_0_BASE last_byte (io s)),
          s\<lparr>io := snd (I2C_read dev I2C_OPENCORES_0_BASE last_byte (io s))\<rparr>)"
  by (simp_all add: i2c_start_def i2c_write_def i2c_read_def split_beta)

lemma i2c_extends:
  "extends (at_window base) t u \<Longrightarrow> extends (at_window base) t (snd (I2C_start dev base add rd u))"
  "extends (at_window base) t u \<Longrightarrow> extends (at_window base) t (snd (I2C_write dev base data l u))"
  "extends (at_window base) t u \<Longrightarrow> extends (at_window base) t (snd (I2C_read dev base l u))"
  by (blast intro: extends_trans i2c.frames)+

lemma rd_dac_val_exact:
  "yields (rd_dac_val dev addr s) (\<lambda>(val, s'). only_io s s'
     \<and> extends (at_window I2C_OPENCORES_0_BASE) (io s) (io s')
     \<and> bus_writes I2C_OPENCORES_0_BASE (io s') = bus_writes I2C_OPENCORES_0_BASE (io s)
         @ [(I2C_TXR, 0xA0), (I2C_CR, 0x90), (I2C_TXR, ucast (addr_msb addr)), (I2C_CR, 0x10),
            (I2C_TXR, ucast (addr_lsb addr)), (I2C_CR, 0x10), (I2C_TXR, 0xA1), (I2C_CR, 0x90),
            (I2C_CR, 0x20), (I2C_CR, 0x68)]
     \<and> (\<exists>v0 v1. bus_reads I2C_OPENCORES_0_BASE I2C_RXR (io s') =
           bus_reads I2C_OPENCORES_0_BASE I2C_RXR (io s) @ [v0, v1]
         \<and> val = push_bit 8 (ucast (ucast v1 :: u8)) OR ucast (ucast v0 :: u8)))"
  by (auto simp: rd_dac_val_def i2c_run_simps i2c.address_slave i2c.put_writes i2c.start_reads
      i2c.put_reads i2c.read_two EEPROM_I2C_ADDR_def intro!: i2c_extends)

lemma read_temperature_exact:
  "yields (read_temperature dev s) (\<lambda>s'. only_io (s\<lparr>converted_val := converted_val s'\<rparr>) s'
     \<and> extends (at_window I2C_OPENCORES_0_BASE) (io s) (io s')
     \<and> bus_writes I2C_OPENCORES_0_BASE (io s') = bus_writes I2C_OPENCORES_0_BASE (io s)
         @ [(I2C_TXR, 0x90), (I2C_CR, 0x90), (I2C_TXR, 0), (I2C_CR, 0x50),
            (I2C_TXR, 0x91), (I2C_CR, 0x90), (I2C_CR, 0x20), (I2C_CR, 0x68)]
     \<and> (\<exists>v0 v1. bus_reads I2C_OPENCORES_0_BASE I2C_RXR (io s') =
           bus_reads I2C_OPENCORES_0_BASE I2C_RXR (io s) @ [v0, v1]
         \<and> converted_val s' = convert_lsb (convert_msb v0) v1))"
  by (auto simp: read_temperature_def i2c_run_simps i2c.address_slave i2c.put_writes i2c.start_reads
      i2c.put_reads i2c.read_two LM75_I2C_ADDR_def only_io_def only_memory_def intro!: i2c_extends)

lemma Configure_LM75_exact:
  "yields (Configure_LM75 dev s) (\<lambda>s'. only_io s s'
     \<and> bus_reads I2C_OPENCORES_0_BASE I2C_RXR (io s') = bus_reads I2C_OPENCORES_0_BASE I2C_RXR (io s)
     \<and> extends (at_window I2C_OPENCORES_0_BASE) (io s) (io s')
     \<and> bus_writes I2C_OPENCORES_0_BASE (io s') = bus_writes I2C_OPENCORES_0_BASE (io s)
         @ [(I2C_TXR, 0x90), (I2C_CR, 0x90), (I2C_TXR, 1), (I2C_CR, 0x10), (I2C_TXR, 4), (I2C_CR, 0x50),
            (I2C_TXR, 0x90), (I2C_CR, 0x90), (I2C_TXR, 2), (I2C_CR, 0x10), (I2C_TXR, 45), (I2C_CR, 0x10),
            (I2C_TXR, 0), (I2C_CR, 0x50),
            (I2C_TXR, 0x90), (I2C_CR, 0x90), (I2C_TXR, 3), (I2C_CR, 0x10), (I2C_TXR, 55), (I2C_CR, 0x10),
            (I2C_TXR, 0), (I2C_CR, 0x50)])"
  by (auto simp: Configure_LM75_def i2c_run_simps i2c.address_slave i2c.put_writes i2c.start_reads
      i2c.put_reads LM75_I2C_ADDR_def
      intro!: i2c_extends)

lemma addr_msb_zero: "addr_msb addr = 0"
  by (rule bit_word_eqI) (simp add: addr_msb_def bit_simps)

section \<open>The temperature conversion\<close>

lemma sign_extended_byte:
  "signed_drop_bit 8 (push_bit 8 (ucast v :: u16)) = (scast (ucast (v::u32) :: u8) :: u16)"
proof (rule bit_word_eqI)
  fix n assume "n < LENGTH(16)"
  then show "bit (signed_drop_bit 8 (push_bit 8 (ucast v :: u16))) n = bit (scast (ucast v :: u8) :: u16) n"
    by (cases "n = 7"; cases "n < 7") (auto simp: bit_simps min_def)
qed

lemma sint_u16_of_int: "- 32768 \<le> k \<Longrightarrow> k < 32768 \<Longrightarrow> sint (word_of_int k :: u16) = k"
  by (simp only: sint_sbintrunc') (simp add: signed_take_bit_int_eq_self)

lemma convert_temperature:
  "sint (convert_lsb (convert_msb m) l) = 10 * sint (ucast m :: u8) + (if bit l 7 then 5 else 0)"
proof -
  let ?t = "10 * sint (ucast m :: u8) + (if bit l 7 then 5 else 0)"
  have "(l AND 0x80 \<noteq> 0) = bit l 7"
    by (simp add: bit_iff_and_push_bit_not_eq_0 push_bit_eq_mult)
  then have "convert_lsb (convert_msb m) l = word_of_int ?t"
    by (simp add: convert_lsb_def convert_msb_def sign_extended_byte)
  moreover have "- 32768 \<le> ?t" "?t < 32768"
    using sint_range_size [of "ucast m :: u8"] by (auto simp: word_size)
  ultimately show ?thesis
    by (simp only: sint_u16_of_int)
qed

section \<open>The TCXO chips, exactly\<close>

definition dac_bytes :: "u8 \<Rightarrow> u8 \<Rightarrow> u8 list" where
  "dac_bytes oe d = (if oe = 0 then [0xC0, 0] else [drop_bit 2 d, push_bit 6 d])"

lemma length_dac_bytes [simp]: "length (dac_bytes oe d) = 2"
  by (simp add: dac_bytes_def)

lemma Control_TCXO_DAC_run:
  assumes wf: "well_formed s" and ptr: "oe \<noteq> 0 \<Longrightarrow> i < extent r" and apart: "r \<noteq> DAC_data"
  shows "Control_TCXO_DAC dev oe (r, i) s =
     spi_command dev SPI_1_DAC_BASE SPI_NR_DAC 2 (DAC_data, 0) 0 (Null, 0) 0
       (s\<lparr>memory := (memory s)(DAC_data := dac_bytes oe (memory s r ! i))\<rparr>)"
proof -
  obtain a b where "memory s DAC_data = [a, b]"
    using well_formed_length [OF wf, of DAC_data] by (auto simp: length_Suc_conv numeral_2_eq_2)
  then show ?thesis
    using wf ptr apart by (simp add: Control_TCXO_DAC_def dac_bytes_def poke_Ret)
qed

lemma Control_TCXO_DAC_exact:
  assumes core: "spi_core dev SPI_1_DAC_BASE" and wf: "well_formed s"
    and ptr: "oe \<noteq> 0 \<Longrightarrow> i < extent r" and apart: "r \<noteq> DAC_data"
  shows "post (Control_TCXO_DAC dev oe (r, i) s)
     (\<lambda>s'. only_io (s\<lparr>memory := (memory s)(DAC_data := dac_bytes oe (memory s r ! i))\<rparr>) s'
        \<and> extends (at_window SPI_1_DAC_BASE) (io s) (io s')
        \<and> bus_writes SPI_1_DAC_BASE (io s') = bus_writes SPI_1_DAC_BASE (io s)
            @ spi_transaction 0 0 (map ucast (dac_bytes oe (memory s r ! i))))"
proof -
  let ?s = "s\<lparr>memory := (memory s)(DAC_data := dac_bytes oe (memory s r ! i))\<rparr>"
  have "well_formed ?s"
    using wf by (simp add: well_formed_def)
  then have "post (spi_command dev SPI_1_DAC_BASE SPI_NR_DAC 2 (DAC_data, 0) 0 (Null, 0) 0 ?s)
      (spi_sends SPI_1_DAC_BASE SPI_NR_DAC (map ucast (bytes_at (memory ?s) (DAC_data, 0) 2)) ?s)"
    by (intro spi_command_sends [OF core]) simp_all
  moreover have "Control_TCXO_DAC dev oe (r, i) s =
      spi_command dev SPI_1_DAC_BASE SPI_NR_DAC 2 (DAC_data, 0) 0 (Null, 0) 0 ?s"
    using assms by (intro Control_TCXO_DAC_run)
  ultimately show ?thesis
    by (simp only:) (elim post_mono, simp add: spi_sends_def bytes_at_def SPI_NR_DAC_def)
qed

text \<open>The initialisation words of the ADF4002 that put its charge pump into three-state.\<close>

definition adf_init :: "u8 list" where
  "adf_init = [0x1f, 0x81, 0xf3, 0x1f, 0x81, 0xf2, 0x00, 0x01, 0xf4, 0x01, 0x80, 0x01]"

lemma Control_TCXO_ADF_write_exact:
  assumes "spi_core dev SPI_1_ADF_BASE" and "well_formed s" and "oe \<noteq> 0" and "i + 3 \<le> extent r"
  shows "post (Control_TCXO_ADF dev oe (r, i) s)
     (spi_sends SPI_1_ADF_BASE 0 (map ucast (bytes_at (memory s) (r, i) 3)) s)"
  using assms spi_command_sends [of dev SPI_1_ADF_BASE s "(r, i)" 3 "(Null, 0)" SPI_NR_ADF4002]
  by (simp add: Control_TCXO_ADF_def SPI_NR_ADF4002_def)

text \<open>A loop that sends block after block sends the blocks in order.\<close>

definition spi_sends_all :: "u32 \<Rightarrow> u32 \<Rightarrow> u32 list list \<Rightarrow> machine \<Rightarrow> machine \<Rightarrow> bool" where
  "spi_sends_all base slave blocks s s' =
     (only_io s s' \<and> extends (at_window base) (io s) (io s')
      \<and> bus_writes base (io s') =
          bus_writes base (io s) @ concat (map (spi_transaction slave 0) blocks))"

lemma spi_sends_all_Nil [simp]: "spi_sends_all base slave [] s s"
  by (simp add: spi_sends_all_def)

lemma spi_sends_all_snoc:
  "spi_sends_all base slave bs s s' \<Longrightarrow> spi_sends base slave b s' s''
     \<Longrightarrow> spi_sends_all base slave (bs @ [b]) s s''"
  unfolding spi_sends_all_def spi_sends_def
  by (auto intro: extends_trans only_io_trans)

lemma Control_TCXO_ADF_reset_exact:
  assumes core: "spi_core dev SPI_1_ADF_BASE" and wf: "well_formed s"
  shows "post (Control_TCXO_ADF dev 0 p s)
     (spi_sends_all SPI_1_ADF_BASE 0
        [[0x1f, 0x81, 0xf3], [0x1f, 0x81, 0xf2], [0x00, 0x01, 0xf4], [0x01, 0x80, 0x01]]
        (s\<lparr>memory := (memory s)(ADF_data := adf_init)\<rparr>))"
proof -
  let ?s = "s\<lparr>memory := (memory s)(ADF_data := adf_init)\<rparr>"
  let ?blocks = "\<lambda>n. map (\<lambda>i. map ucast (take 3 (drop (3 * i) adf_init))) [0..<n]"
  have pk: "pokes ADF_data 0 adf_init s = Ret ?s"
    using wf by (subst pokes_Ret) (auto simp: adf_init_def)
  have wf': "well_formed ?s" using wf by (simp add: well_formed_def adf_init_def)
  have "post (for_up (\<lambda>i. spi_command dev SPI_1_ADF_BASE SPI_NR_ADF4002 3 (ADF_data, i * 3) 0 (Null, 0) 0)
      0 4 ?s) (\<lambda>s'. spi_sends_all SPI_1_ADF_BASE 0 (?blocks (0 + 4)) ?s s')"
  proof (rule for_up_post)
    fix i s' assume i: "i < 0 + 4" and sofar: "spi_sends_all SPI_1_ADF_BASE 0 (?blocks i) ?s s'"
    then have only: "only_io ?s s'" by (simp add: spi_sends_all_def)
    then have mem: "memory s' = memory ?s" and "well_formed s'"
      using wf' only_io_fields [OF only] by auto
    then have "post (spi_command dev SPI_1_ADF_BASE SPI_NR_ADF4002 3 (ADF_data, i * 3) 0 (Null, 0) 0 s')
        (spi_sends SPI_1_ADF_BASE SPI_NR_ADF4002 (map ucast (bytes_at (memory s') (ADF_data, i * 3) 3)) s')"
      using i by (intro spi_command_sends [OF core]) auto
    then show "post (spi_command dev SPI_1_ADF_BASE SPI_NR_ADF4002 3 (ADF_data, i * 3) 0 (Null, 0) 0 s')
        (spi_sends_all SPI_1_ADF_BASE 0 (?blocks (Suc i)) ?s)"
      using spi_sends_all_snoc [OF sofar]
      by (elim post_mono) (simp add: mem bytes_at_def SPI_NR_ADF4002_def mult.commute)
  qed (simp add: fun_upd_def)
  then show ?thesis
    using pk by (simp add: Control_TCXO_ADF_def adf_init_def [symmetric])
      (simp add: adf_init_def upt_rec)
qed

lemma addr_lsb_low: "addr_lsb addr = ucast addr"
proof -
  have "(0x00FF :: u8) = - 1" by simp
  then show ?thesis by (simp only: addr_lsb_def and.right_neutral)
qed

section \<open>Properties\<close>

text \<open>Whatever two bytes the LM75 answers, the temperature read is, as a signed 16-bit
  number of tenths of a degree, ten times the first byte as a signed number plus five when the top
  bit of the second is set: five times the 9-bit two's complement reading.  The sensor is addressed,
  its pointer set to 0, and two bytes read with a stop after the second; the SPI masters, FIFO and
  memory are untouched.\<close>

lemma temperature_conversion:
  "case read_temperature dev s of
     Ret s' \<Rightarrow> memory s' = memory s \<and> extends (at_window I2C_OPENCORES_0_BASE) (io s) (io s')
       \<and> bus_writes I2C_OPENCORES_0_BASE (io s') = bus_writes I2C_OPENCORES_0_BASE (io s)
         @ [(I2C_TXR, 0x90), (I2C_CR, 0x90), (I2C_TXR, 0), (I2C_CR, 0x50),
            (I2C_TXR, 0x91), (I2C_CR, 0x90), (I2C_CR, 0x20), (I2C_CR, 0x68)]
       \<and> (\<exists>msb lsb. bus_reads I2C_OPENCORES_0_BASE I2C_RXR (io s') =
             bus_reads I2C_OPENCORES_0_BASE I2C_RXR (io s) @ [msb, lsb]
           \<and> sint (converted_val s') = 5 * (2 * sint (ucast msb :: u8) + of_bool (bit lsb 7)))
   | Undef \<Rightarrow> False | Hang \<Rightarrow> False"
proof -
  obtain s' where s': "read_temperature dev s = Ret s'" using read_temperature_exact [of dev s]
    by (auto simp: yields_Ret)
  with read_temperature_exact [of dev s] obtain v0 v1
    where v: "bus_reads I2C_OPENCORES_0_BASE I2C_RXR (io s') =
        bus_reads I2C_OPENCORES_0_BASE I2C_RXR (io s) @ [v0, v1]"
      and c: "converted_val s' = convert_lsb (convert_msb v0) v1"
    by auto
  have "sint (converted_val s') = 5 * (2 * sint (ucast v0 :: u8) + of_bool (bit v1 7))"
    unfolding c convert_temperature by simp
  with v have "\<exists>msb lsb. bus_reads I2C_OPENCORES_0_BASE I2C_RXR (io s') =
        bus_reads I2C_OPENCORES_0_BASE I2C_RXR (io s) @ [msb, lsb]
      \<and> sint (converted_val s') = 5 * (2 * sint (ucast msb :: u8) + of_bool (bit lsb 7))"
    by blast
  with read_temperature_exact [of dev s] show ?thesis
    unfolding s' by (simp add: only_io_def)
qed

lemma dac_word_value:
  "256 * unat (drop_bit 2 d) + unat (push_bit 6 d) = 64 * unat (d :: u8)"
proof -
  have "unat (push_bit 6 d) = 64 * unat d mod 256"
    by (simp add: push_bit_eq_mult unat_word_ariths mult.commute)
  moreover have "64 * unat d mod 256 = 64 * (unat d mod 4)"
    using mult_mod_right [of 64 "unat d" 4] by simp
  moreover have "unat (drop_bit 2 d) = unat d div 4"
    by (simp add: drop_bit_eq_div unat_div)
  moreover have "4 * (unat d div 4) + unat d mod 4 = unat d" by simp
  ultimately show ?thesis by linarith
qed

text \<open>The AD5601 gets one 16-bit word, most significant byte first: the DAC value shifted
  by six with the power-down bits clear when the output is enabled, and power-down three-state
  (\<open>0xC000\<close>) when it is not; memory changes only in the function's local array.\<close>

lemma dac_word:
  assumes "spi_ok dev" and "well_formed s" and "i < extent r" and "r \<noteq> DAC_data"
  shows "\<exists>s' hi lo. Control_TCXO_DAC dev oe (r, i) s = Ret s'
     \<and> bus_writes SPI_1_DAC_BASE (io s') =
         bus_writes SPI_1_DAC_BASE (io s) @ spi_transaction 0 0 [ucast hi, ucast lo]
     \<and> 256 * unat (hi :: u8) + unat (lo :: u8) = (if oe = 0 then 0xC000 else 64 * unat (memory s r ! i))
     \<and> memory s' = (memory s)(DAC_data := [hi, lo])"
proof -
  let ?d = "memory s r ! i"
  obtain hi lo where two: "dac_bytes oe ?d = [hi, lo]" by (cases "oe = 0") (simp_all add: dac_bytes_def)
  have "runs (spi_ok dev) (Control_TCXO_DAC dev oe (r, i) s) (effect UNIV peripherals s)"
    by (rule dac_effect) (use assms in \<open>auto simp: peripherals_def intro: effect_refl\<close>)
  then obtain s' where s': "Control_TCXO_DAC dev oe (r, i) s = Ret s'"
    using assms(1) runs_yields yields_Ret by metis
  have "spi_core dev SPI_1_DAC_BASE" using assms(1) by (simp add: spi_ok_def)
  from post_RetD [OF Control_TCXO_DAC_exact [OF this assms(2,3,4)] s']
  have "only_io (s\<lparr>memory := (memory s)(DAC_data := [hi, lo])\<rparr>) s'"
    "bus_writes SPI_1_DAC_BASE (io s') = bus_writes SPI_1_DAC_BASE (io s)
       @ spi_transaction 0 0 [ucast hi, ucast lo]"
    by (simp_all add: two)
  moreover have "256 * unat hi + unat lo = (if oe = 0 then 0xC000 else 64 * unat ?d)"
    using two by (auto simp: dac_bytes_def dac_word_value split: if_splits)
  ultimately show ?thesis
    using s' by (intro exI [of _ s'] exI [of _ hi] exI [of _ lo]) (simp add: only_io_def)
qed

lemma dac_word_witness:
  "\<exists>s' hi lo. Control_TCXO_DAC echo_board 1 (Dac_val, 0) (with_packet [] []) = Ret s'
     \<and> bus_writes SPI_1_DAC_BASE (io s') =
         bus_writes SPI_1_DAC_BASE (io (with_packet [] [])) @ spi_transaction 0 0 [ucast hi, ucast lo]
     \<and> 256 * unat (hi :: u8) + unat (lo :: u8) =
         (if (1 :: u8) = 0 then 0xC000 else 64 * unat (memory (with_packet [] []) Dac_val ! 0))
     \<and> memory s' = (memory (with_packet [] []))(DAC_data := [hi, lo])"
  by (rule dac_word [OF echo_board_ok with_packet_well_formed]) simp_all

text \<open>Reading the DAC value from the EEPROM always ends, touches only the I2C core, and takes the
  low byte of the value from the first byte read and the high byte from the second; but the high
  byte of the address that is sent is 0 whatever the address, since the cast binds before the shift.\<close>

lemma eeprom_read:
  "case rd_dac_val dev addr s of
     Ret (val, s') \<Rightarrow> only_io s s' \<and> extends (at_window I2C_OPENCORES_0_BASE) (io s) (io s')
       \<and> bus_writes I2C_OPENCORES_0_BASE (io s') = bus_writes I2C_OPENCORES_0_BASE (io s)
         @ [(I2C_TXR, 0xA0), (I2C_CR, 0x90), (I2C_TXR, 0), (I2C_CR, 0x10),
            (I2C_TXR, ucast (ucast addr :: u8)), (I2C_CR, 0x10), (I2C_TXR, 0xA1), (I2C_CR, 0x90),
            (I2C_CR, 0x20), (I2C_CR, 0x68)]
       \<and> (\<exists>v0 v1. bus_reads I2C_OPENCORES_0_BASE I2C_RXR (io s') =
           bus_reads I2C_OPENCORES_0_BASE I2C_RXR (io s) @ [v0, v1]
         \<and> val = push_bit 8 (ucast (ucast v1 :: u8)) OR ucast (ucast v0 :: u8))
   | Undef \<Rightarrow> False | Hang \<Rightarrow> False"
proof -
  from rd_dac_val_exact [of dev addr s] obtain val s' where "rd_dac_val dev addr s = Ret (val, s')"
    by (auto simp: yields_Ret)
  with rd_dac_val_exact [of dev addr s] show ?thesis
    by (simp add: addr_msb_zero addr_lsb_low)
qed

end
