(* ===== verification/Commands.thy ===== *)
theory Commands
  imports Board
begin

text \<open>
  The cases of the command switch of \<open>main\<close> (\<open>lms_ctr_app/main.c\<close>), each as the action it performs on
  the firmware's state; the firmware download of the LMS7002M's microcontroller is in theory Mcu.

  A block loop \<open>for (block = 0; block < Data_blocks; block++)\<close> reads its bound once: no body
  writes the receive header (lemma \<open>effect_memory\<close> with the frames below).  An early \<open>break\<close>
  out of the switch is an \<open>if\<close> around the rest of the case.
\<close>

section \<open>Shared statements\<close>

definition sbi :: "region \<times> nat \<Rightarrow> nat \<Rightarrow> action" where
  "sbi p n s = seq (peek p s) (\<lambda>v. poke p (v OR push_bit n 1) s)"

definition cbi :: "region \<times> nat \<Rightarrow> nat \<Rightarrow> action" where
  "cbi p n s = seq (peek p s) (\<lambda>v. poke p (v AND NOT (push_bit n 1)) s)"

definition for_blocks :: "(nat \<Rightarrow> action) \<Rightarrow> action" where
  "for_blocks body s = seq (peek (Rx_buffer, Data_blocks) s) (\<lambda>n. for_up body 0 (unat n) s)"

definition count_error :: action where
  "count_error s = Ret (s\<lparr>cmd_errors := cmd_errors s + 1\<rparr>)"

section \<open>The cases\<close>

definition cmd_GET_INFO :: action where
  "cmd_GET_INFO =
     run [poke (tx_data 0) FW_VER, poke (tx_data 1) DEV_TYPE, poke (tx_data 2) LMS_PROTOCOL_VER,
          poke (tx_data 3) HW_VER, poke (tx_data 4) EXP_BOARD, set_status STATUS_COMPLETED_CMD]"

definition cmd_LMS_RST :: action where
  "cmd_LMS_RST s =
     seq (peek (rx_data 0) s) (\<lambda>v.
     seq (if v = 0 then iowr LMS_CTR_GPIO_BASE 0 0x07 s
          else if v = 1 then iowr LMS_CTR_GPIO_BASE 0 0x06 s
          else if v = 2 then
            run [iowr LMS_CTR_GPIO_BASE 0 0x06, \<lambda>s. Ret (s\<lparr>io := nops 10 (io s)\<rparr>),
                 iowr LMS_CTR_GPIO_BASE 0 0x07] s
          else count_error s)
     (set_status STATUS_COMPLETED_CMD))"

definition cmd_LMS7002_WR :: "device \<Rightarrow> action" where
  "cmd_LMS7002_WR dev s =
     seq (Check_many_blocks 4 s) (\<lambda>(too_many, s).
     if too_many then Ret s
     else run [for_blocks (\<lambda>block. run [
                 sbi (rx_data (0 + block * 4)) 7,
                 spi_command dev SPI_LMS_BASE SPI_NR_LMS7002M 4 (rx_data (0 + block * 4)) 0 (Null, 0) 0]),
               set_status STATUS_COMPLETED_CMD] s)"

definition cmd_LMS7002_RD :: "device \<Rightarrow> action" where
  "cmd_LMS7002_RD dev s =
     seq (Check_many_blocks 4 s) (\<lambda>(too_many, s).
     if too_many then Ret s
     else run [for_blocks (\<lambda>block. run [
                 cbi (rx_data (0 + block * 2)) 7,
                 spi_command dev SPI_LMS_BASE SPI_NR_LMS7002M 2 (rx_data (0 + block * 2))
                   2 (tx_data (2 + block * 4)) 0]),
               set_status STATUS_COMPLETED_CMD] s)"

definition cmd_BRDSPI16_WR :: "device \<Rightarrow> action" where
  "cmd_BRDSPI16_WR dev s =
     seq (Check_many_blocks 4 s) (\<lambda>(too_many, s).
     if too_many then Ret s
     else run [for_blocks (\<lambda>block. run [
                 sbi (rx_data (0 + block * 4)) 7,
                 spi_command dev SPI_LMS_BASE SPI_NR_BRD 4 (rx_data (0 + block * 4)) 0 (Null, 0) 0]),
               set_status STATUS_COMPLETED_CMD] s)"

definition cmd_BRDSPI16_RD :: "device \<Rightarrow> action" where
  "cmd_BRDSPI16_RD dev s =
     seq (Check_many_blocks 4 s) (\<lambda>(too_many, s).
     if too_many then Ret s
     else run [for_blocks (\<lambda>block. run [
                 cbi (rx_data (0 + block * 2)) 7,
                 spi_command dev SPI_LMS_BASE SPI_NR_BRD 2 (rx_data (0 + block * 2))
                   2 (tx_data (2 + block * 4)) 0]),
               set_status STATUS_COMPLETED_CMD] s)"

definition cmd_ADF4002_WR :: "device \<Rightarrow> action" where
  "cmd_ADF4002_WR dev s =
     seq (Check_many_blocks 3 s) (\<lambda>(too_many, s).
     if too_many then Ret s
     else run [Control_TCXO_DAC dev 0 (Null, 0),
               for_blocks (\<lambda>block. Control_TCXO_ADF dev 1 (rx_data (0 + block * 3))),
               \<lambda>s. set_status (if cmd_errors s \<noteq> 0 then STATUS_INVALID_PERIPH_ID_CMD
                               else STATUS_COMPLETED_CMD) s] s)"

text \<open>One channel of \<open>CMD_ANALOG_VAL_RD\<close>: the DAC value, or the temperature.\<close>

definition analog_read_block :: "device \<Rightarrow> nat \<Rightarrow> action" where
  "analog_read_block dev block s =
     seq (peek (rx_data (0 + block)) s) (\<lambda>ch.
     if ch = 0 then
       run [poke (tx_data (0 + block * 4)) ch, poke (tx_data (1 + block * 4)) 0x00,
            poke (tx_data (2 + block * 4)) 0,
            \<lambda>s. seq (peek (Dac_val, 0) s) (\<lambda>v. poke (tx_data (3 + block * 4)) v s)] s
     else if ch = 1 then
       run [read_temperature dev,
            poke (tx_data (0 + block * 4)) ch, poke (tx_data (1 + block * 4)) 0x50,
            \<lambda>s. poke (tx_data (2 + block * 4)) (ucast (drop_bit 8 (converted_val s))) s,
            \<lambda>s. poke (tx_data (3 + block * 4)) (ucast (converted_val s)) s] s
     else count_error s)"

definition cmd_ANALOG_VAL_RD :: "device \<Rightarrow> action" where
  "cmd_ANALOG_VAL_RD dev =
     run [for_blocks (analog_read_block dev), set_status STATUS_COMPLETED_CMD]"

definition analog_write_block :: "device \<Rightarrow> nat \<Rightarrow> action" where
  "analog_write_block dev block s =
     seq (peek (rx_data (0 + block * 4)) s) (\<lambda>ch.
     if ch = 0 then
       seq (peek (rx_data (1 + block * 4)) s) (\<lambda>units.
       if units = 0 then
         seq (peek (rx_data (2 + block * 4)) s) (\<lambda>msb.
         if msb = 0 then
           run [Control_TCXO_ADF dev 0 (Null, 0),
                \<lambda>s. seq (peek (rx_data (3 + block * 4)) s) (\<lambda>v. poke (Dac_val, 0) v s),
                Control_TCXO_DAC dev 1 (Dac_val, 0)] s
         else count_error s)
       else count_error s)
     else count_error s)"

definition cmd_ANALOG_VAL_WR :: "device \<Rightarrow> action" where
  "cmd_ANALOG_VAL_WR dev s =
     seq (Check_many_blocks 4 s) (\<lambda>(too_many, s).
     if too_many then Ret s
     else run [for_blocks (analog_write_block dev),
               \<lambda>s. set_status (if cmd_errors s \<noteq> 0 then STATUS_ERROR_CMD
                               else STATUS_COMPLETED_CMD) s] s)"

text \<open>The GPIO registers of the board SPI: the two data bytes travel most significant first.\<close>

definition gpio_write :: "device \<Rightarrow> u8 \<Rightarrow> action" where
  "gpio_write dev reg =
     run [poke (Sc_brdg_data, 0) 0x80, poke (Sc_brdg_data, 1) reg,
          \<lambda>s. seq (peek (rx_data 1) s) (\<lambda>v. poke (Sc_brdg_data, 2) v s),
          \<lambda>s. seq (peek (rx_data 0) s) (\<lambda>v. poke (Sc_brdg_data, 3) v s),
          spi_command dev SPI_LMS_BASE SPI_NR_BRD 4 (Sc_brdg_data, 0) 0 (Null, 0) 0,
          set_status STATUS_COMPLETED_CMD]"

definition gpio_read :: "device \<Rightarrow> u8 \<Rightarrow> action" where
  "gpio_read dev reg =
     run [poke (Sc_brdg_data, 0) 0x00, poke (Sc_brdg_data, 1) reg,
          spi_command dev SPI_LMS_BASE SPI_NR_BRD 2 (Sc_brdg_data, 0) 2 (Sc_brdg_data, 2) 0,
          \<lambda>s. seq (peek (Sc_brdg_data, 3) s) (\<lambda>v. poke (tx_data 0) v s),
          \<lambda>s. seq (peek (Sc_brdg_data, 2) s) (\<lambda>v. poke (tx_data 1) v s),
          set_status STATUS_COMPLETED_CMD]"

definition cmd_GPIO_DIR_WR :: "device \<Rightarrow> action" where "cmd_GPIO_DIR_WR dev = gpio_write dev 0xC4"
definition cmd_GPIO_DIR_RD :: "device \<Rightarrow> action" where "cmd_GPIO_DIR_RD dev = gpio_read dev 0xC4"
definition cmd_GPIO_WR :: "device \<Rightarrow> action" where "cmd_GPIO_WR dev = gpio_write dev 0xC6"
definition cmd_GPIO_RD :: "device \<Rightarrow> action" where "cmd_GPIO_RD dev = gpio_read dev 0xC2"

section \<open>What a command may touch\<close>

text \<open>
  Everything but the receive header, the response header (its status excepted), and the FIFO and
  LED registers, which belong to the main loop.
\<close>

definition command_bytes :: "(region \<times> nat) set" where
  "command_bytes = {Rx_buffer} \<times> {8..<64} \<union> {Tx_buffer} \<times> insert 1 {8..<64}
     \<union> {Dac_val} \<times> {0..<1} \<union> {Sc_brdg_data} \<times> {0..<4} \<union> {DAC_data} \<times> {0..<2} \<union> {ADF_data} \<times> {0..<12}"

definition command_buses :: "u32 set" where
  "command_buses = {I2C_OPENCORES_0_BASE, LMS_CTR_GPIO_BASE, SPI_1_ADF_BASE, SPI_1_DAC_BASE, SPI_LMS_BASE}"

abbreviation command_effect :: "machine \<Rightarrow> machine \<Rightarrow> bool" where
  "command_effect \<equiv> effect command_bytes command_buses"

lemma command_bytes_simps [simp]:
  "(Rx_buffer, i) \<in> command_bytes \<longleftrightarrow> 8 \<le> i \<and> i < 64"
  "(Tx_buffer, i) \<in> command_bytes \<longleftrightarrow> i = 1 \<or> 8 \<le> i \<and> i < 64"
  "(Dac_val, i) \<in> command_bytes \<longleftrightarrow> i = 0"
  "(Sc_brdg_data, i) \<in> command_bytes \<longleftrightarrow> i < 4"
  "(DAC_data, i) \<in> command_bytes \<longleftrightarrow> i < 2"
  "(ADF_data, i) \<in> command_bytes \<longleftrightarrow> i < 12"
  by (auto simp: command_bytes_def)

lemma command_bytes_tx: "8 \<le> i \<Longrightarrow> j \<le> 64 \<Longrightarrow> {Tx_buffer} \<times> {i..<j} \<subseteq> command_bytes"
  by auto

lemma command_bytes_bridge: "j \<le> 4 \<Longrightarrow> {Sc_brdg_data} \<times> {i..<j} \<subseteq> command_bytes"
  by auto

lemma command_buses_simps [simp]:
  "I2C_OPENCORES_0_BASE \<in> command_buses" "LMS_CTR_GPIO_BASE \<in> command_buses"
  "SPI_1_ADF_BASE \<in> command_buses" "SPI_1_DAC_BASE \<in> command_buses" "SPI_LMS_BASE \<in> command_buses"
  "AV_FIFO_INT_0_BASE \<notin> command_buses" "LEDS_BASE \<notin> command_buses"
  by (simp_all add: command_buses_def base_defs)

lemma command_buses_peripherals: "command_buses \<subseteq> peripherals"
  by (auto simp: command_buses_def peripherals_def)

lemma for_blocks_effect [effect_rules]:
  assumes "effect W B s0 s" and "(Rx_buffer, Data_blocks) \<notin> W"
    and "\<And>i s. i < unat (memory s0 Rx_buffer ! Data_blocks) \<Longrightarrow> effect W B s0 s
      \<Longrightarrow> runs L (body i s) (effect W B s0)"
  shows "runs L (for_blocks body s) (effect W B s0)"
proof -
  have "memory s Rx_buffer ! Data_blocks = memory s0 Rx_buffer ! Data_blocks"
    using assms(1,2) by (rule effect_memory)
  then show ?thesis
    using assms effect_well_formed [OF assms(1)]
    by (auto simp: for_blocks_def intro!: for_up_effect)
qed

lemma checked_effect [effect_rules]:
  assumes "effect W B s0 s" and "(Tx_buffer, Status) \<in> W" and "(Rx_buffer, Data_blocks) \<notin> W"
    and "\<And>s. unat (memory s0 Rx_buffer ! Data_blocks) \<le> data_field_size div bsize
      \<Longrightarrow> effect W B s0 s \<Longrightarrow> runs L (body s) (effect W B s0)"
  shows "runs L (seq (Check_many_blocks bsize s) (\<lambda>(too_many, s). if too_many then Ret s else body s))
    (effect W B s0)"
proof -
  have "memory s Rx_buffer ! Data_blocks = memory s0 Rx_buffer ! Data_blocks"
    using assms(1,3) by (rule effect_memory)
  then show ?thesis
    using assms effect_well_formed [OF assms(1)] poke_effect [OF assms(1) _ assms(2)]
    by (auto simp: Check_many_blocks_def set_status_def seq_assoc)
qed

lemma set_status_effect [effect_rules]:
  "effect W B s0 s \<Longrightarrow> (Tx_buffer, Status) \<in> W \<Longrightarrow> runs L (set_status v s) (effect W B s0)"
  unfolding set_status_def by (rule poke_effect) auto

lemma count_error_effect [effect_rules]:
  "effect W B s0 s \<Longrightarrow> runs L (count_error s) (effect W B s0)"
  by (simp add: count_error_def)

lemma sbi_effect [effect_rules]:
  assumes "effect W B s0 s" and "i < extent r" and "(r, i) \<in> W"
  shows "runs L (sbi (r, i) n s) (effect W B s0)" and "runs L (cbi (r, i) n s) (effect W B s0)"
  using assms effect_well_formed [OF assms(1)]
  by (auto simp: sbi_def cbi_def intro!: effect_rules)

lemma data_field_quotients [simp]:
  "data_field_size div 4 = 14" "data_field_size div 3 = 18" "header_size = 8"
  by (simp_all add: data_field_size_def header_size_def)

section \<open>Done with a command\<close>

text \<open>A command is done when it kept to that and replaced the status BUSY by a final one.\<close>

definition final_status :: "u8 \<Rightarrow> bool" where
  "final_status v = (v \<in> {STATUS_COMPLETED_CMD, STATUS_UNKNOWN_CMD, STATUS_BLOCKS_ERROR_CMD,
     STATUS_ERROR_CMD, STATUS_WRONG_ORDER_CMD, STATUS_INVALID_PERIPH_ID_CMD})"

definition command_done :: "machine \<Rightarrow> machine \<Rightarrow> bool" where
  "command_done s0 s = (command_effect s0 s \<and> final_status (memory s Tx_buffer ! Status))"

lemma final_statuses [simp]:
  "final_status STATUS_COMPLETED_CMD" "final_status STATUS_UNKNOWN_CMD"
  "final_status STATUS_BLOCKS_ERROR_CMD" "final_status STATUS_ERROR_CMD"
  "final_status STATUS_WRONG_ORDER_CMD" "final_status STATUS_INVALID_PERIPH_ID_CMD"
  by (simp_all add: final_status_def)

named_theorems done_rules \<open>a command is done after its last statement\<close>

lemma seq_done [done_rules]:
  "runs L m (command_effect s0) \<Longrightarrow> (\<And>s. command_effect s0 s \<Longrightarrow> runs L (f s) (command_done s0))
     \<Longrightarrow> runs L (seq m f) (command_done s0)"
  by (rule runs_seq)

lemma seq_done_byte [done_rules]:
  fixes m :: "u8 outcome"
  shows "runs L m (\<lambda>_. True) \<Longrightarrow> (\<And>v. runs L (f v) (command_done s0)) \<Longrightarrow> runs L (seq m f) (command_done s0)"
  by (rule runs_seq)

lemma set_status_done [done_rules]:
  assumes "command_effect s0 s" and "final_status v"
  shows "runs L (set_status v s) (command_done s0)"
proof -
  have "runs L (set_status v s) (command_effect s0)"
    using assms by (intro set_status_effect) simp_all
  then show ?thesis
    using assms effect_well_formed [OF assms(1)]
    by (auto simp: set_status_def poke_Ret command_done_def)
qed

lemma checked_done [done_rules]:
  assumes "command_effect s0 s"
    and "\<And>s. unat (memory s0 Rx_buffer ! Data_blocks) \<le> data_field_size div bsize
      \<Longrightarrow> command_effect s0 s \<Longrightarrow> runs L (body s) (command_done s0)"
  shows "runs L (seq (Check_many_blocks bsize s) (\<lambda>(too_many, s). if too_many then Ret s else body s))
    (command_done s0)"
proof -
  have "memory s Rx_buffer ! Data_blocks = memory s0 Rx_buffer ! Data_blocks"
    by (rule effect_memory [OF assms(1)]) simp
  then show ?thesis
    using assms effect_well_formed [OF assms(1)] set_status_done [OF assms(1), of STATUS_BLOCKS_ERROR_CMD L]
    by (auto simp: Check_many_blocks_def seq_assoc)
qed

lemma command_done_effect: "command_done s0 s \<Longrightarrow> command_effect s0 s"
  by (simp add: command_done_def)

lemma nops_effect [effect_rules]:
  "effect W B s0 s \<Longrightarrow> effect W B s0 (s\<lparr>io := nops n (io s)\<rparr>)"
proof -
  assume "effect W B s0 s"
  moreover have "extends (touches B) (io s) (nops n (io s))"
    by (auto simp: extends_def nops_def touches_def)
  ultimately show ?thesis by (auto simp: effect_def intro: extends_trans)
qed

section \<open>Every command gets done\<close>

lemmas layout = rx_data_def tx_data_def

lemma cmd_GET_INFO_done: "command_effect s0 s \<Longrightarrow> runs L (cmd_GET_INFO s) (command_done s0)"
  by (auto simp: cmd_GET_INFO_def layout intro!: done_rules effect_rules)

lemma cmd_LMS_RST_done: "command_effect s0 s \<Longrightarrow> runs L (cmd_LMS_RST s) (command_done s0)"
  by (auto simp: cmd_LMS_RST_def layout simp: effect_well_formed intro!: done_rules effect_rules)

lemma spi_write_blocks_done:
  assumes "command_effect s0 s"
  shows "runs (spi_ok dev) (cmd_LMS7002_WR dev s) (command_done s0)"
    and "runs (spi_ok dev) (cmd_BRDSPI16_WR dev s) (command_done s0)"
  using assms
  by (auto simp: cmd_LMS7002_WR_def cmd_BRDSPI16_WR_def layout intro!: done_rules effect_rules)

lemma spi_read_blocks_done:
  assumes "command_effect s0 s"
  shows "runs (spi_ok dev) (cmd_LMS7002_RD dev s) (command_done s0)"
    and "runs (spi_ok dev) (cmd_BRDSPI16_RD dev s) (command_done s0)"
  using assms
  by (auto simp: cmd_LMS7002_RD_def cmd_BRDSPI16_RD_def layout
      intro!: done_rules effect_rules command_bytes_tx)

lemma cmd_ADF4002_WR_done: "command_effect s0 s \<Longrightarrow> runs (spi_ok dev) (cmd_ADF4002_WR dev s) (command_done s0)"
  by (auto simp: cmd_ADF4002_WR_def layout intro!: done_rules effect_rules)

lemma cmd_ANALOG_VAL_WR_done:
  "command_effect s0 s \<Longrightarrow> runs (spi_ok dev) (cmd_ANALOG_VAL_WR dev s) (command_done s0)"
  by (auto simp: cmd_ANALOG_VAL_WR_def analog_write_block_def layout
      simp: effect_well_formed intro!: done_rules effect_rules)

text \<open>\<open>CMD_ANALOG_VAL_RD\<close> has no check of the number of blocks: it keeps to it up to 14 of them.\<close>

lemma cmd_ANALOG_VAL_RD_done:
  assumes "command_effect s0 s" and "unat (memory s0 Rx_buffer ! Data_blocks) \<le> 14"
  shows "runs (spi_ok dev) (cmd_ANALOG_VAL_RD dev s) (command_done s0)"
  using assms
  by (auto simp: cmd_ANALOG_VAL_RD_def analog_read_block_def layout
      simp: effect_well_formed intro!: done_rules effect_rules)

lemma gpio_done:
  assumes "command_effect s0 s"
  shows "runs (spi_ok dev) (gpio_write dev reg s) (command_done s0)"
    and "runs (spi_ok dev) (gpio_read dev reg s) (command_done s0)"
  using assms
  by (auto simp: gpio_write_def gpio_read_def layout simp: effect_well_formed
      intro!: done_rules effect_rules command_bytes_bridge)

text \<open>Whatever the number of blocks, \<open>CMD_ANALOG_VAL_RD\<close> keeps to it when it returns.\<close>

lemma poke_data_Ret:
  "poke (tx_data i) v s = Ret s' \<Longrightarrow> command_effect s0 s \<Longrightarrow> command_effect s0 s'"
proof -
  assume p: "poke (tx_data i) v s = Ret s'" and e: "command_effect s0 s"
  then have "8 + i < 64"
    using effect_well_formed [OF e] by (auto simp: poke_def layout store_def split: if_splits)
  then have "runs True (poke (tx_data i) v s) (command_effect s0)"
    unfolding layout using e by (intro poke_effect) simp_all
  with p show ?thesis by simp
qed

lemma analog_read_block_Ret:
  assumes "analog_read_block dev i s = Ret s'" and "command_effect s0 s"
  shows "command_effect s0 s'"
proof -
  have temp: "command_effect s0 v" if "read_temperature dev u = Ret v" "command_effect s0 u" for u v
    using lm75_effect(2) [OF that(2), of True dev] that(1) by (simp add: runs_def)
  show ?thesis
    using assms
    by (auto simp: analog_read_block_def count_error_def seq_eq_Ret run_simps split: if_splits
        dest!: poke_data_Ret temp)
qed

lemma cmd_ANALOG_VAL_RD_Ret:
  assumes "cmd_ANALOG_VAL_RD dev s = Ret s'" and "command_effect s0 s"
  shows "command_done s0 s'"
proof -
  from assms obtain u n where u: "for_up (analog_read_block dev) 0 n s = Ret u"
    and st: "set_status STATUS_COMPLETED_CMD u = Ret s'"
    by (auto simp: cmd_ANALOG_VAL_RD_def for_blocks_def seq_eq_Ret)
  have "command_effect s0 u"
    by (rule for_up_Ret [OF u, where I = "command_effect s0"]) (use assms analog_read_block_Ret in blast)+
  from set_status_done [OF this, of STATUS_COMPLETED_CMD True] st show ?thesis by simp
qed

end
