(* ===== verification/Command_Results.thy ===== *)
theory Command_Results
  imports Commands
begin

text \<open>
  What the SPI commands do, exactly, when the SPI core follows its documentation: the bytes each
  block puts on the bus, in order, and where the bytes that come back are stored.
\<close>

section \<open>Blocks of four bytes written\<close>

text \<open>Block \<open>i\<close> of a write command: the register address with its write bit set, and the value.\<close>

definition write_frame :: "region memory \<Rightarrow> nat \<Rightarrow> u8 list" where
  "write_frame m i =
     [m Rx_buffer ! (8 + 4 * i) OR 0x80, m Rx_buffer ! (9 + 4 * i),
      m Rx_buffer ! (10 + 4 * i), m Rx_buffer ! (11 + 4 * i)]"

definition rx_only :: "nat \<Rightarrow> machine \<Rightarrow> machine \<Rightarrow> bool" where
  "rx_only k s s' =
     (only_memory s s' \<and> well_formed s' \<and> (\<forall>r. r \<noteq> Rx_buffer \<longrightarrow> memory s' r = memory s r)
      \<and> (\<forall>j. j < 8 \<or> k \<le> j \<longrightarrow> memory s' Rx_buffer ! j = memory s Rx_buffer ! j))"

definition write_block :: "device \<Rightarrow> u32 \<Rightarrow> nat \<Rightarrow> action" where
  "write_block dev slave block =
     run [sbi (rx_data (0 + block * 4)) 7,
          spi_command dev SPI_LMS_BASE slave 4 (rx_data (0 + block * 4)) 0 (Null, 0) 0]"

lemma write_block_exact:
  assumes core: "spi_core dev SPI_LMS_BASE" and i: "i < 14"
    and rx: "rx_only (8 + 4 * i) s0 s"
  shows "post (write_block dev slave i s) (\<lambda>s'. rx_only (8 + 4 * Suc i) s0 s'
     \<and> extends (at_window SPI_LMS_BASE) (io s) (io s')
     \<and> bus_writes SPI_LMS_BASE (io s') = bus_writes SPI_LMS_BASE (io s)
         @ spi_transaction slave 0 (map ucast (write_frame (memory s0) i)))"
proof -
  have wf: "well_formed s" using rx by (simp add: rx_only_def)
  let ?xs = "memory s Rx_buffer"
  let ?s = "s\<lparr>memory := (memory s)(Rx_buffer := ?xs[8 + 4 * i := ?xs ! (8 + 4 * i) OR 0x80])\<rparr>"
  have "write_block dev slave i s =
      spi_command dev SPI_LMS_BASE slave 4 (Rx_buffer, 8 + 4 * i) 0 (Null, 0) 0 ?s"
    using wf i by (simp add: write_block_def sbi_def layout poke_Ret mult.commute)
  moreover have wf': "well_formed ?s"
    using wf by (simp add: well_formed_def)
  then have "post (spi_command dev SPI_LMS_BASE slave 4 (Rx_buffer, 8 + 4 * i) 0 (Null, 0) 0 ?s)
      (spi_sends SPI_LMS_BASE slave (map ucast (bytes_at (memory ?s) (Rx_buffer, 8 + 4 * i) 4)) ?s)"
    using i by (intro spi_command_sends [OF core]) simp_all
  moreover have "bytes_at (memory ?s) (Rx_buffer, 8 + 4 * i) 4 = write_frame (memory s0) i"
    using rx wf i by (subst bytes_at_map)
      (simp_all add: rx_only_def write_frame_def upt_rec numeral_eq_Suc add.commute)
  moreover have "rx_only (8 + 4 * Suc i) s0 s'" if "only_io ?s s'" for s'
    using rx only_io_fields [OF that] wf' only_io_memory [OF that]
    by (auto simp: rx_only_def only_memory_def)
  ultimately show ?thesis
    by (simp only:) (elim post_mono, simp add: spi_sends_def)
qed

lemma write_blocks_exact:
  assumes core: "spi_core dev SPI_LMS_BASE" and wf: "well_formed s" and n: "n \<le> 14"
  shows "post (for_up (write_block dev slave) 0 n s) (\<lambda>s'. rx_only (8 + 4 * n) s s'
     \<and> extends (at_window SPI_LMS_BASE) (io s) (io s')
     \<and> bus_writes SPI_LMS_BASE (io s') = bus_writes SPI_LMS_BASE (io s)
         @ concat (map (\<lambda>i. spi_transaction slave 0 (map ucast (write_frame (memory s) i))) [0..<n]))"
proof -
  let ?I = "\<lambda>i s'. rx_only (8 + 4 * i) s s' \<and> extends (at_window SPI_LMS_BASE) (io s) (io s')
     \<and> bus_writes SPI_LMS_BASE (io s') = bus_writes SPI_LMS_BASE (io s)
         @ concat (map (\<lambda>i. spi_transaction slave 0 (map ucast (write_frame (memory s) i))) [0..<i])"
  have "post (for_up (write_block dev slave) 0 n s) (?I (0 + n))"
  proof (rule for_up_post)
    show "?I 0 s" using wf by (simp add: rx_only_def)
    show "post (write_block dev slave i s') (?I (Suc i))" if "i < 0 + n" "?I i s'" for i s'
      using that n by (auto intro: post_mono [OF write_block_exact [OF core]] extends_trans)
  qed
  then show ?thesis by simp
qed

section \<open>Registers read\<close>

text \<open>Block \<open>i\<close> of a read command: the two address bytes, with the write bit cleared.\<close>

definition read_frame :: "region memory \<Rightarrow> nat \<Rightarrow> u8 list" where
  "read_frame m i = [m Rx_buffer ! (8 + 2 * i) AND NOT 0x80, m Rx_buffer ! (9 + 2 * i)]"

definition read_block :: "device \<Rightarrow> u32 \<Rightarrow> nat \<Rightarrow> action" where
  "read_block dev slave block =
     run [cbi (rx_data (0 + block * 2)) 7,
          spi_command dev SPI_LMS_BASE slave 2 (rx_data (0 + block * 2)) 2 (tx_data (2 + block * 4)) 0]"

text \<open>
  After \<open>k\<close> blocks: \<open>words\<close> are the receive words of each block's transaction, of which the last
  two are the register's value, and it is where the response wants it.
\<close>

definition blocks_read :: "u32 \<Rightarrow> nat \<Rightarrow> machine \<Rightarrow> machine \<Rightarrow> u32 list list \<Rightarrow> bool" where
  "blocks_read slave k s s' words =
     (only_memory s s' \<and> well_formed s' \<and> extends (at_window SPI_LMS_BASE) (io s) (io s')
      \<and> (\<forall>j. j < 8 \<or> 8 + 2 * k \<le> j \<longrightarrow> memory s' Rx_buffer ! j = memory s Rx_buffer ! j)
      \<and> (\<forall>j. j < 8 \<or> 8 + 4 * k \<le> j \<or> j mod 4 < 2 \<longrightarrow> memory s' Tx_buffer ! j = memory s Tx_buffer ! j)
      \<and> (\<forall>r. r \<noteq> Rx_buffer \<longrightarrow> r \<noteq> Tx_buffer \<longrightarrow> memory s' r = memory s r)
      \<and> length words = k \<and> (\<forall>ws \<in> set words. length ws = 5)
      \<and> (\<forall>i < k. bytes_at (memory s') (Tx_buffer, 10 + 4 * i) 2 = map ucast (drop 3 (words ! i)))
      \<and> bus_reads SPI_LMS_BASE SPI_RXDATA (io s') =
          bus_reads SPI_LMS_BASE SPI_RXDATA (io s) @ concat words
      \<and> bus_writes SPI_LMS_BASE (io s') = bus_writes SPI_LMS_BASE (io s)
          @ concat (map (\<lambda>i. spi_transaction slave 0 (map ucast (read_frame (memory s) i) @ [0, 0])) [0..<k]))"

lemma replicate_two: "replicate 2 x = [x, x]"
  by (simp add: numeral_2_eq_2)

lemma read_block_exact:
  assumes core: "spi_core dev SPI_LMS_BASE" and k: "k < 14"
    and sofar: "blocks_read slave k s s' words"
  shows "post (read_block dev slave k s') (\<lambda>s''. \<exists>ws. blocks_read slave (Suc k) s s'' (words @ [ws]))"
proof -
  have wf: "well_formed s'" using sofar by (simp add: blocks_read_def)
  let ?xs = "memory s' Rx_buffer"
  let ?s = "s'\<lparr>memory := (memory s')(Rx_buffer := ?xs[8 + 2 * k := ?xs ! (8 + 2 * k) AND NOT 0x80])\<rparr>"
  have "read_block dev slave k s' =
      spi_command dev SPI_LMS_BASE slave 2 (Rx_buffer, 8 + 2 * k) 2 (Tx_buffer, 10 + 4 * k) 0 ?s"
    using wf k by (simp add: read_block_def cbi_def layout poke_Ret mult.commute)
  moreover have wf': "well_formed ?s"
    using wf by (simp add: well_formed_def)
  then have "post (spi_command dev SPI_LMS_BASE slave 2 (Rx_buffer, 8 + 2 * k) 2 (Tx_buffer, 10 + 4 * k) 0 ?s)
      (spi_exchanges SPI_LMS_BASE slave 2 (Rx_buffer, 8 + 2 * k) 2 (Tx_buffer, 10 + 4 * k) ?s)"
    using k by (intro spi_command_exchanges [OF core]) simp_all
  moreover have frame: "bytes_at (memory ?s) (Rx_buffer, 8 + 2 * k) 2 = read_frame (memory s) k"
  proof -
    have "?xs ! (8 + 2 * k) = memory s Rx_buffer ! (8 + 2 * k)"
      "?xs ! (9 + 2 * k) = memory s Rx_buffer ! (9 + 2 * k)"
      using sofar by (simp_all add: blocks_read_def)
    moreover have "[0..<2] = [0, 1::nat]" by (simp add: upt_rec)
    ultimately show ?thesis
      using wf k by (subst bytes_at_map) (simp_all add: read_frame_def)
  qed
  moreover have "\<exists>ws. blocks_read slave (Suc k) s s'' (words @ [ws])"
    if ex: "spi_exchanges SPI_LMS_BASE slave 2 (Rx_buffer, 8 + 2 * k) 2 (Tx_buffer, 10 + 4 * k) ?s s''" for s''
  proof -
    have wo: "writes_only (Tx_buffer, 10 + 4 * k) 2 (memory ?s) (memory s'')"
      using ex by (simp add: spi_exchanges_def)
    from ex obtain stale ignored rxs where rx: "length ignored = 2" "length rxs = 2"
      "bus_reads SPI_LMS_BASE SPI_RXDATA (io s'') =
         bus_reads SPI_LMS_BASE SPI_RXDATA (io s') @ stale # ignored @ rxs"
      "bytes_at (memory s'') (Tx_buffer, 10 + 4 * k) 2 = map ucast rxs"
      by (auto simp: spi_exchanges_def spi_done_def)
    have "bus_writes SPI_LMS_BASE (io s'') = bus_writes SPI_LMS_BASE (io s')
        @ spi_transaction slave 0 (map ucast (read_frame (memory s) k) @ [0, 0])"
      using ex unfolding spi_exchanges_def spi_done_def sent_bytes_def frame by (simp add: replicate_two)
    moreover have "memory s'' r = memory ?s r" if "r \<noteq> Tx_buffer" for r
      using writes_only_other [OF wo] that by simp
    moreover have "memory s'' Tx_buffer ! j = memory s Tx_buffer ! j"
      if j: "j < 8 \<or> 8 + 4 * Suc k \<le> j \<or> j mod 4 < 2" for j
    proof -
      have "j < 10 + 4 * k \<or> 12 + 4 * k \<le> j"
        using j by presburger
      then have "memory s'' Tx_buffer ! j = memory s' Tx_buffer ! j"
        using wo by (auto simp: writes_only_def)
      moreover have "memory s' Tx_buffer ! j = memory s Tx_buffer ! j"
        using sofar j unfolding blocks_read_def by auto
      ultimately show ?thesis by simp
    qed
    moreover have "bytes_at (memory s'') (Tx_buffer, 10 + 4 * i) 2 = bytes_at (memory s') (Tx_buffer, 10 + 4 * i) 2"
      if "i < k" for i
      using bytes_at_unchanged [OF wo, of "10 + 4 * i" 2 Tx_buffer] that by (simp add: bytes_at_def)
    moreover have "well_formed s''"
      using wf' writes_only_length [OF wo] by (simp add: well_formed_def)
    ultimately have "blocks_read slave (Suc k) s s'' (words @ [stale # ignored @ rxs])"
      using sofar ex rx unfolding blocks_read_def spi_exchanges_def
      by (intro conjI) (auto intro: extends_trans simp: only_memory_def nth_append less_Suc_eq)
    then show ?thesis by blast
  qed
  ultimately show ?thesis
    by (simp only:) (elim post_mono, blast)
qed

lemma read_blocks_exact:
  assumes core: "spi_core dev SPI_LMS_BASE" and wf: "well_formed s" and n: "n \<le> 14"
  shows "post (for_up (read_block dev slave) 0 n s) (\<lambda>s'. \<exists>words. blocks_read slave n s s' words)"
proof -
  have "post (for_up (read_block dev slave) 0 n s) (\<lambda>s'. \<exists>words. blocks_read slave (0 + n) s s' words)"
  proof (rule for_up_post [where I = "\<lambda>i s'. \<exists>words. blocks_read slave i s s' words"])
    show "\<exists>words. blocks_read slave 0 s s words"
      using wf by (intro exI [of _ "[]"]) (simp add: blocks_read_def only_memory_def)
    show "post (read_block dev slave i s') (\<lambda>s'. \<exists>words. blocks_read slave (Suc i) s s' words)"
      if "i < 0 + n" "\<exists>words. blocks_read slave i s s' words" for i s'
      using that n by (auto intro: post_mono [OF read_block_exact [OF core]])
  qed
  then show ?thesis by simp
qed

section \<open>The commands as block loops\<close>

text \<open>A command whose blocks fit runs its loop and sets its status; one whose blocks do not fit only
  sets the status.\<close>

lemma blocks_fit:
  assumes "well_formed s"
  shows "seq (Check_many_blocks b s) (\<lambda>(too_many, s). if too_many then Ret s else f s) =
    (if unat (memory s Rx_buffer ! Data_blocks) \<le> data_field_size div b then f s
     else Ret (s\<lparr>memory := (memory s)(Tx_buffer := (memory s Tx_buffer)[Status := STATUS_BLOCKS_ERROR_CMD])\<rparr>))"
  using assms by (simp add: Check_many_blocks_def set_status_def poke_Ret)

lemma set_status_Ret:
  "well_formed s \<Longrightarrow> set_status v s =
     Ret (s\<lparr>memory := (memory s)(Tx_buffer := (memory s Tx_buffer)[Status := v])\<rparr>)"
  by (simp add: set_status_def poke_Ret)

lemma for_blocks_Ret:
  "well_formed s \<Longrightarrow> for_blocks body s = for_up body 0 (unat (memory s Rx_buffer ! Data_blocks)) s"
  by (simp add: for_blocks_def)

lemma spi_commands:
  "cmd_LMS7002_WR dev s = seq (Check_many_blocks 4 s) (\<lambda>(too_many, s). if too_many then Ret s
     else run [for_blocks (write_block dev SPI_NR_LMS7002M), set_status STATUS_COMPLETED_CMD] s)"
  "cmd_BRDSPI16_WR dev s = seq (Check_many_blocks 4 s) (\<lambda>(too_many, s). if too_many then Ret s
     else run [for_blocks (write_block dev SPI_NR_BRD), set_status STATUS_COMPLETED_CMD] s)"
  "cmd_LMS7002_RD dev s = seq (Check_many_blocks 4 s) (\<lambda>(too_many, s). if too_many then Ret s
     else run [for_blocks (read_block dev SPI_NR_LMS7002M), set_status STATUS_COMPLETED_CMD] s)"
  "cmd_BRDSPI16_RD dev s = seq (Check_many_blocks 4 s) (\<lambda>(too_many, s). if too_many then Ret s
     else run [for_blocks (read_block dev SPI_NR_BRD), set_status STATUS_COMPLETED_CMD] s)"
  unfolding cmd_LMS7002_WR_def cmd_BRDSPI16_WR_def cmd_LMS7002_RD_def cmd_BRDSPI16_RD_def
    write_block_def [abs_def] read_block_def [abs_def] by (rule refl)+

text \<open>What a register write has done when the command is over, and what a register read has.\<close>

definition registers_written :: "u32 \<Rightarrow> machine \<Rightarrow> machine \<Rightarrow> bool" where
  "registers_written slave s s' =
     (memory s' Tx_buffer = (memory s Tx_buffer)[Status := STATUS_COMPLETED_CMD]
      \<and> extends (at_window SPI_LMS_BASE) (io s) (io s')
      \<and> bus_writes SPI_LMS_BASE (io s') = bus_writes SPI_LMS_BASE (io s)
          @ concat (map (\<lambda>i. spi_transaction slave 0 (map ucast (write_frame (memory s) i)))
              [0..<unat (memory s Rx_buffer ! Data_blocks)]))"

definition registers_read :: "u32 \<Rightarrow> machine \<Rightarrow> machine \<Rightarrow> bool" where
  "registers_read slave s s' =
     (let n = unat (memory s Rx_buffer ! Data_blocks); tx = memory s Tx_buffer; tx' = memory s' Tx_buffer in
      tx' ! Status = STATUS_COMPLETED_CMD \<and> extends (at_window SPI_LMS_BASE) (io s) (io s')
      \<and> (\<forall>j. j \<noteq> Status \<longrightarrow> j < 8 \<or> 8 + 4 * n \<le> j \<or> j mod 4 < 2 \<longrightarrow> tx' ! j = tx ! j)
      \<and> bus_writes SPI_LMS_BASE (io s') = bus_writes SPI_LMS_BASE (io s)
          @ concat (map (\<lambda>i. spi_transaction slave 0 (map ucast (read_frame (memory s) i) @ [0, 0])) [0..<n])
      \<and> (\<exists>words. length words = n \<and> (\<forall>ws \<in> set words. length ws = 5)
           \<and> bus_reads SPI_LMS_BASE SPI_RXDATA (io s') = bus_reads SPI_LMS_BASE SPI_RXDATA (io s) @ concat words
           \<and> (\<forall>i < n. bytes_at (memory s') (Tx_buffer, 10 + 4 * i) 2 = map ucast (drop 3 (words ! i)))))"

lemma register_write_exact:
  assumes "spi_core dev SPI_LMS_BASE" and wf: "well_formed s"
    and n: "unat (memory s Rx_buffer ! Data_blocks) \<le> 14"
  shows "post (run [for_blocks (write_block dev slave), set_status STATUS_COMPLETED_CMD] s)
     (registers_written slave s)"
  unfolding run.simps for_blocks_Ret [OF wf] seq_Ret_right
  by (rule post_seq [OF write_blocks_exact [OF assms]])
    (use wf in \<open>auto simp: rx_only_def set_status_def poke_Ret registers_written_def\<close>)

lemma register_read_exact:
  assumes "spi_core dev SPI_LMS_BASE" and wf: "well_formed s"
    and n: "unat (memory s Rx_buffer ! Data_blocks) \<le> 14"
  shows "post (run [for_blocks (read_block dev slave), set_status STATUS_COMPLETED_CMD] s)
     (registers_read slave s)"
  unfolding run.simps for_blocks_Ret [OF wf] seq_Ret_right
proof (rule post_seq [OF read_blocks_exact [OF assms]])
  fix s' assume "\<exists>words. blocks_read slave (unat (memory s Rx_buffer ! Data_blocks)) s s' words"
  then obtain words where b: "blocks_read slave (unat (memory s Rx_buffer ! Data_blocks)) s s' words" ..
  let ?u = "s'\<lparr>memory := (memory s')(Tx_buffer := (memory s' Tx_buffer)[Status := STATUS_COMPLETED_CMD])\<rparr>"
  have "well_formed s'" using b by (simp add: blocks_read_def)
  then have "set_status STATUS_COMPLETED_CMD s' = Ret ?u"
    by (simp add: set_status_def poke_Ret)
  moreover have "bytes_at (memory ?u) (Tx_buffer, 10 + 4 * i) 2 = bytes_at (memory s') (Tx_buffer, 10 + 4 * i) 2" for i
    by (simp add: bytes_at_def)
  then have "registers_read slave s ?u"
    using b \<open>well_formed s'\<close> unfolding registers_read_def Let_def blocks_read_def
    by (intro conjI exI [of _ words]) simp_all
  ultimately show "post (set_status STATUS_COMPLETED_CMD s') (registers_read slave s)" by simp
qed

section \<open>GPIO registers\<close>

text \<open>The board's GPIO registers are 16 bits, most significant byte first; the packet has the least
  significant byte first.\<close>

definition gpio_written :: "u8 \<Rightarrow> machine \<Rightarrow> machine \<Rightarrow> bool" where
  "gpio_written reg s s' =
     (memory s' Tx_buffer = (memory s Tx_buffer)[Status := STATUS_COMPLETED_CMD]
      \<and> extends (at_window SPI_LMS_BASE) (io s) (io s')
      \<and> bus_writes SPI_LMS_BASE (io s') = bus_writes SPI_LMS_BASE (io s)
          @ spi_transaction 1 0 (map ucast [0x80, reg, memory s Rx_buffer ! 9, memory s Rx_buffer ! 8]))"

definition gpio_read_back :: "u8 \<Rightarrow> machine \<Rightarrow> machine \<Rightarrow> bool" where
  "gpio_read_back reg s s' =
     (extends (at_window SPI_LMS_BASE) (io s) (io s')
      \<and> bus_writes SPI_LMS_BASE (io s') = bus_writes SPI_LMS_BASE (io s)
          @ spi_transaction 1 0 (map ucast [0, reg] @ [0, 0])
      \<and> (\<exists>stale a b hi lo. bus_reads SPI_LMS_BASE SPI_RXDATA (io s') =
             bus_reads SPI_LMS_BASE SPI_RXDATA (io s) @ [stale, a, b, hi, lo]
           \<and> memory s' Tx_buffer =
               (memory s Tx_buffer)[8 := ucast lo, 9 := ucast hi, Status := STATUS_COMPLETED_CMD]))"

lemma bridge_bytes: "well_formed s \<Longrightarrow> \<exists>a b c d. memory s Sc_brdg_data = [a, b, c, d]"
  using list_of_four [of "memory s Sc_brdg_data"] well_formed_length [of s Sc_brdg_data] by auto

lemma gpio_write_exact:
  assumes core: "spi_core dev SPI_LMS_BASE" and wf: "well_formed s"
  shows "post (gpio_write dev reg s) (gpio_written reg s)"
proof -
  let ?bs = "[0x80, reg, memory s Rx_buffer ! 9, memory s Rx_buffer ! 8]"
  let ?s = "s\<lparr>memory := (memory s)(Sc_brdg_data := ?bs)\<rparr>"
  obtain a b c d where "memory s Sc_brdg_data = [a, b, c, d]" using bridge_bytes [OF wf] by blast
  then have "gpio_write dev reg s =
      seq (spi_command dev SPI_LMS_BASE SPI_NR_BRD 4 (Sc_brdg_data, 0) 0 (Null, 0) 0 ?s)
        (set_status STATUS_COMPLETED_CMD)"
    using wf by (simp add: gpio_write_def layout poke_Ret numeral_2_eq_2 numeral_3_eq_3)
  moreover have wf': "well_formed ?s" using wf by (simp add: well_formed_def)
  have "bytes_at (memory ?s) (Sc_brdg_data, 0) 4 = ?bs"
    by (simp add: bytes_at_def)
  then have "post (spi_command dev SPI_LMS_BASE SPI_NR_BRD 4 (Sc_brdg_data, 0) 0 (Null, 0) 0 ?s)
      (spi_sends SPI_LMS_BASE SPI_NR_BRD (map ucast ?bs) ?s)"
    using spi_command_sends [OF core wf', of "(Sc_brdg_data, 0)" 4 "(Null, 0)" SPI_NR_BRD] by simp
  moreover have "post (set_status STATUS_COMPLETED_CMD s') (gpio_written reg s)"
    if sends: "spi_sends SPI_LMS_BASE SPI_NR_BRD (map ucast ?bs) ?s s'" for s'
  proof -
    have "only_io ?s s'" using sends by (simp add: spi_sends_def)
    then have "well_formed s'" "memory s' = memory ?s" using only_io_fields wf' by blast+
    with sends show ?thesis
      by (simp add: set_status_Ret gpio_written_def spi_sends_def SPI_NR_BRD_def)
  qed
  ultimately show ?thesis by (simp only:) (erule post_seq)
qed

lemma gpio_read_exact:
  assumes core: "spi_core dev SPI_LMS_BASE" and wf: "well_formed s"
  shows "post (gpio_read dev reg s) (gpio_read_back reg s)"
proof -
  obtain a b c d where "memory s Sc_brdg_data = [a, b, c, d]" using bridge_bytes [OF wf] by blast
  moreover define u where "u = s\<lparr>memory := (memory s)(Sc_brdg_data := [0, reg, c, d])\<rparr>"
  ultimately have run: "gpio_read dev reg s =
      seq (spi_command dev SPI_LMS_BASE SPI_NR_BRD 2 (Sc_brdg_data, 0) 2 (Sc_brdg_data, 2) 0 u)
        (run [\<lambda>s. seq (peek (Sc_brdg_data, 3) s) (\<lambda>v. poke (tx_data 0) v s),
              \<lambda>s. seq (peek (Sc_brdg_data, 2) s) (\<lambda>v. poke (tx_data 1) v s),
              set_status STATUS_COMPLETED_CMD])"
    using wf by (simp add: gpio_read_def poke_Ret)
  have wf': "well_formed u" using wf by (simp add: u_def well_formed_def)
  have frame: "bytes_at (memory u) (Sc_brdg_data, 0) 2 = [0, reg]" by (simp add: u_def bytes_at_def)
  have rest: "post (run [\<lambda>s. seq (peek (Sc_brdg_data, 3) s) (\<lambda>v. poke (tx_data 0) v s),
              \<lambda>s. seq (peek (Sc_brdg_data, 2) s) (\<lambda>v. poke (tx_data 1) v s),
              set_status STATUS_COMPLETED_CMD] s') (gpio_read_back reg s)"
    if ex: "spi_exchanges SPI_LMS_BASE SPI_NR_BRD 2 (Sc_brdg_data, 0) 2 (Sc_brdg_data, 2) u s'" for s'
  proof -
    have wo: "writes_only (Sc_brdg_data, 2) 2 (memory u) (memory s')"
      using ex by (simp add: spi_exchanges_def)
    then have tx: "memory s' Tx_buffer = memory s Tx_buffer"
      using writes_only_other [OF wo, of Tx_buffer] by (simp add: u_def)
    have wf'': "well_formed s'"
      using wf' writes_only_length [OF wo] by (simp add: well_formed_def)
    from ex obtain stale x y hi lo where
      reads: "bus_reads SPI_LMS_BASE SPI_RXDATA (io s') = bus_reads SPI_LMS_BASE SPI_RXDATA (io s) @ [stale, x, y, hi, lo]"
      and bytes: "bytes_at (memory s') (Sc_brdg_data, 2) 2 = [ucast hi, ucast lo]"
      by (auto simp: spi_exchanges_def spi_done_def u_def numeral_2_eq_2 length_Suc_conv)
    obtain p q m n where "memory s' Sc_brdg_data = [p, q, m, n]" using bridge_bytes [OF wf''] by blast
    with bytes have sc: "memory s' Sc_brdg_data = [p, q, ucast hi, ucast lo]"
      by (simp add: bytes_at_def numeral_2_eq_2)
    have "extends (at_window SPI_LMS_BASE) (io s) (io s')"
      "bus_writes SPI_LMS_BASE (io s') = bus_writes SPI_LMS_BASE (io s) @ spi_transaction 1 0 [0, ucast reg, 0, 0]"
      using ex frame by (simp_all add: spi_exchanges_def spi_done_def sent_bytes_def replicate_two u_def SPI_NR_BRD_def)
    with reads show ?thesis
      using wf wf'' sc tx by (simp add: layout poke_Ret set_status_def gpio_read_back_def)
  qed
  show ?thesis
    unfolding run
    by (rule post_seq [OF spi_command_exchanges [OF core wf'] rest]) simp_all
qed

section \<open>The DAC and the ADF4002\<close>

lemma ADF_DAC_apart:
  assumes "extends (at_window SPI_1_ADF_BASE) t t'"
  shows "bus_writes SPI_1_DAC_BASE t' = bus_writes SPI_1_DAC_BASE t"
  by (rule extends_bus_writes [OF assms peripherals_apart]) (simp_all add: peripherals_def base_defs)

lemma DAC_ADF_apart:
  assumes "extends (at_window SPI_1_DAC_BASE) t t'"
  shows "bus_writes SPI_1_ADF_BASE t' = bus_writes SPI_1_ADF_BASE t"
  by (rule extends_bus_writes [OF assms peripherals_apart]) (simp_all add: peripherals_def base_defs)

definition adf_frame :: "region memory \<Rightarrow> nat \<Rightarrow> u32 list" where
  "adf_frame m i = map ucast (bytes_at m (Rx_buffer, 8 + 3 * i) 3)"

text \<open>\<open>CMD_ADF4002_WR\<close>: the DAC into three-state, then the blocks to the ADF4002.\<close>

definition adf_written :: "machine \<Rightarrow> machine \<Rightarrow> bool" where
  "adf_written s s' =
     (bus_writes SPI_1_DAC_BASE (io s') = bus_writes SPI_1_DAC_BASE (io s) @ spi_transaction 0 0 [0xC0, 0]
      \<and> bus_writes SPI_1_ADF_BASE (io s') = bus_writes SPI_1_ADF_BASE (io s)
          @ concat (map (\<lambda>i. spi_transaction 0 0 (adf_frame (memory s) i)) [0..<unat (memory s Rx_buffer ! Data_blocks)])
      \<and> memory s' Tx_buffer = (memory s Tx_buffer)[Status := STATUS_COMPLETED_CMD])"

lemma adf_blocks_exact:
  assumes core: "spi_core dev SPI_1_ADF_BASE" and wf: "well_formed s" and n: "n \<le> 18"
  shows "post (for_up (\<lambda>block. Control_TCXO_ADF dev 1 (rx_data (0 + block * 3))) 0 n s)
     (spi_sends_all SPI_1_ADF_BASE 0 (map (adf_frame (memory s)) [0..<n]) s)"
proof -
  let ?I = "\<lambda>i. spi_sends_all SPI_1_ADF_BASE 0 (map (adf_frame (memory s)) [0..<i]) s"
  have "post (for_up (\<lambda>block. Control_TCXO_ADF dev 1 (rx_data (0 + block * 3))) 0 n s) (?I (0 + n))"
  proof (rule for_up_post)
    fix i u assume i: "i < 0 + n" and u: "?I i u"
    then have only: "only_io s u" by (simp add: spi_sends_all_def)
    have "post (Control_TCXO_ADF dev 1 (Rx_buffer, 8 + 3 * i) u)
        (spi_sends SPI_1_ADF_BASE 0 (map ucast (bytes_at (memory u) (Rx_buffer, 8 + 3 * i) 3)) u)"
      using i n wf only_io_fields [OF only] by (intro Control_TCXO_ADF_write_exact [OF core]) simp_all
    then show "post (Control_TCXO_ADF dev 1 (rx_data (0 + i * 3)) u) (?I (Suc i))"
      using spi_sends_all_snoc [OF u] only_io_fields [OF only]
      by (auto elim!: post_mono simp: layout adf_frame_def mult.commute)
  qed simp
  then show ?thesis by simp
qed

lemma cmd_ADF4002_WR_exact:
  assumes dac: "spi_core dev SPI_1_DAC_BASE" and adf: "spi_core dev SPI_1_ADF_BASE"
    and wf: "well_formed s" and n: "unat (memory s Rx_buffer ! Data_blocks) \<le> 18" and no: "cmd_errors s = 0"
  shows "post (cmd_ADF4002_WR dev s) (adf_written s)"
proof -
  let ?n = "unat (memory s Rx_buffer ! Data_blocks)"
  have "post (run [Control_TCXO_DAC dev 0 (Null, 0),
               for_blocks (\<lambda>block. Control_TCXO_ADF dev 1 (rx_data (0 + block * 3))),
               \<lambda>s. set_status (if cmd_errors s \<noteq> 0 then STATUS_INVALID_PERIPH_ID_CMD
                               else STATUS_COMPLETED_CMD) s] s) (adf_written s)"
    unfolding run.simps seq_Ret_right
  proof (rule post_seq [OF Control_TCXO_DAC_exact [OF dac wf]])
    fix u assume u: "only_io (s\<lparr>memory := (memory s)(DAC_data := dac_bytes 0 (memory s Null ! 0))\<rparr>) u
        \<and> extends (at_window SPI_1_DAC_BASE) (io s) (io u)
        \<and> bus_writes SPI_1_DAC_BASE (io u) = bus_writes SPI_1_DAC_BASE (io s)
            @ spi_transaction 0 0 (map ucast (dac_bytes 0 (memory s Null ! 0)))"
    then have wfu: "well_formed u" and mem: "memory u Rx_buffer = memory s Rx_buffer"
      "memory u Tx_buffer = memory s Tx_buffer" and no': "cmd_errors u = 0"
      using wf no by (auto simp: only_io_def only_memory_def well_formed_def)
    then have frames: "adf_frame (memory u) = adf_frame (memory s)"
      by (simp add: adf_frame_def bytes_at_def fun_eq_iff)
    show "post (seq (for_blocks (\<lambda>block. Control_TCXO_ADF dev 1 (rx_data (0 + block * 3))) u)
        (\<lambda>s. set_status (if cmd_errors s \<noteq> 0 then STATUS_INVALID_PERIPH_ID_CMD else STATUS_COMPLETED_CMD) s))
      (adf_written s)"
      unfolding for_blocks_Ret [OF wfu] mem
    proof (rule post_seq [OF adf_blocks_exact [OF adf wfu n]])
      fix v assume v: "spi_sends_all SPI_1_ADF_BASE 0 (map (adf_frame (memory u)) [0..<?n]) u v"
      then have only: "only_io u v" and ext: "extends (at_window SPI_1_ADF_BASE) (io u) (io v)"
        by (auto simp: spi_sends_all_def)
      moreover have "bus_writes SPI_1_ADF_BASE (io u) = bus_writes SPI_1_ADF_BASE (io s)"
        using u DAC_ADF_apart by blast
      ultimately show "post (set_status (if cmd_errors v \<noteq> 0 then STATUS_INVALID_PERIPH_ID_CMD
          else STATUS_COMPLETED_CMD) v) (adf_written s)"
        using u v no' wfu only_io_fields [OF only] mem(2) ADF_DAC_apart [OF ext] frames
        by (simp add: set_status_Ret adf_written_def spi_sends_all_def only_io_def only_memory_def
            dac_bytes_def comp_def)
    qed
  qed simp_all
  then show ?thesis
    using n by (simp add: cmd_ADF4002_WR_def blocks_fit [OF wf] del: run.simps)
qed

text \<open>
  \<open>CMD_ANALOG_VAL_WR\<close>: a block is a DAC setting when its channel, its units and the high byte of its
  value are zero; each one resets the ADF4002 and sets the DAC, every other block is counted as an
  error.  \<open>settings m n\<close> are the DAC settings of the first \<open>n\<close> blocks.
\<close>

definition dac_setting :: "region memory \<Rightarrow> nat \<Rightarrow> bool" where
  "dac_setting m i = (m Rx_buffer ! (8 + 4 * i) = 0 \<and> m Rx_buffer ! (9 + 4 * i) = 0 \<and> m Rx_buffer ! (10 + 4 * i) = 0)"

definition settings :: "region memory \<Rightarrow> nat \<Rightarrow> u8 list" where
  "settings m n = map (\<lambda>i. m Rx_buffer ! (11 + 4 * i)) (filter (dac_setting m) [0..<n])"

definition adf_reset :: "(nat \<times> u32) list" where
  "adf_reset = concat (map (spi_transaction 0 0)
     [[0x1f, 0x81, 0xf3], [0x1f, 0x81, 0xf2], [0x00, 0x01, 0xf4], [0x01, 0x80, 0x01]])"

definition dac_sent :: "u8 \<Rightarrow> (nat \<times> u32) list" where
  "dac_sent d = spi_transaction 0 0 [ucast (drop_bit 2 d), ucast (push_bit 6 d)]"

definition analog_written :: "nat \<Rightarrow> machine \<Rightarrow> machine \<Rightarrow> bool" where
  "analog_written n s s' =
     (well_formed s' \<and> (\<forall>r. r \<noteq> Dac_val \<longrightarrow> r \<noteq> DAC_data \<longrightarrow> r \<noteq> ADF_data \<longrightarrow> memory s' r = memory s r)
      \<and> memory s' Dac_val = [last (memory s Dac_val ! 0 # settings (memory s) n)]
      \<and> cmd_errors s' = cmd_errors s + of_nat (n - length (settings (memory s) n))
      \<and> bus_writes SPI_1_DAC_BASE (io s') = bus_writes SPI_1_DAC_BASE (io s)
          @ concat (map dac_sent (settings (memory s) n))
      \<and> bus_writes SPI_1_ADF_BASE (io s') = bus_writes SPI_1_ADF_BASE (io s)
          @ concat (replicate (length (settings (memory s) n)) adf_reset))"

lemma settings_Suc:
  "settings m (Suc n) = settings m n @ (if dac_setting m n then [m Rx_buffer ! (11 + 4 * n)] else [])"
  by (simp add: settings_def)

lemma length_settings: "length (settings m n) \<le> n"
  by (simp add: settings_def) (metis length_filter_le length_upt minus_nat.diff_0)

lemma dac_set_exact:
  assumes dac: "spi_core dev SPI_1_DAC_BASE" and adf: "spi_core dev SPI_1_ADF_BASE"
    and wf: "well_formed s" and i: "i < 64"
  shows "post (run [Control_TCXO_ADF dev 0 (Null, 0),
                \<lambda>s. seq (peek (Rx_buffer, i) s) (\<lambda>v. poke (Dac_val, 0) v s),
                Control_TCXO_DAC dev 1 (Dac_val, 0)] s)
    (\<lambda>s'. well_formed s' \<and> (\<forall>r. r \<noteq> Dac_val \<longrightarrow> r \<noteq> DAC_data \<longrightarrow> r \<noteq> ADF_data \<longrightarrow> memory s' r = memory s r)
      \<and> memory s' Dac_val = [memory s Rx_buffer ! i] \<and> cmd_errors s' = cmd_errors s
      \<and> bus_writes SPI_1_DAC_BASE (io s') = bus_writes SPI_1_DAC_BASE (io s) @ dac_sent (memory s Rx_buffer ! i)
      \<and> bus_writes SPI_1_ADF_BASE (io s') = bus_writes SPI_1_ADF_BASE (io s) @ adf_reset)"
  unfolding run.simps seq_Ret_right
proof (rule post_seq [OF Control_TCXO_ADF_reset_exact [OF adf wf]])
  fix u assume u: "spi_sends_all SPI_1_ADF_BASE 0
        [[0x1f, 0x81, 0xf3], [0x1f, 0x81, 0xf2], [0x00, 0x01, 0xf4], [0x01, 0x80, 0x01]]
        (s\<lparr>memory := (memory s)(ADF_data := adf_init)\<rparr>) u"
  let ?d = "memory s Rx_buffer ! i"
  have only: "only_io (s\<lparr>memory := (memory s)(ADF_data := adf_init)\<rparr>) u"
    and ext: "extends (at_window SPI_1_ADF_BASE) (io s) (io u)"
    and reset: "bus_writes SPI_1_ADF_BASE (io u) = bus_writes SPI_1_ADF_BASE (io s) @ adf_reset"
    using u by (simp_all add: spi_sends_all_def adf_reset_def)
  then have mem: "memory u = (memory s)(ADF_data := adf_init)" and wfu: "well_formed u"
    and errs: "cmd_errors u = cmd_errors s"
    using wf by (auto simp: only_io_def only_memory_def well_formed_def adf_init_def)
  have "length (memory s Dac_val) = 1" using wf by simp
  then obtain d where d: "memory s Dac_val = [d]" by (auto simp: length_Suc_conv)
  let ?v = "u\<lparr>memory := (memory u)(Dac_val := [?d])\<rparr>"
  have pk: "seq (peek (Rx_buffer, i) u) (\<lambda>v. poke (Dac_val, 0) v u) = Ret ?v"
    using wf wfu i d by (simp add: poke_Ret mem)
  have wfv: "well_formed ?v" using wfu by (simp add: well_formed_def)
  have "post (Control_TCXO_DAC dev 1 (Dac_val, 0) ?v)
     (\<lambda>s'. only_io (?v\<lparr>memory := (memory ?v)(DAC_data := dac_bytes 1 ?d)\<rparr>) s'
        \<and> extends (at_window SPI_1_DAC_BASE) (io u) (io s')
        \<and> bus_writes SPI_1_DAC_BASE (io s') = bus_writes SPI_1_DAC_BASE (io u) @ dac_sent ?d)"
    using Control_TCXO_DAC_exact [OF dac wfv, of 1 0 Dac_val] by (simp add: dac_bytes_def dac_sent_def)
  then show "post (seq (seq (peek (Rx_buffer, i) u) (\<lambda>v. poke (Dac_val, 0) v u)) (Control_TCXO_DAC dev 1 (Dac_val, 0)))
    (\<lambda>s'. well_formed s' \<and> (\<forall>r. r \<noteq> Dac_val \<longrightarrow> r \<noteq> DAC_data \<longrightarrow> r \<noteq> ADF_data \<longrightarrow> memory s' r = memory s r)
      \<and> memory s' Dac_val = [?d] \<and> cmd_errors s' = cmd_errors s
      \<and> bus_writes SPI_1_DAC_BASE (io s') = bus_writes SPI_1_DAC_BASE (io s) @ dac_sent ?d
      \<and> bus_writes SPI_1_ADF_BASE (io s') = bus_writes SPI_1_ADF_BASE (io s) @ adf_reset)"
    unfolding pk seq.simps
    by (rule post_mono)
      (use wfv in \<open>auto simp: only_io_def only_memory_def well_formed_def mem errs reset
        ADF_DAC_apart [OF ext] DAC_ADF_apart dac_bytes_def\<close>)
qed

lemma analog_write_block_exact:
  assumes dac: "spi_core dev SPI_1_DAC_BASE" and adf: "spi_core dev SPI_1_ADF_BASE"
    and i: "i < 14" and u: "analog_written i s u"
  shows "post (analog_write_block dev i u) (analog_written (Suc i) s)"
proof -
  have wfu: "well_formed u" and rx: "memory u Rx_buffer = memory s Rx_buffer"
    using u by (simp_all add: analog_written_def)
  note room = well_formed_length [OF wfu, of Rx_buffer, unfolded rx extent.simps]
  have len: "Suc i - length (settings (memory s) i) = Suc (i - length (settings (memory s) i))"
    using length_settings [of "memory s" i] by simp
  show ?thesis
  proof (cases "dac_setting (memory s) i")
    case True
    then have run: "analog_write_block dev i u = run [Control_TCXO_ADF dev 0 (Null, 0),
                \<lambda>s. seq (peek (Rx_buffer, 11 + 4 * i) s) (\<lambda>v. poke (Dac_val, 0) v s),
                Control_TCXO_DAC dev 1 (Dac_val, 0)] u"
      using room i by (simp add: analog_write_block_def layout rx dac_setting_def mult.commute)
    show ?thesis
      unfolding run
      by (rule post_mono [OF dac_set_exact [OF dac adf wfu]])
        (use i u True rx in \<open>auto simp: analog_written_def settings_Suc replicate_append_same [symmetric]\<close>)
  next
    case False
    then have "analog_write_block dev i u = count_error u"
      using room i by (simp add: analog_write_block_def layout rx dac_setting_def mult.commute)
    then show ?thesis
      using u False by (simp add: count_error_def analog_written_def settings_Suc len)
  qed
qed

lemma cmd_ANALOG_VAL_WR_exact:
  assumes dac: "spi_core dev SPI_1_DAC_BASE" and adf: "spi_core dev SPI_1_ADF_BASE"
    and wf: "well_formed s" and n: "unat (memory s Rx_buffer ! Data_blocks) \<le> 14"
  shows "post (cmd_ANALOG_VAL_WR dev s) (\<lambda>s'. \<exists>u. analog_written (unat (memory s Rx_buffer ! Data_blocks)) s u
    \<and> s' = u\<lparr>memory := (memory u)(Tx_buffer := (memory s Tx_buffer)[Status :=
        if cmd_errors u \<noteq> 0 then STATUS_ERROR_CMD else STATUS_COMPLETED_CMD])\<rparr>)"
proof -
  let ?n = "unat (memory s Rx_buffer ! Data_blocks)"
  have "length (memory s Dac_val) = 1" using wf by simp
  then obtain d where "memory s Dac_val = [d]" by (auto simp: length_Suc_conv)
  then have "analog_written 0 s s" using wf by (simp add: analog_written_def settings_def)
  then have "post (for_up (analog_write_block dev) 0 ?n s) (analog_written (0 + ?n) s)"
    by (rule for_up_post) (use n in \<open>auto intro: analog_write_block_exact [OF dac adf]\<close>)
  moreover have "memory u Tx_buffer = memory s Tx_buffer" "well_formed u" if "analog_written ?n s u" for u
    using that by (simp_all add: analog_written_def)
  ultimately show ?thesis
    using n wf by (auto simp: cmd_ANALOG_VAL_WR_def blocks_fit for_blocks_Ret set_status_Ret
        elim!: post_seq)
qed

section \<open>More analog channels than fit\<close>

lemma analog_read_block_effect:
  assumes "effect ({Tx_buffer} \<times> {8..<64}) command_buses s0 s" and "i < 14"
  shows "runs L (analog_read_block dev i s) (effect ({Tx_buffer} \<times> {8..<64}) command_buses s0)"
  using assms
  by (auto simp: analog_read_block_def layout simp: effect_well_formed intro!: done_rules effect_rules)

lemma analog_overrun:
  assumes wf: "well_formed s" and n: "14 < unat (memory s Rx_buffer ! Data_blocks)"
    and ch: "memory s Rx_buffer ! 22 \<in> {0, 1}"
  shows "cmd_ANALOG_VAL_RD dev s = Undef"
proof -
  define k where "k = unat (memory s Rx_buffer ! Data_blocks) - 15"
  then have n': "unat (memory s Rx_buffer ! Data_blocks) = 14 + Suc k" using n by simp
  let ?E = "effect ({Tx_buffer} \<times> {8..<64}) command_buses s"
  have first: "yields (for_up (analog_read_block dev) 0 14 s) ?E"
    by (rule runs_yields [OF for_up_effect [OF effect_refl [OF wf]]])
      (auto intro: analog_read_block_effect)
  have over: "analog_read_block dev 14 u = Undef" if u: "?E u" for u
  proof -
    have wfu: "well_formed u" using u by (rule effect_well_formed)
    have out: "poke (Tx_buffer, 64) v w = Undef" if "well_formed w" for v w
      using that by (simp add: poke_def store_def)
    have temp: "\<exists>w. read_temperature dev u = Ret w \<and> well_formed w"
      using read_temperature_exact [of dev u] wfu by (auto simp: yields_Ret only_io_def well_formed_def)
    consider "memory u Rx_buffer ! 22 = 0" | "memory u Rx_buffer ! 22 = 1"
      using ch effect_memory [OF u, of Rx_buffer 22] by auto
    then show ?thesis
      using wfu temp out by cases (auto simp: analog_read_block_def layout)
  qed
  have "for_up (analog_read_block dev) 0 (14 + Suc k) s = Undef"
    unfolding for_up_append
    by (rule yields_seq_Undef [OF first]) (simp add: over)
  then show ?thesis
    by (simp add: cmd_ANALOG_VAL_RD_def for_blocks_Ret [OF wf] n')
qed

text \<open>A command that is refused: the status BLOCKS_ERROR, and nothing else.\<close>

definition refuses :: "action \<Rightarrow> machine \<Rightarrow> bool" where
  "refuses cmd s = (cmd s = Ret (s\<lparr>memory := (memory s)
     (Tx_buffer := (memory s Tx_buffer)[Status := STATUS_BLOCKS_ERROR_CMD])\<rparr>))"

section \<open>Properties\<close>

text \<open>Property C4. When the blocks of \<open>CMD_LMS7002_WR\<close> or \<open>CMD_BRDSPI16_WR\<close> fit in the packet, each is
  sent in a transaction of its own, in order, its address with the write bit set: to the LMS7002M and
  to the board registers respectively; the response only gets the status.\<close>

theorem registers_are_written:
  assumes "spi_ok dev" and "well_formed s" and "unat (memory s Rx_buffer ! Data_blocks) \<le> 14"
  shows "(\<exists>s'. cmd_LMS7002_WR dev s = Ret s' \<and> registers_written 0 s s')
    \<and> (\<exists>s'. cmd_BRDSPI16_WR dev s = Ret s' \<and> registers_written 1 s s')"
proof -
  have e: "command_effect s s" using assms(2) by (rule effect_refl)
  have core: "spi_core dev SPI_LMS_BASE" using assms(1) by (simp add: spi_ok_def)
  have "post (cmd_LMS7002_WR dev s) (registers_written 0 s)" "post (cmd_BRDSPI16_WR dev s) (registers_written 1 s)"
    using register_write_exact [OF core assms(2,3)] assms(3)
    by (simp_all add: spi_commands blocks_fit [OF assms(2)] SPI_NR_LMS7002M_def SPI_NR_BRD_def del: run.simps)
  with spi_write_blocks_done [OF e, of dev] assms(1) show ?thesis
    by (meson runs_returns)
qed

lemma registers_are_written_witness:
  "(\<exists>s'. cmd_LMS7002_WR echo_board (with_packet [0x21, 0, 2] [0x00, 0x20, 0xFF, 0xFD]) = Ret s'
      \<and> registers_written 0 (with_packet [0x21, 0, 2] [0x00, 0x20, 0xFF, 0xFD]) s')
    \<and> (\<exists>s'. cmd_BRDSPI16_WR echo_board (with_packet [0x21, 0, 2] [0x00, 0x20, 0xFF, 0xFD]) = Ret s'
      \<and> registers_written 1 (with_packet [0x21, 0, 2] [0x00, 0x20, 0xFF, 0xFD]) s')"
  by (rule registers_are_written [OF echo_board_ok with_packet_well_formed]) (simp add: with_packet_def)

text \<open>Property C5. When the blocks of \<open>CMD_LMS7002_RD\<close> or \<open>CMD_BRDSPI16_RD\<close> fit in the packet, each
  register is read in a transaction of its own: the address with its write bit clear and two dummy
  bytes are sent, five words received (the one left over, two for the address, two for the value),
  and the last two are the value bytes of that block of the response; its other bytes stay.\<close>

theorem registers_are_read:
  assumes "spi_ok dev" and "well_formed s" and "unat (memory s Rx_buffer ! Data_blocks) \<le> 14"
  shows "(\<exists>s'. cmd_LMS7002_RD dev s = Ret s' \<and> registers_read 0 s s')
    \<and> (\<exists>s'. cmd_BRDSPI16_RD dev s = Ret s' \<and> registers_read 1 s s')"
proof -
  have e: "command_effect s s" using assms(2) by (rule effect_refl)
  have core: "spi_core dev SPI_LMS_BASE" using assms(1) by (simp add: spi_ok_def)
  have "post (cmd_LMS7002_RD dev s) (registers_read 0 s)" "post (cmd_BRDSPI16_RD dev s) (registers_read 1 s)"
    using register_read_exact [OF core assms(2,3)] assms(3)
    by (simp_all add: spi_commands blocks_fit [OF assms(2)] SPI_NR_LMS7002M_def SPI_NR_BRD_def del: run.simps)
  with spi_read_blocks_done [OF e, of dev] assms(1) show ?thesis
    by (meson runs_returns)
qed

lemma registers_are_read_witness:
  "(\<exists>s'. cmd_LMS7002_RD echo_board (with_packet [0x22, 0, 2] [0x00, 0x20, 0xFF, 0xFD]) = Ret s'
      \<and> registers_read 0 (with_packet [0x22, 0, 2] [0x00, 0x20, 0xFF, 0xFD]) s')
    \<and> (\<exists>s'. cmd_BRDSPI16_RD echo_board (with_packet [0x22, 0, 2] [0x00, 0x20, 0xFF, 0xFD]) = Ret s'
      \<and> registers_read 1 (with_packet [0x22, 0, 2] [0x00, 0x20, 0xFF, 0xFD]) s')"
  by (rule registers_are_read [OF echo_board_ok with_packet_well_formed]) (simp add: with_packet_def)

text \<open>When the blocks do not fit in the packet, each command that checks sets the status
  BLOCKS_ERROR and does nothing else: no bus access, no other byte.\<close>

lemma too_many_blocks:
  assumes "well_formed s" and "14 < unat (memory s Rx_buffer ! Data_blocks)"
  shows "refuses (cmd_LMS7002_WR dev) s \<and> refuses (cmd_LMS7002_RD dev) s
    \<and> refuses (cmd_BRDSPI16_WR dev) s \<and> refuses (cmd_BRDSPI16_RD dev) s
    \<and> refuses (cmd_ANALOG_VAL_WR dev) s
    \<and> (unat (memory s Rx_buffer ! Data_blocks) \<le> 18 \<or> refuses (cmd_ADF4002_WR dev) s)"
  using assms by (auto simp: cmd_LMS7002_WR_def cmd_LMS7002_RD_def cmd_BRDSPI16_WR_def cmd_BRDSPI16_RD_def
      cmd_ANALOG_VAL_WR_def cmd_ADF4002_WR_def blocks_fit refuses_def simp del: run.simps)

lemma too_many_blocks_witness:
  "refuses (cmd_LMS7002_WR echo_board) (with_packet [0x21, 0, 19] [])
    \<and> refuses (cmd_LMS7002_RD echo_board) (with_packet [0x21, 0, 19] [])
    \<and> refuses (cmd_BRDSPI16_WR echo_board) (with_packet [0x21, 0, 19] [])
    \<and> refuses (cmd_BRDSPI16_RD echo_board) (with_packet [0x21, 0, 19] [])
    \<and> refuses (cmd_ANALOG_VAL_WR echo_board) (with_packet [0x21, 0, 19] [])
    \<and> (unat (memory (with_packet [0x21, 0, 19] []) Rx_buffer ! Data_blocks) \<le> 18
       \<or> refuses (cmd_ADF4002_WR echo_board) (with_packet [0x21, 0, 19] []))"
  by (rule too_many_blocks [OF with_packet_well_formed]) (simp add: with_packet_def)

text \<open>The GPIO direction and value commands write the board's GPIO registers \<open>0xC4\<close> and
  \<open>0xC6\<close>, and read \<open>0xC4\<close> and \<open>0xC2\<close>, swapping the two bytes, which the packet has least
  significant first and the bus most significant first.\<close>

lemma gpio_registers:
  assumes "spi_ok dev" and "well_formed s"
  shows "(\<exists>s'. cmd_GPIO_DIR_WR dev s = Ret s' \<and> gpio_written 0xC4 s s')
    \<and> (\<exists>s'. cmd_GPIO_WR dev s = Ret s' \<and> gpio_written 0xC6 s s')
    \<and> (\<exists>s'. cmd_GPIO_DIR_RD dev s = Ret s' \<and> gpio_read_back 0xC4 s s')
    \<and> (\<exists>s'. cmd_GPIO_RD dev s = Ret s' \<and> gpio_read_back 0xC2 s s')"
proof -
  have e: "command_effect s s" using assms(2) by (rule effect_refl)
  have core: "spi_core dev SPI_LMS_BASE" using assms(1) by (simp add: spi_ok_def)
  show ?thesis
    unfolding cmd_GPIO_DIR_WR_def cmd_GPIO_WR_def cmd_GPIO_DIR_RD_def cmd_GPIO_RD_def
    using runs_returns [OF gpio_done(1) [OF e] assms(1) gpio_write_exact [OF core assms(2)]]
      runs_returns [OF gpio_done(2) [OF e] assms(1) gpio_read_exact [OF core assms(2)]]
    by blast
qed

lemma gpio_registers_witness:
  "(\<exists>s'. cmd_GPIO_DIR_WR echo_board (with_packet [0x4F, 0, 1] [0x0F, 0xF0]) = Ret s'
      \<and> gpio_written 0xC4 (with_packet [0x4F, 0, 1] [0x0F, 0xF0]) s')
    \<and> (\<exists>s'. cmd_GPIO_WR echo_board (with_packet [0x4F, 0, 1] [0x0F, 0xF0]) = Ret s'
      \<and> gpio_written 0xC6 (with_packet [0x4F, 0, 1] [0x0F, 0xF0]) s')
    \<and> (\<exists>s'. cmd_GPIO_DIR_RD echo_board (with_packet [0x4F, 0, 1] [0x0F, 0xF0]) = Ret s'
      \<and> gpio_read_back 0xC4 (with_packet [0x4F, 0, 1] [0x0F, 0xF0]) s')
    \<and> (\<exists>s'. cmd_GPIO_RD echo_board (with_packet [0x4F, 0, 1] [0x0F, 0xF0]) = Ret s'
      \<and> gpio_read_back 0xC2 (with_packet [0x4F, 0, 1] [0x0F, 0xF0]) s')"
  by (rule gpio_registers [OF echo_board_ok with_packet_well_formed])

text \<open>\<open>CMD_ADF4002_WR\<close> first puts the DAC into three-state, then sends each three-byte block
  to the ADF4002 in a transaction of its own, and completes.\<close>

lemma adf_is_written:
  assumes "spi_ok dev" and "well_formed s" and "unat (memory s Rx_buffer ! Data_blocks) \<le> 18"
    and "cmd_errors s = 0"
  shows "\<exists>s'. cmd_ADF4002_WR dev s = Ret s' \<and> adf_written s s'"
  using assms runs_returns [OF cmd_ADF4002_WR_done [OF effect_refl] _ cmd_ADF4002_WR_exact]
  by (auto simp: spi_ok_def)

lemma adf_is_written_witness:
  "\<exists>s'. cmd_ADF4002_WR echo_board (with_packet [0x31, 0, 2] [1, 2, 3, 4, 5, 6]) = Ret s'
     \<and> adf_written (with_packet [0x31, 0, 2] [1, 2, 3, 4, 5, 6]) s'"
  by (rule adf_is_written [OF echo_board_ok with_packet_well_formed])
    (simp_all add: with_packet_def initial_machine_def)

text \<open>Property C9. \<open>CMD_ANALOG_VAL_WR\<close> goes through the blocks in order; each DAC setting (channel 0, raw
  units, high byte 0) resets the ADF4002 and sends the value to the DAC; every other block is counted,
  and the status is ERROR exactly when there was one.  The last setting is remembered.\<close>

theorem analog_values_are_written:
  assumes "spi_ok dev" and "well_formed s" and "unat (memory s Rx_buffer ! Data_blocks) \<le> 14"
  shows "\<exists>s' u. cmd_ANALOG_VAL_WR dev s = Ret s' \<and> analog_written (unat (memory s Rx_buffer ! Data_blocks)) s u
    \<and> s' = u\<lparr>memory := (memory u)(Tx_buffer := (memory s Tx_buffer)[Status :=
        if cmd_errors u \<noteq> 0 then STATUS_ERROR_CMD else STATUS_COMPLETED_CMD])\<rparr>"
  using assms runs_returns [OF cmd_ANALOG_VAL_WR_done [OF effect_refl] _ cmd_ANALOG_VAL_WR_exact]
  by (auto simp: spi_ok_def)

lemma analog_values_are_written_witness:
  "\<exists>s' u. cmd_ANALOG_VAL_WR echo_board (with_packet [0x61, 0, 2] [0, 0, 0, 200, 1, 0, 0, 7]) = Ret s'
    \<and> analog_written (unat (memory (with_packet [0x61, 0, 2] [0, 0, 0, 200, 1, 0, 0, 7]) Rx_buffer ! Data_blocks))
        (with_packet [0x61, 0, 2] [0, 0, 0, 200, 1, 0, 0, 7]) u
    \<and> s' = u\<lparr>memory := (memory u)(Tx_buffer :=
        (memory (with_packet [0x61, 0, 2] [0, 0, 0, 200, 1, 0, 0, 7]) Tx_buffer)[Status :=
        if cmd_errors u \<noteq> 0 then STATUS_ERROR_CMD else STATUS_COMPLETED_CMD])\<rparr>"
  by (rule analog_values_are_written [OF echo_board_ok with_packet_well_formed]) (simp add: with_packet_def)

text \<open>Property C10. \<open>CMD_ANALOG_VAL_RD\<close> does not check the number of blocks: with more than 14, when the
  15th channel is a channel there is, the response is written past the end of the packet buffer.\<close>

theorem analog_read_overrun:
  assumes "well_formed s" and "14 < unat (memory s Rx_buffer ! Data_blocks)"
    and "memory s Rx_buffer ! 22 \<in> {0, 1}"
  shows "cmd_ANALOG_VAL_RD dev s = Undef"
  using assms by (rule analog_overrun)

lemma analog_read_overrun_witness:
  "cmd_ANALOG_VAL_RD echo_board (with_packet [0x62, 0, 15] []) = Undef"
  by (rule analog_read_overrun [OF with_packet_well_formed]) (simp_all add: with_packet_def nth_append)

end
