(* ===== verification/Mcu.thy ===== *)
theory Mcu
  imports Command_Results "HOL-Library.Sublist"
begin

text \<open>
  \<open>CMD_LMS_MCU_FW_WR\<close> of \<open>main.c\<close>: the firmware of the LMS7002M's microcontroller arrives in
  portions of 32 bytes, numbered in \<open>Data_field[1]\<close>; portion 0 resets the microcontroller and sets
  its mode, each portion is written byte by byte to its FIFO register, and the status register is
  polled before, after, and (for portion 255) until the part reports being programmed.

  The polling loops are instances of \<open>loop\<close>.  \<open>MCU_retries\<close> is a \<open>uint8_t\<close>, so it wraps at 256: a
  limit up to 255 bounds a wait, and the second wait, with limit 500, is not bounded.
\<close>

definition MCU_CONTROL_REG :: u8 where "MCU_CONTROL_REG = 0x02"
definition MCU_STATUS_REG :: u8 where "MCU_STATUS_REG = 0x03"
definition MCU_FIFO_WR_REG :: u8 where "MCU_FIFO_WR_REG = 0x04"
definition PROG_EEPROM :: u8 where "PROG_EEPROM = 1"
definition PROG_SRAM :: u8 where "PROG_SRAM = 2"
definition BOOT_MCU :: u8 where "BOOT_MCU = 3"
definition MAX_MCU_RETRIES :: nat where "MAX_MCU_RETRIES = 30"

section \<open>Operations\<close>

text \<open>Write the four bytes of \<open>sc_brdg_data\<close>; read a register into its first two.\<close>

definition mcu_write :: "device \<Rightarrow> action" where
  "mcu_write dev = spi_command dev SPI_LMS_BASE SPI_NR_LMS7002M 4 (Sc_brdg_data, 0) 0 (Null, 0) 0"

definition mcu_read_status :: "device \<Rightarrow> action" where
  "mcu_read_status dev =
     run [poke (Sc_brdg_data, 0) 0x00, poke (Sc_brdg_data, 1) MCU_STATUS_REG,
          spi_command dev SPI_LMS_BASE SPI_NR_LMS7002M 2 (Sc_brdg_data, 0) 2 (Sc_brdg_data, 0) 0]"

definition reset_retries :: action where
  "reset_retries s = Ret (s\<lparr>MCU_retries := 0\<rparr>)"

text \<open>\<open>while (MCU_retries < limit) { read status; if (status & flag) break; MCU_retries++; usleep(30); }\<close>\<close>

definition mcu_wait_turn :: "device \<Rightarrow> nat \<Rightarrow> u8 \<Rightarrow> machine \<Rightarrow> (machine, machine) turn outcome" where
  "mcu_wait_turn dev limit flag s =
     (if unat (MCU_retries s) < limit then
        seq (mcu_read_status dev s) (\<lambda>s.
        seq (peek (Sc_brdg_data, 1) s) (\<lambda>status.
        if status AND flag \<noteq> 0 then Ret (Break s)
        else seq (delay 30 (s\<lparr>MCU_retries := MCU_retries s + 1\<rparr>)) (\<lambda>s. Ret (Again s))))
      else Ret (Break s))"

definition mcu_wait :: "device \<Rightarrow> nat \<Rightarrow> u8 \<Rightarrow> action" where
  "mcu_wait dev limit flag = loop (mcu_wait_turn dev limit flag)"

text \<open>Portion 0: reset, then the mode; true when the mode boots the part (\<open>goto BOOTING\<close>).\<close>

definition mcu_start :: "device \<Rightarrow> machine \<Rightarrow> (bool \<times> machine) outcome" where
  "mcu_start dev s =
     seq (run [poke (Sc_brdg_data, 0) 0x80, poke (Sc_brdg_data, 1) MCU_CONTROL_REG,
               poke (Sc_brdg_data, 2) 0x00, poke (Sc_brdg_data, 3) 0x00, mcu_write dev,
               poke (Sc_brdg_data, 0) 0x80, poke (Sc_brdg_data, 1) MCU_CONTROL_REG,
               poke (Sc_brdg_data, 2) 0x00] s) (\<lambda>s.
     seq (peek (rx_data 0) s) (\<lambda>mode.
     if mode = PROG_EEPROM then
       seq (run [poke (Sc_brdg_data, 3) 0x01, mcu_write dev] s) (\<lambda>s. Ret (False, s))
     else if mode = PROG_SRAM then
       seq (run [poke (Sc_brdg_data, 3) 0x02, mcu_write dev] s) (\<lambda>s. Ret (False, s))
     else if mode = BOOT_MCU then
       seq (run [poke (Sc_brdg_data, 3) 0x03, mcu_write dev, mcu_read_status dev] s) (\<lambda>s. Ret (True, s))
     else Ret (False, s)))"

definition mcu_write_fifo :: "device \<Rightarrow> nat \<Rightarrow> action" where
  "mcu_write_fifo dev block =
     run [poke (Sc_brdg_data, 0) 0x80, poke (Sc_brdg_data, 1) MCU_FIFO_WR_REG,
          poke (Sc_brdg_data, 2) 0x00,
          \<lambda>s. seq (peek (rx_data (2 + block)) s) (\<lambda>v. poke (Sc_brdg_data, 3) v s),
          mcu_write dev, reset_retries]"

definition mcu_check_programmed :: "device \<Rightarrow> action" where
  "mcu_check_programmed dev s =
     (if current_portion s = 255 then
        run [reset_retries, mcu_wait dev MAX_MCU_RETRIES 0x40,
             \<lambda>s. if unat (MCU_retries s) = MAX_MCU_RETRIES then count_error s else Ret s] s
      else Ret s)"

definition mcu_program :: "device \<Rightarrow> action" where
  "mcu_program dev =
     run [reset_retries, mcu_wait dev MAX_MCU_RETRIES 0x01,
          for_up (mcu_write_fifo dev) 0 32,
          reset_retries, mcu_wait dev 500 0x01,
          mcu_check_programmed dev,
          \<lambda>s. Ret (s\<lparr>last_portion := current_portion s\<rparr>)]"

definition mcu_in_order :: "machine \<Rightarrow> bool" where
  "mcu_in_order s = (current_portion s = 0 \<or> last_portion s = current_portion s - 1)"

definition cmd_LMS_MCU_FW_WR :: "device \<Rightarrow> action" where
  "cmd_LMS_MCU_FW_WR dev s =
     seq (peek (rx_data 1) s) (\<lambda>portion.
     let s = s\<lparr>current_portion := ucast portion\<rparr> in
     if \<not> mcu_in_order s then set_status STATUS_WRONG_ORDER_CMD s
     else
       seq (if current_portion s = 0 then mcu_start dev s else Ret (False, s)) (\<lambda>(booting, s).
       seq (if booting then Ret s else mcu_program dev s) (\<lambda>s.
       set_status (if cmd_errors s \<noteq> 0 then STATUS_ERROR_CMD else STATUS_COMPLETED_CMD) s)))"

section \<open>Effects\<close>

lemma mcu_write_effect [effect_rules]:
  "command_effect s0 s \<Longrightarrow> runs (spi_ok dev) (mcu_write dev s) (command_effect s0)"
  unfolding mcu_write_def by (auto intro!: effect_rules)

lemma mcu_read_status_effect [effect_rules]:
  "command_effect s0 s \<Longrightarrow> runs (spi_ok dev) (mcu_read_status dev s) (command_effect s0)"
  unfolding mcu_read_status_def by (auto intro!: effect_rules command_bytes_bridge)

lemma reset_retries_effect [effect_rules]:
  "effect W B s0 s \<Longrightarrow> runs L (reset_retries s) (effect W B s0)"
  by (simp add: reset_retries_def)

lemma mcu_wait_turn_effect:
  assumes "command_effect s0 s"
  shows "runs (spi_ok dev) (mcu_wait_turn dev limit flag s)
    (\<lambda>w. case w of Again s' \<Rightarrow> command_effect s0 s' | Break s' \<Rightarrow> command_effect s0 s')"
  unfolding mcu_wait_turn_def
  using assms
  by (auto intro!: runs_seq [OF mcu_read_status_effect [OF assms]] runs_seq [OF delay_effect]
      simp: effect_well_formed)

lemma mcu_wait_turn_retries:
  assumes "mcu_wait_turn dev limit flag s = Ret (Again s')" and "limit \<le> 255"
  shows "unat (MCU_retries s') = Suc (unat (MCU_retries s)) \<and> unat (MCU_retries s) < limit"
proof -
  from assms(1) obtain s1 v where lt: "unat (MCU_retries s) < limit"
    and st: "mcu_read_status dev s = Ret s1" and s': "MCU_retries s' = MCU_retries s1 + 1"
    by (auto simp: mcu_wait_turn_def delay_def seq_eq_Ret split: if_splits)
  have "MCU_retries s1 = MCU_retries s"
    using st by (auto simp: mcu_read_status_def poke_def spi_command_def seq_eq_Ret)
  moreover have "unat (MCU_retries s + 1) = Suc (unat (MCU_retries s))"
    using lt assms(2) by (simp add: unat_plus_if')
  ultimately show ?thesis using lt s' by simp
qed

lemma mcu_wait_effect:
  assumes "command_effect s0 s"
  shows "runs (spi_ok dev \<and> limit \<le> 255) (mcu_wait dev limit flag s) (command_effect s0)"
proof -
  have "post (mcu_wait dev limit flag s) (command_effect s0)"
    unfolding mcu_wait_def
    by (rule loop_post [where I = "command_effect s0"])
      (use assms runs_post [OF mcu_wait_turn_effect] in auto)
  moreover have "mcu_wait dev limit flag s \<noteq> Hang" if ok: "spi_ok dev" and limit: "limit \<le> 255"
    unfolding mcu_wait_def
  proof (rule loop_terminates [where I = "command_effect s0" and f = "\<lambda>s. limit - unat (MCU_retries s)"])
    show "command_effect s0 s" by (rule assms)
    show "command_effect s0 s2 \<and> limit - unat (MCU_retries s2) < limit - unat (MCU_retries s1)"
      if "command_effect s0 s1" and again: "mcu_wait_turn dev limit flag s1 = Ret (Again s2)" for s1 s2
      using mcu_wait_turn_retries [OF again limit]
        post_RetD [OF runs_post [OF mcu_wait_turn_effect [OF that(1)]] again] by auto
    show "mcu_wait_turn dev limit flag s1 \<noteq> Hang" if "command_effect s0 s1" for s1
      using mcu_wait_turn_effect [OF that, of dev limit flag] ok by (simp add: runs_def)
  qed
  ultimately show ?thesis by (simp add: runs_def)
qed

lemma mcu_start_effect:
  assumes "command_effect s0 s"
  shows "runs (spi_ok dev) (mcu_start dev s) (\<lambda>x. command_effect s0 (snd x))"
  unfolding mcu_start_def run.simps seq_Ret_right
  using assms
  by (auto intro!: effect_rules simp: layout effect_well_formed)

lemma run_effect_False:
  "runs (spi_ok dev) m Q \<Longrightarrow> runs False m Q"
  by (simp add: runs_def)

lemma cmd_LMS_MCU_FW_WR_done:
  assumes "command_effect s0 s"
  shows "runs False (cmd_LMS_MCU_FW_WR dev s) (command_done s0)"
proof -
  have wait: "runs False (mcu_wait dev limit flag u) (command_effect s0)" if "command_effect s0 u" for limit flag u
    using mcu_wait_effect [OF that, of dev limit flag] by (simp add: runs_def)
  have fifo: "runs False (mcu_write_fifo dev i u) (command_effect s0)" if "i < 32" "command_effect s0 u" for i u
    unfolding mcu_write_fifo_def run.simps
    by (rule run_effect_False [of dev]) (use that in \<open>auto intro!: effect_rules simp: layout effect_well_formed\<close>)
  have "runs False (mcu_check_programmed dev u) (command_effect s0)" if "command_effect s0 u" for u
    unfolding mcu_check_programmed_def run.simps
    using that by (auto intro!: effect_rules wait)
  then have program: "runs False (mcu_program dev u) (command_effect s0)" if "command_effect s0 u" for u
    unfolding mcu_program_def run.simps
    using that by (auto intro!: effect_rules wait fifo)
  have start: "runs False (mcu_start dev u) (\<lambda>x. command_effect s0 (snd x))"
    if "command_effect s0 u" for u
    using mcu_start_effect [OF that, of dev] by (simp add: runs_def)
  show ?thesis
    unfolding cmd_LMS_MCU_FW_WR_def Let_def
    using assms
    by (auto intro!: done_rules effect_rules runs_seq [OF start] program simp: layout effect_well_formed)
qed

section \<open>The traffic of a download\<close>

text \<open>Only the bridge buffer changed in memory, no download state did, and the bus saw \<open>frames\<close>.\<close>

definition mcu_sends :: "u32 list list \<Rightarrow> machine \<Rightarrow> machine \<Rightarrow> bool" where
  "mcu_sends frames s s' =
     (well_formed s' \<and> (\<forall>r. r \<noteq> Sc_brdg_data \<longrightarrow> memory s' r = memory s r)
      \<and> last_portion s' = last_portion s \<and> current_portion s' = current_portion s
      \<and> cmd_errors s' = cmd_errors s
      \<and> bus_writes SPI_LMS_BASE (io s') =
          bus_writes SPI_LMS_BASE (io s) @ concat (map (spi_transaction SPI_NR_LMS7002M 0) frames))"

lemma mcu_sends_trans:
  "mcu_sends fs s s' \<Longrightarrow> mcu_sends gs s' s'' \<Longrightarrow> mcu_sends (fs @ gs) s s''"
  by (simp add: mcu_sends_def)

lemma mcu_sends_retries [simp]: "mcu_sends fs s (s'\<lparr>MCU_retries := k\<rparr>) = mcu_sends fs s s'"
  by (simp add: mcu_sends_def)

definition status_frame :: "u32 list" where
  "status_frame = [0, ucast MCU_STATUS_REG, 0, 0]"

definition fifo_frame :: "region memory \<Rightarrow> nat \<Rightarrow> u32 list" where
  "fifo_frame m i = [0x80, ucast MCU_FIFO_WR_REG, 0, ucast (m Rx_buffer ! (10 + i))]"

lemma bridge_four: "well_formed s \<Longrightarrow> \<exists>a b c d. memory s Sc_brdg_data = [a, b, c, d]"
  by (rule list_of_four) simp

text \<open>
  What a status poll sees: the answer of the hardware when the four bytes of the poll have been
  sent (the bus writes of its transaction so far) and the word received for the last is unread.
\<close>

definition status_answer :: "device \<Rightarrow> trace \<Rightarrow> u8 \<Rightarrow> bool" where
  "status_answer dev t v =
     (\<exists>u. bus_writes SPI_LMS_BASE u =
          bus_writes SPI_LMS_BASE t @ spi_opening SPI_NR_LMS7002M 0 status_frame
        \<and> spi_unread SPI_LMS_BASE u \<and> v = ucast (dev u (reg_address SPI_LMS_BASE SPI_RXDATA)))"

lemma mcu_read_status_exact:
  assumes core: "spi_core dev SPI_LMS_BASE" and wf: "well_formed s"
  shows "post (mcu_read_status dev s) (\<lambda>s'. mcu_sends [status_frame] s s'
     \<and> MCU_retries s' = MCU_retries s
     \<and> status_answer dev (io s) (memory s' Sc_brdg_data ! 1))"
proof -
  obtain a b c d where sc: "memory s Sc_brdg_data = [a, b, c, d]"
    using bridge_four [OF wf] by blast
  let ?s = "s\<lparr>memory := (memory s)(Sc_brdg_data := [0, MCU_STATUS_REG, c, d])\<rparr>"
  let ?p = "(Sc_brdg_data, 0)"
  have run: "mcu_read_status dev s = spi_command dev SPI_LMS_BASE SPI_NR_LMS7002M 2 ?p 2 ?p 0 ?s"
    using sc by (simp add: mcu_read_status_def poke_Ret)
  have wf': "well_formed ?s" using wf by (simp add: well_formed_def)
  have spi: "post (mcu_read_status dev s) (\<lambda>s'. spi_exchanges SPI_LMS_BASE SPI_NR_LMS7002M 2 ?p 2 ?p ?s s'
      \<and> spi_last_word dev SPI_LMS_BASE SPI_NR_LMS7002M 0 (sent_bytes (memory ?s) ?p 2 2) (io ?s) (io s'))"
    unfolding run
    by (intro post_conj spi_command_exchanges [OF core wf'] spi_command_last [OF core wf']) simp_all
  have "mcu_sends [status_frame] s s' \<and> MCU_retries s' = MCU_retries s
     \<and> status_answer dev (io s) (memory s' Sc_brdg_data ! 1)"
    if ex: "spi_exchanges SPI_LMS_BASE SPI_NR_LMS7002M 2 ?p 2 ?p ?s s'"
      and final: "spi_last_word dev SPI_LMS_BASE SPI_NR_LMS7002M 0 (sent_bytes (memory ?s) ?p 2 2) (io ?s) (io s')"
    for s'
  proof -
    from ex obtain stale ignored rxs where rx: "length rxs = 2"
      "bus_reads SPI_LMS_BASE SPI_RXDATA (io s') =
         bus_reads SPI_LMS_BASE SPI_RXDATA (io ?s) @ stale # ignored @ rxs"
      "bytes_at (memory s') ?p 2 = map ucast rxs"
      by (auto simp: spi_exchanges_def spi_done_def)
    have sent: "sent_bytes (memory ?s) ?p 2 2 = status_frame"
      by (simp add: sent_bytes_def bytes_at_def status_frame_def replicate_two)
    moreover have wo: "writes_only ?p 2 (memory ?s) (memory s')"
      using ex by (simp add: spi_exchanges_def)
    ultimately have sends: "mcu_sends [status_frame] s s'"
      using ex wf' writes_only_length [OF wo] writes_only_other [OF wo]
      by (auto simp: mcu_sends_def spi_exchanges_def spi_done_def only_memory_def well_formed_def)
    have retries: "MCU_retries s' = MCU_retries s"
      using ex by (simp add: spi_exchanges_def only_memory_def)
    have "memory s' Sc_brdg_data ! 1 = bytes_at (memory s') ?p 2 ! 1"
      using writes_only_length [OF wo, of Sc_brdg_data] by (simp add: bytes_at_def)
    then have "memory s' Sc_brdg_data ! 1 = ucast (last rxs)"
      using rx(1,3) by (cases rxs rule: rev_cases) (auto simp: numeral_2_eq_2 nth_append)
    moreover have "last (bus_reads SPI_LMS_BASE SPI_RXDATA (io s')) = last rxs"
      using rx(1,2) by (cases rxs rule: rev_cases) auto
    ultimately have "status_answer dev (io s) (memory s' Sc_brdg_data ! 1)"
      using final sent unfolding status_answer_def spi_last_word_def by auto
    with sends retries show ?thesis by blast
  qed
  with spi show ?thesis by (auto elim: post_mono)
qed

text \<open>One turn of a wait, and a whole wait: some number of status polls.\<close>

lemma mcu_wait_turn_exact:
  assumes core: "spi_core dev SPI_LMS_BASE" and wf: "well_formed s"
  shows "post (mcu_wait_turn dev limit flag s) (\<lambda>w. case w of
      Again s' \<Rightarrow> mcu_sends [status_frame] s s' \<and> MCU_retries s' = MCU_retries s + 1
        \<and> unat (MCU_retries s) < limit
    | Break s' \<Rightarrow> MCU_retries s' = MCU_retries s
        \<and> (if unat (MCU_retries s) < limit then mcu_sends [status_frame] s s' else s' = s))"
proof (cases "unat (MCU_retries s) < limit")
  case True
  then show ?thesis
    unfolding mcu_wait_turn_def
    by (auto intro!: post_seq [OF mcu_read_status_exact [OF core wf]] simp: delay_def mcu_sends_def)
next
  case False
  then show ?thesis by (simp add: mcu_wait_turn_def)
qed

lemma mcu_wait_exact:
  assumes core: "spi_core dev SPI_LMS_BASE" and wf: "well_formed s"
  shows "post (mcu_wait dev limit flag s) (\<lambda>s'. \<exists>k. mcu_sends (replicate k status_frame) s s'
     \<and> (limit \<le> 255 \<longrightarrow> MCU_retries s = 0 \<longrightarrow>
          k \<le> limit \<and> (0 < limit \<longrightarrow> 0 < k) \<and> (unat (MCU_retries s') = limit \<longrightarrow> k = limit)))"
proof -
  let ?I = "\<lambda>s'. \<exists>k. mcu_sends (replicate k status_frame) s s'
     \<and> (limit \<le> 255 \<longrightarrow> MCU_retries s = 0 \<longrightarrow> k \<le> limit \<and> k = unat (MCU_retries s'))"
  have replicate_snoc: "replicate k x @ [x] = replicate (Suc k) x" for k and x :: "u32 list"
    by (simp add: replicate_append_same)
  show ?thesis
    unfolding mcu_wait_def
  proof (rule loop_post [where I = ?I])
    show "?I s" using wf by (intro exI [of _ 0]) (simp add: mcu_sends_def)
    fix u assume "?I u"
    then obtain k where sofar: "mcu_sends (replicate k status_frame) s u"
      and k: "limit \<le> 255 \<longrightarrow> MCU_retries s = 0 \<longrightarrow> k \<le> limit \<and> k = unat (MCU_retries u)" by blast
    have wfu: "well_formed u" using sofar by (simp add: mcu_sends_def)
    have snoc: "mcu_sends (replicate (Suc k) status_frame) s v" if "mcu_sends [status_frame] u v" for v
      using mcu_sends_trans [OF sofar that] replicate_snoc by simp
    have inc: "unat (MCU_retries u + 1) = Suc (unat (MCU_retries u))"
      if "unat (MCU_retries u) < limit" "limit \<le> 255"
      using that by (simp add: unat_plus_if')
    show "post (mcu_wait_turn dev limit flag u) (\<lambda>w. case w of Again s' \<Rightarrow> ?I s'
        | Break s' \<Rightarrow> \<exists>k. mcu_sends (replicate k status_frame) s s'
            \<and> (limit \<le> 255 \<longrightarrow> MCU_retries s = 0 \<longrightarrow> k \<le> limit \<and> (0 < limit \<longrightarrow> 0 < k)
              \<and> (unat (MCU_retries s') = limit \<longrightarrow> k = limit)))"
    proof (rule post_mono [OF mcu_wait_turn_exact [OF core wfu]], split turn.splits, intro conjI allI impI)
      fix w v
      assume "case w of Again s' \<Rightarrow> mcu_sends [status_frame] u s' \<and> MCU_retries s' = MCU_retries u + 1
            \<and> unat (MCU_retries u) < limit
          | Break s' \<Rightarrow> MCU_retries s' = MCU_retries u
            \<and> (if unat (MCU_retries u) < limit then mcu_sends [status_frame] u s' else s' = u)"
        and w: "w = Again v"
      then show "?I v"
        using snoc [of v] k inc by (intro exI [of _ "Suc k"]) auto
    next
      fix w v
      assume "case w of Again s' \<Rightarrow> mcu_sends [status_frame] u s' \<and> MCU_retries s' = MCU_retries u + 1
            \<and> unat (MCU_retries u) < limit
          | Break s' \<Rightarrow> MCU_retries s' = MCU_retries u
            \<and> (if unat (MCU_retries u) < limit then mcu_sends [status_frame] u s' else s' = u)"
        and w: "w = Break v"
      then show "\<exists>k. mcu_sends (replicate k status_frame) s v
            \<and> (limit \<le> 255 \<longrightarrow> MCU_retries s = 0 \<longrightarrow> k \<le> limit \<and> (0 < limit \<longrightarrow> 0 < k)
              \<and> (unat (MCU_retries v) = limit \<longrightarrow> k = limit))"
        using snoc [of v] k sofar
        by (cases "unat (MCU_retries u) < limit") (auto intro: exI [of _ "Suc k"] exI [of _ k])
    qed
  qed
qed

section \<open>A microcontroller that never becomes ready\<close>

text \<open>
  The moment a status poll reads the status byte, after at least \<open>n\<close> whole status polls in a row:
  the traffic on the bus ends with the \<open>n\<close> polls and the bytes of this one, and the last received
  word is unread.  Nothing is said of other transactions or of other words of a poll.
\<close>

definition status_polled :: "nat \<Rightarrow> trace \<Rightarrow> bool" where
  "status_polled n t =
     (suffix (concat (replicate n (spi_transaction SPI_NR_LMS7002M 0 status_frame))
         @ spi_opening SPI_NR_LMS7002M 0 status_frame) (bus_writes SPI_LMS_BASE t)
      \<and> spi_unread SPI_LMS_BASE t)"

text \<open>The bit \<open>EMPTY_WRITE_BUFF\<close> is never set in a status byte.\<close>

definition mcu_never_ready :: "device \<Rightarrow> bool" where
  "mcu_never_ready dev =
     (\<forall>t. status_polled 0 t \<longrightarrow> dev t (reg_address SPI_LMS_BASE SPI_RXDATA) AND 1 = 0)"

lemma status_answer_polled:
  assumes "status_answer dev t v"
    and "bus_writes SPI_LMS_BASE t = b @ concat (replicate n (spi_transaction SPI_NR_LMS7002M 0 status_frame))"
  obtains u where "status_polled n u" and "v = ucast (dev u (reg_address SPI_LMS_BASE SPI_RXDATA))"
  using assms by (auto simp: status_answer_def status_polled_def suffix_def)

lemma and_one_word: "(x :: 'a::len word) AND 1 = 0 \<longleftrightarrow> \<not> bit x 0"
  by (auto simp: bit_eq_iff [where ?'a = "'a word"] bit_simps intro: gr0I)

lemma low_byte_bit0: "(v :: u32) AND 1 = 0 \<Longrightarrow> (ucast v :: u8) AND 1 = 0"
  by (simp only: and_one_word bit_ucast_iff) simp

lemma well_formed_effect: "well_formed s \<Longrightarrow> command_effect s s"
  by (rule effect_refl)

lemma mcu_wait_500_hangs:
  assumes ok: "spi_ok dev" and never: "mcu_never_ready dev" and wf: "well_formed s"
  shows "mcu_wait dev 500 0x01 s = Hang"
  unfolding mcu_wait_def
proof (rule loop_hangs [where I = well_formed])
  show "well_formed s" by (rule wf)
  fix u assume wfu: "well_formed u"
  have core: "spi_core dev SPI_LMS_BASE" using ok by (simp add: spi_ok_def)
  have "yields (mcu_read_status dev u) (command_effect u)"
    by (rule runs_yields [OF mcu_read_status_effect [OF well_formed_effect [OF wfu]] ok])
  then obtain v where v: "mcu_read_status dev u = Ret v"
    by (auto simp: yields_Ret)
  from post_RetD [OF mcu_read_status_exact [OF core wfu] v]
  have "well_formed v" and answer: "status_answer dev (io u) (memory v Sc_brdg_data ! 1)"
    by (simp_all add: mcu_sends_def)
  moreover from answer obtain t where "status_polled 0 t"
    and "memory v Sc_brdg_data ! 1 = ucast (dev t (reg_address SPI_LMS_BASE SPI_RXDATA))"
    by (rule status_answer_polled [where n = 0]) simp_all
  then have "memory v Sc_brdg_data ! 1 AND 1 = 0"
    using never by (simp add: mcu_never_ready_def low_byte_bit0)
  moreover have "unat (MCU_retries u) < 500"
    by (rule less_le_trans [OF unsigned_less]) simp
  ultimately show "\<exists>s'. mcu_wait_turn dev 500 1 u = Ret (Again s') \<and> well_formed s'"
    using v by (simp add: mcu_wait_turn_def delay_def)
qed

lemma mcu_write_fifo_effect:
  assumes "i < 32" and "command_effect s0 s"
  shows "runs (spi_ok dev) (mcu_write_fifo dev i s) (command_effect s0)"
  unfolding mcu_write_fifo_def run.simps
  using assms by (auto intro!: effect_rules simp: layout effect_well_formed)

lemma mcu_program_hangs:
  assumes ok: "spi_ok dev" and never: "mcu_never_ready dev" and wf: "well_formed s"
  shows "mcu_program dev s = Hang"
proof -
  let ?E = "command_effect s"
  have w1: "yields (mcu_wait dev MAX_MCU_RETRIES 0x01 u) ?E" if "?E u" for u
    using runs_yields [OF mcu_wait_effect [OF that]] ok by (simp add: MAX_MCU_RETRIES_def)
  have w2: "yields (for_up (mcu_write_fifo dev) 0 32 u) ?E" if "?E u" for u
    by (rule runs_yields [OF for_up_effect [OF that mcu_write_fifo_effect] ok]) auto
  have hang: "mcu_wait dev 500 0x01 (u\<lparr>MCU_retries := 0\<rparr>) = Hang" if "?E u" for u
    using effect_well_formed [OF that] by (intro mcu_wait_500_hangs [OF ok never]) simp
  have "?E (s\<lparr>MCU_retries := 0\<rparr>)" using wf by (simp add: well_formed_effect)
  then have "seq (mcu_wait dev MAX_MCU_RETRIES 0x01 (s\<lparr>MCU_retries := 0\<rparr>)) (\<lambda>u.
      seq (for_up (mcu_write_fifo dev) 0 32 u) (\<lambda>u.
      seq (mcu_wait dev 500 0x01 (u\<lparr>MCU_retries := 0\<rparr>)) f)) = Hang" for f :: action
    by (intro yields_seq_Hang [OF w1] yields_seq_Hang [OF w2]) (simp_all add: hang)
  then show ?thesis
    by (simp add: mcu_program_def reset_retries_def run_simps)
qed

section \<open>What a download leaves\<close>

lemma mcu_write_exact:
  assumes core: "spi_core dev SPI_LMS_BASE" and wf: "well_formed s"
  shows "post (mcu_write dev s)
    (mcu_sends [map ucast (memory s Sc_brdg_data)] s)"
proof -
  have "bytes_at (memory s) (Sc_brdg_data, 0) 4 = memory s Sc_brdg_data"
    using wf by (simp add: bytes_at_def)
  moreover have "post (mcu_write dev s)
      (spi_sends SPI_LMS_BASE SPI_NR_LMS7002M (map ucast (bytes_at (memory s) (Sc_brdg_data, 0) 4)) s)"
    unfolding mcu_write_def by (rule spi_command_sends [OF core wf]) simp_all
  ultimately show ?thesis
    using wf
    by (auto elim!: post_mono simp: spi_sends_def mcu_sends_def only_io_def only_memory_def well_formed_def)
qed

lemma mcu_write_fifo_exact:
  assumes core: "spi_core dev SPI_LMS_BASE" and wf: "well_formed s" and i: "i < 32"
  shows "post (mcu_write_fifo dev i s) (mcu_sends [fifo_frame (memory s) i] s)"
proof -
  obtain a b c d where sc: "memory s Sc_brdg_data = [a, b, c, d]"
    using bridge_four [OF wf] by blast
  let ?s = "s\<lparr>memory := (memory s)(Sc_brdg_data :=
    [0x80, MCU_FIFO_WR_REG, 0, memory s Rx_buffer ! (10 + i)])\<rparr>"
  have "mcu_write_fifo dev i s = seq (mcu_write dev ?s) reset_retries"
    using sc wf i by (simp add: mcu_write_fifo_def poke_Ret layout)
  moreover have wf': "well_formed ?s" using wf by (simp add: well_formed_def)
  moreover have "mcu_sends fs s s'" if "mcu_sends fs ?s s'" for fs s'
    using that by (simp add: mcu_sends_def)
  ultimately show ?thesis
    by (auto intro!: post_seq [OF mcu_write_exact [OF core wf']] simp: reset_retries_def fifo_frame_def)
qed

lemma mcu_fifo_exact:
  assumes core: "spi_core dev SPI_LMS_BASE" and wf: "well_formed s"
  shows "post (for_up (mcu_write_fifo dev) 0 32 s)
    (mcu_sends (map (fifo_frame (memory s)) [0..<32]) s)"
proof -
  let ?I = "\<lambda>i. mcu_sends (map (fifo_frame (memory s)) [0..<i]) s"
  have "post (for_up (mcu_write_fifo dev) 0 32 s) (?I (0 + 32))"
  proof (rule for_up_post)
    show "?I 0 s" using wf by (simp add: mcu_sends_def)
    fix i u assume i: "i < 0 + 32" and u: "?I i u"
    then have "well_formed u" "fifo_frame (memory u) i = fifo_frame (memory s) i"
      by (auto simp: mcu_sends_def fifo_frame_def)
    with mcu_write_fifo_exact [OF core, of u i] mcu_sends_trans [OF u] i
    show "post (mcu_write_fifo dev i u) (?I (Suc i))"
      by (auto elim: post_mono)
  qed
  then show ?thesis by simp
qed

text \<open>As \<open>mcu_sends\<close>, but the error counter may have counted and the portion been recorded.\<close>

definition mcu_traffic :: "u32 list list \<Rightarrow> machine \<Rightarrow> machine \<Rightarrow> bool" where
  "mcu_traffic frames s s' =
     (well_formed s' \<and> (\<forall>r. r \<noteq> Sc_brdg_data \<longrightarrow> memory s' r = memory s r)
      \<and> bus_writes SPI_LMS_BASE (io s') =
          bus_writes SPI_LMS_BASE (io s) @ concat (map (spi_transaction SPI_NR_LMS7002M 0) frames))"

text \<open>The polls for the bit \<open>PROGRAMMED\<close>: up to 30 after the last portion, then an error is counted.\<close>

definition programmed_polls :: "u32 \<Rightarrow> nat \<Rightarrow> u8 \<Rightarrow> u8 \<Rightarrow> bool" where
  "programmed_polls portion k errors errors' =
     (if portion = 255 then 1 \<le> k \<and> k \<le> 30 \<and> (errors' = errors \<or> k = 30 \<and> errors' = errors + 1)
      else k = 0 \<and> errors' = errors)"

lemma mcu_check_programmed_exact:
  assumes core: "spi_core dev SPI_LMS_BASE" and wf: "well_formed s"
  shows "post (mcu_check_programmed dev s)
    (\<lambda>s'. \<exists>k. mcu_traffic (replicate k status_frame) s s' \<and> current_portion s' = current_portion s
       \<and> programmed_polls (current_portion s) k (cmd_errors s) (cmd_errors s'))"
proof (cases "current_portion s = 255")
  case True
  let ?s = "s\<lparr>MCU_retries := 0\<rparr>"
  let ?Q = "\<lambda>k s'. mcu_sends (replicate k status_frame) s s' \<and> 1 \<le> k \<and> k \<le> 30
    \<and> (unat (MCU_retries s') = 30 \<longrightarrow> k = 30)"
  have "well_formed ?s" using wf by simp
  from mcu_wait_exact [OF core this, of MAX_MCU_RETRIES "0x40"]
  have wait: "post (mcu_wait dev MAX_MCU_RETRIES 0x40 ?s) (\<lambda>s'. \<exists>k. ?Q k s')"
    by (rule post_mono) (fastforce simp: MAX_MCU_RETRIES_def mcu_sends_def)
  have "post (if unat (MCU_retries u) = MAX_MCU_RETRIES then count_error u else Ret u)
      (\<lambda>s'. \<exists>k. mcu_traffic (replicate k status_frame) s s' \<and> current_portion s' = current_portion s
       \<and> programmed_polls (current_portion s) k (cmd_errors s) (cmd_errors s'))" if "?Q k u" for u k
    using that True
    by (auto simp: count_error_def mcu_traffic_def mcu_sends_def programmed_polls_def MAX_MCU_RETRIES_def
        intro!: exI [of _ k])
  then have "post (seq (mcu_wait dev MAX_MCU_RETRIES 0x40 ?s)
      (\<lambda>s. if unat (MCU_retries s) = MAX_MCU_RETRIES then count_error s else Ret s))
      (\<lambda>s'. \<exists>k. mcu_traffic (replicate k status_frame) s s' \<and> current_portion s' = current_portion s
       \<and> programmed_polls (current_portion s) k (cmd_errors s) (cmd_errors s'))"
    by (intro post_seq [OF wait]) blast
  then show ?thesis
    using True by (simp add: mcu_check_programmed_def reset_retries_def run_simps)
next
  case False
  then show ?thesis
    using wf by (auto simp: mcu_check_programmed_def mcu_traffic_def programmed_polls_def intro!: exI [of _ 0])
qed

section \<open>A microcontroller that is ready\<close>

text \<open>
  After \<open>N\<close> status polls in a row, with nothing else on the bus in between, the microcontroller has
  emptied its write buffer: the next poll reads a status byte with \<open>EMPTY_WRITE_BUFF\<close> set.  With
  \<open>N = 0\<close> it is always ready.
\<close>

definition mcu_live :: "nat \<Rightarrow> device \<Rightarrow> bool" where
  "mcu_live N dev =
     (\<forall>t. status_polled N t \<longrightarrow> dev t (reg_address SPI_LMS_BASE SPI_RXDATA) AND 1 \<noteq> 0)"

lemma low_byte_ready: "(v :: u32) AND 1 \<noteq> 0 \<Longrightarrow> (ucast v :: u8) AND 1 \<noteq> 0"
  by (simp only: and_one_word bit_ucast_iff) simp

text \<open>
  A wait for the buffer after \<open>k\<close> polls: it ends, or the bit was clear, which happens less than \<open>N\<close>
  times, and the wait goes on.
\<close>

lemma mcu_wait_live_step:
  assumes ok: "spi_ok dev" and live: "mcu_live N dev" and limit: "0 < limit"
    and sofar: "mcu_sends (replicate k status_frame) s u" and k: "k \<le> N"
    and retries: "limit \<le> 255 \<longrightarrow> unat (MCU_retries u) = k \<and> k \<le> limit"
  shows "(\<exists>i v. mcu_wait dev limit 0x01 u = Ret v \<and> mcu_sends (replicate i status_frame) s v
      \<and> 1 \<le> i \<and> i \<le> Suc N \<and> (limit \<le> 255 \<longrightarrow> i \<le> limit))
    \<or> (k < N \<and> (\<exists>v. mcu_wait dev limit 0x01 u = mcu_wait dev limit 0x01 v
      \<and> mcu_sends (replicate (Suc k) status_frame) s v
      \<and> (limit \<le> 255 \<longrightarrow> unat (MCU_retries v) = Suc k \<and> Suc k \<le> limit)))"
proof (cases "unat (MCU_retries u) < limit")
  case True
  have core: "spi_core dev SPI_LMS_BASE" using ok by (simp add: spi_ok_def)
  have wf: "well_formed u" using sofar by (simp add: mcu_sends_def)
  have "yields (mcu_read_status dev u) (command_effect u)"
    by (rule runs_yields [OF mcu_read_status_effect [OF well_formed_effect [OF wf]] ok])
  then obtain v where v: "mcu_read_status dev u = Ret v" by (auto simp: yields_Ret)
  from post_RetD [OF mcu_read_status_exact [OF core wf] v]
  have sent: "mcu_sends [status_frame] u v" and same: "MCU_retries v = MCU_retries u"
    and answer: "status_answer dev (io u) (memory v Sc_brdg_data ! 1)" by simp_all
  have wfv: "well_formed v" using sent by (simp add: mcu_sends_def)
  have snoc: "mcu_sends (replicate (Suc k) status_frame) s v"
    using mcu_sends_trans [OF sofar sent] by (simp add: replicate_append_same)
  have room: "limit \<le> 255 \<longrightarrow> Suc k \<le> limit" using True retries by auto
  show ?thesis
  proof (cases "memory v Sc_brdg_data ! 1 AND 1 = 0")
    case False
    then have "mcu_wait_turn dev limit 1 u = Ret (Break v)"
      using v wfv True by (simp add: mcu_wait_turn_def)
    then have "mcu_wait dev limit 1 u = Ret v"
      unfolding mcu_wait_def by (subst loop_unfold) simp
    then show ?thesis
      using snoc k room by (intro disjI1 exI [of _ "Suc k"] exI [of _ v]) simp
  next
    case clear: True
    have "bus_writes SPI_LMS_BASE (io u) = bus_writes SPI_LMS_BASE (io s)
        @ concat (replicate k (spi_transaction SPI_NR_LMS7002M 0 status_frame))"
      using sofar by (simp add: mcu_sends_def)
    from status_answer_polled [OF answer this] obtain t where polled: "status_polled k t"
      and "memory v Sc_brdg_data ! 1 = ucast (dev t (reg_address SPI_LMS_BASE SPI_RXDATA))" by blast
    then have "dev t (reg_address SPI_LMS_BASE SPI_RXDATA) AND 1 = 0"
      using clear low_byte_ready by metis
    with live polled have "k < N"
      using k by (auto simp: mcu_live_def le_less)
    define w where "w = v\<lparr>MCU_retries := MCU_retries v + 1, io := usleep 30 (io v)\<rparr>"
    have "mcu_wait_turn dev limit 1 u = Ret (Again w)"
      using v wfv True clear by (simp add: mcu_wait_turn_def delay_def w_def)
    then have "mcu_wait dev limit 1 u = mcu_wait dev limit 1 w"
      unfolding mcu_wait_def by (rule loop_Again)
    moreover have "mcu_sends (replicate (Suc k) status_frame) s w"
      using snoc by (simp add: mcu_sends_def w_def well_formed_def)
    moreover have "limit \<le> 255 \<longrightarrow> unat (MCU_retries w) = Suc k \<and> Suc k \<le> limit"
      using retries room same by (auto simp: w_def unat_plus_if')
    ultimately show ?thesis using \<open>k < N\<close> by blast
  qed
next
  case False
  have "unat (MCU_retries u) < 256" using unsigned_less [of "MCU_retries u"] by simp
  with False retries limit have k: "1 \<le> k" "k \<le> limit" by auto
  have "mcu_wait dev limit 1 u = Ret u"
    using False unfolding mcu_wait_def by (subst loop_unfold) (simp add: mcu_wait_turn_def)
  then show ?thesis
    using sofar k \<open>k \<le> N\<close> by (intro disjI1 exI [of _ k] exI [of _ u]) simp
qed

text \<open>A wait for the buffer takes between one and \<open>N + 1\<close> polls, and at most its limit if that is
  one of the counter.\<close>

lemma mcu_wait_live_from:
  assumes "spi_ok dev" and "mcu_live N dev" and "0 < limit"
  shows "mcu_sends (replicate k status_frame) s u \<Longrightarrow> N = k + d
    \<Longrightarrow> limit \<le> 255 \<longrightarrow> unat (MCU_retries u) = k \<and> k \<le> limit
    \<Longrightarrow> \<exists>i v. mcu_wait dev limit 0x01 u = Ret v \<and> mcu_sends (replicate i status_frame) s v
          \<and> 1 \<le> i \<and> i \<le> Suc N \<and> (limit \<le> 255 \<longrightarrow> i \<le> limit)"
proof (induction d arbitrary: k u)
  case 0
  then show ?case using mcu_wait_live_step [OF assms 0(1) _ 0(3)] by simp
next
  case (Suc d)
  then consider "\<exists>i v. mcu_wait dev limit 0x01 u = Ret v \<and> mcu_sends (replicate i status_frame) s v
      \<and> 1 \<le> i \<and> i \<le> Suc N \<and> (limit \<le> 255 \<longrightarrow> i \<le> limit)"
    | v where "mcu_wait dev limit 0x01 u = mcu_wait dev limit 0x01 v"
      "mcu_sends (replicate (Suc k) status_frame) s v"
      "limit \<le> 255 \<longrightarrow> unat (MCU_retries v) = Suc k \<and> Suc k \<le> limit"
    using mcu_wait_live_step [OF assms Suc.prems(1) _ Suc.prems(3)] by auto
  then show ?case
  proof cases
    case 1
    then show ?thesis .
  next
    case (2 v)
    then show ?thesis using Suc.IH [of "Suc k" v] Suc.prems(2) by simp
  qed
qed

lemma mcu_wait_live:
  assumes "spi_ok dev" and "mcu_live N dev" and "0 < limit" and wf: "well_formed s"
    and start: "MCU_retries s = 0"
  shows "yields (mcu_wait dev limit 0x01 s) (\<lambda>v. \<exists>i. mcu_sends (replicate i status_frame) s v
    \<and> 1 \<le> i \<and> i \<le> Suc N \<and> (limit \<le> 255 \<longrightarrow> i \<le> limit))"
  using mcu_wait_live_from [OF assms(1-3), of 0 s s N] wf start
  by (auto simp: mcu_sends_def yields_Ret)

lemma mcu_fifo_yields:
  assumes ok: "spi_ok dev" and wf: "well_formed s"
  shows "yields (for_up (mcu_write_fifo dev) 0 32 s) (mcu_sends (map (fifo_frame (memory s)) [0..<32]) s)"
proof -
  have "yields (for_up (mcu_write_fifo dev) 0 32 s) (command_effect s)"
    by (rule runs_yields [OF for_up_effect [OF well_formed_effect [OF wf] mcu_write_fifo_effect] ok]) auto
  moreover have "spi_core dev SPI_LMS_BASE" using ok by (simp add: spi_ok_def)
  ultimately show ?thesis using mcu_fifo_exact [OF _ wf] by (simp add: yields_iff)
qed

lemma mcu_check_programmed_yields:
  assumes ok: "spi_ok dev" and wf: "well_formed s"
  shows "yields (mcu_check_programmed dev s) (\<lambda>s'. \<exists>k. mcu_traffic (replicate k status_frame) s s'
     \<and> current_portion s' = current_portion s
     \<and> programmed_polls (current_portion s) k (cmd_errors s) (cmd_errors s'))"
proof -
  have "runs (spi_ok dev) (mcu_wait dev MAX_MCU_RETRIES 0x40 (s\<lparr>MCU_retries := 0\<rparr>)) (command_effect s)"
    using mcu_wait_effect [of s "s\<lparr>MCU_retries := 0\<rparr>" dev MAX_MCU_RETRIES "0x40"] wf
    by (simp add: MAX_MCU_RETRIES_def well_formed_effect)
  then have "mcu_check_programmed dev s \<noteq> Hang"
    using ok by (auto simp: mcu_check_programmed_def reset_retries_def runs_def seq_eq_Hang count_error_def split: if_splits)
  moreover have "spi_core dev SPI_LMS_BASE" using ok by (simp add: spi_ok_def)
  ultimately show ?thesis using mcu_check_programmed_exact [OF _ wf] by (simp add: yields_iff)
qed

text \<open>The frames of a portion that is programmed: \<open>i\<close> polls, the 32 bytes, \<open>j\<close> polls, and \<open>k\<close> polls
  for \<open>PROGRAMMED\<close>; and the bounds of the first two waits.\<close>

definition program_frames :: "region memory \<Rightarrow> nat \<Rightarrow> nat \<Rightarrow> nat \<Rightarrow> u32 list list" where
  "program_frames m i j k =
     replicate i status_frame @ map (fifo_frame m) [0..<32] @ replicate j status_frame @ replicate k status_frame"

definition buffer_polls :: "nat \<Rightarrow> nat \<Rightarrow> nat \<Rightarrow> bool" where
  "buffer_polls N i j = (1 \<le> i \<and> i \<le> min 30 (N + 1) \<and> 1 \<le> j \<and> j \<le> N + 1)"

lemma mcu_program_live:
  assumes ok: "spi_ok dev" and live: "mcu_live N dev" and wf: "well_formed s"
  shows "yields (mcu_program dev s) (\<lambda>s'. last_portion s' = current_portion s
     \<and> (\<exists>i j k. buffer_polls N i j
          \<and> programmed_polls (current_portion s) k (cmd_errors s) (cmd_errors s')
          \<and> mcu_traffic (program_frames (memory s) i j k) s s'))"
proof -
  let ?fifo = "map (fifo_frame (memory s)) [0..<32]"
  let ?sf = "\<lambda>n. replicate n status_frame"
  have w1: "yields (mcu_wait dev MAX_MCU_RETRIES 0x01 (s\<lparr>MCU_retries := 0\<rparr>))
      (\<lambda>u. \<exists>i. mcu_sends (?sf i) s u \<and> 1 \<le> i \<and> i \<le> min 30 (N + 1))"
    using mcu_wait_live [OF ok live, of MAX_MCU_RETRIES "s\<lparr>MCU_retries := 0\<rparr>"] wf
    by (auto simp: MAX_MCU_RETRIES_def mcu_sends_def elim!: yields_mono)
  have f: "yields (for_up (mcu_write_fifo dev) 0 32 u) (mcu_sends (fs @ ?fifo) s)" if "mcu_sends fs s u" for fs u
  proof -
    have "well_formed u" "fifo_frame (memory u) = fifo_frame (memory s)"
      using that by (auto simp: mcu_sends_def fifo_frame_def fun_eq_iff)
    then show ?thesis
      using mcu_fifo_yields [OF ok, of u] mcu_sends_trans [OF that] by (auto elim: yields_mono)
  qed
  have w2: "yields (mcu_wait dev 500 0x01 (u\<lparr>MCU_retries := 0\<rparr>))
      (\<lambda>v. \<exists>j. mcu_sends (fs @ ?sf j) s v \<and> 1 \<le> j \<and> j \<le> N + 1)" if "mcu_sends fs s u" for fs u
  proof -
    have "well_formed (u\<lparr>MCU_retries := 0\<rparr>)" using that by (simp add: mcu_sends_def)
    from mcu_wait_live [OF ok live _ this, of 500] show ?thesis
      using that by (auto simp: mcu_sends_def elim!: yields_mono)
  qed
  have chk: "yields (mcu_check_programmed dev v) (\<lambda>s'. current_portion s' = current_portion s
      \<and> (\<exists>k. programmed_polls (current_portion s) k (cmd_errors s) (cmd_errors s')
          \<and> mcu_traffic (fs @ ?sf k) s s'))" if "mcu_sends fs s v" for fs v
  proof -
    have "well_formed v" using that by (simp add: mcu_sends_def)
    from mcu_check_programmed_yields [OF ok this] show ?thesis
      by (rule yields_mono) (use that in \<open>auto simp: mcu_sends_def mcu_traffic_def\<close>)
  qed
  have "yields (seq (mcu_wait dev MAX_MCU_RETRIES 0x01 (s\<lparr>MCU_retries := 0\<rparr>)) (\<lambda>u.
      seq (for_up (mcu_write_fifo dev) 0 32 u) (\<lambda>u.
      seq (mcu_wait dev 500 0x01 (u\<lparr>MCU_retries := 0\<rparr>)) (\<lambda>v.
      seq (mcu_check_programmed dev v) (\<lambda>v. Ret (v\<lparr>last_portion := current_portion v\<rparr>))))))
    (\<lambda>s'. last_portion s' = current_portion s
     \<and> (\<exists>i j k. buffer_polls N i j
          \<and> programmed_polls (current_portion s) k (cmd_errors s) (cmd_errors s')
          \<and> mcu_traffic (program_frames (memory s) i j k) s s'))"
  proof (rule yields_seq [OF w1], elim exE conjE)
    fix u i assume u: "mcu_sends (?sf i) s u" and i: "1 \<le> i" "i \<le> min 30 (N + 1)"
    show "yields (seq (for_up (mcu_write_fifo dev) 0 32 u) (\<lambda>u.
        seq (mcu_wait dev 500 0x01 (u\<lparr>MCU_retries := 0\<rparr>)) (\<lambda>v.
        seq (mcu_check_programmed dev v) (\<lambda>v. Ret (v\<lparr>last_portion := current_portion v\<rparr>)))))
      (\<lambda>s'. last_portion s' = current_portion s
       \<and> (\<exists>i j k. buffer_polls N i j
            \<and> programmed_polls (current_portion s) k (cmd_errors s) (cmd_errors s')
            \<and> mcu_traffic (program_frames (memory s) i j k) s s'))"
    proof (rule yields_seq [OF f [OF u]], rule yields_seq [OF w2], assumption, elim exE conjE,
        rule yields_seq [OF chk], assumption, elim exE conjE)
      fix v v' j k
      assume "1 \<le> j" "j \<le> N + 1" and cur: "current_portion v' = current_portion s"
        and "programmed_polls (current_portion s) k (cmd_errors s) (cmd_errors v')"
        and "mcu_traffic (((?sf i @ ?fifo) @ ?sf j) @ ?sf k) s v'"
      with i have "buffer_polls N i j
          \<and> programmed_polls (current_portion s) k (cmd_errors s) (cmd_errors (v'\<lparr>last_portion := current_portion v'\<rparr>))
          \<and> mcu_traffic (program_frames (memory s) i j k) s (v'\<lparr>last_portion := current_portion v'\<rparr>)"
        by (simp add: buffer_polls_def mcu_traffic_def program_frames_def)
      then have "\<exists>i j k. buffer_polls N i j
          \<and> programmed_polls (current_portion s) k (cmd_errors s) (cmd_errors (v'\<lparr>last_portion := current_portion v'\<rparr>))
          \<and> mcu_traffic (program_frames (memory s) i j k) s (v'\<lparr>last_portion := current_portion v'\<rparr>)"
        by blast
      with cur show "yields (Ret (v'\<lparr>last_portion := current_portion v'\<rparr>)) (\<lambda>s'. last_portion s' = current_portion s
         \<and> (\<exists>i j k. buffer_polls N i j
            \<and> programmed_polls (current_portion s) k (cmd_errors s) (cmd_errors s')
            \<and> mcu_traffic (program_frames (memory s) i j k) s s'))"
        by simp
    qed
  qed
  then show ?thesis by (simp add: mcu_program_def reset_retries_def run_simps)
qed

section \<open>The first portion\<close>

definition control_frame :: "u8 \<Rightarrow> u32 list" where
  "control_frame v = [0x80, ucast MCU_CONTROL_REG, 0, ucast v]"

definition start_frames :: "u8 \<Rightarrow> u32 list list" where
  "start_frames mode = [control_frame 0] @ (if mode \<in> {1, 2, 3} then [control_frame mode] else [])
     @ (if mode = 3 then [status_frame] else [])"

lemma mcu_write_frame:
  assumes ok: "spi_ok dev" and wf: "well_formed s"
  shows "yields (mcu_write dev (s\<lparr>memory := (memory s)(Sc_brdg_data := [0x80, MCU_CONTROL_REG, 0, v])\<rparr>))
    (mcu_sends [control_frame v] s)"
proof -
  let ?s = "s\<lparr>memory := (memory s)(Sc_brdg_data := [0x80, MCU_CONTROL_REG, 0, v])\<rparr>"
  have wf': "well_formed ?s" using wf by (simp add: well_formed_def)
  have "spi_core dev SPI_LMS_BASE" using ok by (simp add: spi_ok_def)
  from mcu_write_exact [OF this wf'] have "post (mcu_write dev ?s) (mcu_sends [control_frame v] s)"
    by (rule post_mono) (simp add: mcu_sends_def control_frame_def)
  moreover have "mcu_write dev ?s \<noteq> Hang"
    using mcu_write_effect [OF well_formed_effect [OF wf'], of dev] ok by (simp add: runs_def)
  ultimately show ?thesis by (simp add: yields_iff)
qed

lemma mcu_poke_control:
  assumes wf: "well_formed s"
  shows "run [poke (Sc_brdg_data, 0) 0x80, poke (Sc_brdg_data, 1) MCU_CONTROL_REG,
      poke (Sc_brdg_data, 2) 0x00, poke (Sc_brdg_data, 3) v] s =
    Ret (s\<lparr>memory := (memory s)(Sc_brdg_data := [0x80, MCU_CONTROL_REG, 0, v])\<rparr>)"
proof -
  obtain a b c d where "memory s Sc_brdg_data = [a, b, c, d]" using bridge_four [OF wf] by blast
  then show ?thesis using wf by (simp add: poke_Ret numeral_2_eq_2 numeral_3_eq_3)
qed

lemma mcu_control:
  assumes ok: "spi_ok dev" and sofar: "mcu_sends fs s u"
  shows "yields (run [poke (Sc_brdg_data, 0) 0x80, poke (Sc_brdg_data, 1) MCU_CONTROL_REG,
      poke (Sc_brdg_data, 2) 0x00, poke (Sc_brdg_data, 3) v, mcu_write dev] u)
    (mcu_sends (fs @ [control_frame v]) s)"
proof -
  have wf: "well_formed u" using sofar by (simp add: mcu_sends_def)
  have "run [poke (Sc_brdg_data, 0) 0x80, poke (Sc_brdg_data, 1) MCU_CONTROL_REG,
      poke (Sc_brdg_data, 2) 0x00, poke (Sc_brdg_data, 3) v, mcu_write dev] u =
    seq (run [poke (Sc_brdg_data, 0) 0x80, poke (Sc_brdg_data, 1) MCU_CONTROL_REG,
      poke (Sc_brdg_data, 2) 0x00, poke (Sc_brdg_data, 3) v] u) (mcu_write dev)"
    by (simp add: run_simps seq_assoc)
  then show ?thesis
    unfolding mcu_poke_control [OF wf] seq.simps
    using mcu_write_frame [OF ok wf, of v] mcu_sends_trans [OF sofar]
    by (auto elim: yields_mono)
qed

lemma mcu_read_status_yields:
  assumes ok: "spi_ok dev" and sofar: "mcu_sends fs s u"
  shows "yields (mcu_read_status dev u) (mcu_sends (fs @ [status_frame]) s)"
proof -
  have wf: "well_formed u" using sofar by (simp add: mcu_sends_def)
  have "spi_core dev SPI_LMS_BASE" using ok by (simp add: spi_ok_def)
  from mcu_read_status_exact [OF this wf] have "post (mcu_read_status dev u) (mcu_sends (fs @ [status_frame]) s)"
    by (rule post_mono) (use mcu_sends_trans [OF sofar] in blast)
  moreover have "mcu_read_status dev u \<noteq> Hang"
    using mcu_read_status_effect [OF well_formed_effect [OF wf], of dev] ok by (simp add: runs_def)
  ultimately show ?thesis by (simp add: yields_iff)
qed

lemma mcu_start_yields:
  assumes ok: "spi_ok dev" and wf: "well_formed s"
  shows "yields (mcu_start dev s) (\<lambda>(booting, s'). booting = (memory s Rx_buffer ! 8 = 3)
    \<and> mcu_sends (start_frames (memory s Rx_buffer ! 8)) s s')"
proof -
  let ?mode = "memory s Rx_buffer ! 8"
  let ?A = "\<lambda>v. run [poke (Sc_brdg_data, 0) 0x80, poke (Sc_brdg_data, 1) MCU_CONTROL_REG,
      poke (Sc_brdg_data, 2) 0x00, poke (Sc_brdg_data, 3) v, mcu_write dev]"
  let ?P = "run [poke (Sc_brdg_data, 0) 0x80, poke (Sc_brdg_data, 1) MCU_CONTROL_REG, poke (Sc_brdg_data, 2) 0x00]"
  have "mcu_sends [] s s" using wf by (simp add: mcu_sends_def)
  from mcu_control [OF ok this, of 0] obtain u where u: "?A 0 s = Ret u" and su: "mcu_sends [control_frame 0] s u"
    by (auto simp: yields_Ret)
  have wfu: "well_formed u" and rx: "memory u Rx_buffer = memory s Rx_buffer"
    using su by (simp_all add: mcu_sends_def)
  obtain a b c d where sc: "memory u Sc_brdg_data = [a, b, c, d]" using bridge_four [OF wfu] by blast
  define w where "w = u\<lparr>memory := (memory u)(Sc_brdg_data := [0x80, MCU_CONTROL_REG, 0, d])\<rparr>"
  have P: "?P u = Ret w"
    using wfu sc by (simp add: poke_Ret numeral_2_eq_2 w_def)
  have wfw: "well_formed w" and mode: "peek (rx_data 0) w = Ret ?mode" and sw: "mcu_sends [control_frame 0] s w"
    using wfu rx su wf by (simp_all add: w_def well_formed_def layout mcu_sends_def peek_def load_def)
  have start: "mcu_start dev s =
     (if ?mode = 1 then seq (?A 1 u) (\<lambda>s. Ret (False, s))
      else if ?mode = 2 then seq (?A 2 u) (\<lambda>s. Ret (False, s))
      else if ?mode = 3 then seq (seq (?A 3 u) (mcu_read_status dev)) (\<lambda>s. Ret (True, s))
      else Ret (False, w))"
  proof -
    have split: "?A v u = seq (poke (Sc_brdg_data, 3) v w) (mcu_write dev)" for v
    proof -
      have "?A v u = seq (?P u) (run [poke (Sc_brdg_data, 3) v, mcu_write dev])"
        by (simp add: run_simps seq_assoc)
      then show ?thesis unfolding P by (simp add: run_simps)
    qed
    have "mcu_start dev s = seq (?A 0 s) (\<lambda>u. seq (?P u) (\<lambda>s. seq (peek (rx_data 0) s) (\<lambda>mode.
       if mode = PROG_EEPROM then seq (run [poke (Sc_brdg_data, 3) 0x01, mcu_write dev] s) (\<lambda>s. Ret (False, s))
       else if mode = PROG_SRAM then seq (run [poke (Sc_brdg_data, 3) 0x02, mcu_write dev] s) (\<lambda>s. Ret (False, s))
       else if mode = BOOT_MCU then
         seq (run [poke (Sc_brdg_data, 3) 0x03, mcu_write dev, mcu_read_status dev] s) (\<lambda>s. Ret (True, s))
       else Ret (False, s))))"
      by (simp add: mcu_start_def run_simps seq_assoc)
    then show ?thesis
      unfolding u seq.simps P mode split
      by (simp add: PROG_EEPROM_def PROG_SRAM_def BOOT_MCU_def run_simps seq_assoc)
  qed
  have "\<exists>x. ?A v u = Ret x \<and> mcu_sends [control_frame 0, control_frame v] s x" for v
    using mcu_control [OF ok su, of v] by (simp add: yields_Ret)
  then obtain f where f: "?A v u = Ret (f v)" "mcu_sends [control_frame 0, control_frame v] s (f v)" for v
    by metis
  have reads: "yields (mcu_read_status dev x) (mcu_sends [control_frame 0, control_frame 3, status_frame] s)"
    if "mcu_sends [control_frame 0, control_frame 3] s x" for x
    using mcu_read_status_yields [OF ok that] by simp
  show ?thesis
    unfolding start f seq.simps using sw f(2)
    by (auto simp: start_frames_def intro!: yields_seq [OF reads])
qed

section \<open>The command\<close>

text \<open>The frames of a portion in order: the first one starts, and mode 3 boots without a download.\<close>

definition portion_frames :: "region memory \<Rightarrow> nat \<Rightarrow> nat \<Rightarrow> nat \<Rightarrow> u32 list list" where
  "portion_frames m i j k =
     (if m Rx_buffer ! 9 = 0 then start_frames (m Rx_buffer ! 8) else [])
     @ (if m Rx_buffer ! 9 = 0 \<and> m Rx_buffer ! 8 = 3 then [] else program_frames m i j k)"

definition portion_loaded :: "nat \<Rightarrow> machine \<Rightarrow> machine \<Rightarrow> bool" where
  "portion_loaded N s s' =
     (command_done s s' \<and> current_portion s' = ucast (memory s Rx_buffer ! 9)
      \<and> last_portion s' = (if memory s Rx_buffer ! 9 = 0 \<and> memory s Rx_buffer ! 8 = 3 then last_portion s
           else ucast (memory s Rx_buffer ! 9))
      \<and> memory s' Tx_buffer = (memory s Tx_buffer)
           [Status := if cmd_errors s' \<noteq> 0 then STATUS_ERROR_CMD else STATUS_COMPLETED_CMD]
      \<and> (\<exists>i j k. buffer_polls N i j
           \<and> programmed_polls (ucast (memory s Rx_buffer ! 9)) k (cmd_errors s) (cmd_errors s')
           \<and> bus_writes SPI_LMS_BASE (io s') = bus_writes SPI_LMS_BASE (io s)
                @ concat (map (spi_transaction 0 0) (portion_frames (memory s) i j k))))"

lemma mcu_program_current:
  assumes "mcu_program dev s = Ret s'"
  shows "current_portion s' = last_portion s'"
  using assms by (auto simp: mcu_program_def run_simps seq_eq_Ret)

lemma ucast_zero: "(ucast (p :: u8) :: u32) = 0 \<longleftrightarrow> p = 0"
  by transfer simp

text \<open>The beginning of a portion in order: it resets and sets the mode if it is the first, and then
  boots or goes on with the programming.\<close>

definition portion_begun :: "machine \<Rightarrow> bool \<times> machine \<Rightarrow> bool" where
  "portion_begun s = (\<lambda>(booting, u).
     booting = (memory s Rx_buffer ! 9 = 0 \<and> memory s Rx_buffer ! 8 = 3)
     \<and> mcu_sends (if memory s Rx_buffer ! 9 = 0 then start_frames (memory s Rx_buffer ! 8) else [])
         (s\<lparr>current_portion := ucast (memory s Rx_buffer ! 9)\<rparr>) u)"

definition portion_status :: action where
  "portion_status s = set_status (if cmd_errors s \<noteq> 0 then STATUS_ERROR_CMD else STATUS_COMPLETED_CMD) s"

lemma cmd_MCU_begins:
  assumes ok: "spi_ok dev" and wf: "well_formed s"
    and order: "mcu_in_order (s\<lparr>current_portion := ucast (memory s Rx_buffer ! 9)\<rparr>)"
  obtains booting u where "portion_begun s (booting, u)"
    and "cmd_LMS_MCU_FW_WR dev s = seq (if booting then Ret u else mcu_program dev u) portion_status"
proof -
  let ?p = "memory s Rx_buffer ! 9"
  define s1 where "s1 = s\<lparr>current_portion := ucast ?p\<rparr>"
  have wf1: "well_formed s1" using wf by (simp add: s1_def)
  have zero: "current_portion s1 = 0 \<longleftrightarrow> ?p = 0" by (simp add: s1_def ucast_zero)
  have "yields (if current_portion s1 = 0 then mcu_start dev s1 else Ret (False, s1)) (portion_begun s)"
    using mcu_start_yields [OF ok wf1] wf1 unfolding zero
    by (auto simp: s1_def mcu_sends_def portion_begun_def elim: yields_mono)
  then obtain booting u where st: "(if current_portion s1 = 0 then mcu_start dev s1 else Ret (False, s1)) = Ret (booting, u)"
    and "portion_begun s (booting, u)" by (auto simp: yields_Ret)
  moreover have "cmd_LMS_MCU_FW_WR dev s =
      seq (if current_portion s1 = 0 then mcu_start dev s1 else Ret (False, s1)) (\<lambda>(booting, u).
      seq (if booting then Ret u else mcu_program dev u) portion_status)"
    using wf order by (simp add: cmd_LMS_MCU_FW_WR_def layout s1_def portion_status_def [abs_def])
  ultimately show ?thesis using that unfolding st by simp
qed

lemma portion_begun_boot:
  assumes "portion_begun s (True, u)"
  shows "memory s Rx_buffer ! 9 = 0" "memory s Rx_buffer ! 8 = 3"
    and "mcu_sends (start_frames 3) (s\<lparr>current_portion := 0\<rparr>) u"
  using assms by (auto simp: portion_begun_def)

lemma cmd_MCU_in_order:
  assumes ok: "spi_ok dev" and live: "mcu_live N dev" and wf: "well_formed s"
    and order: "mcu_in_order (s\<lparr>current_portion := ucast (memory s Rx_buffer ! 9)\<rparr>)"
  shows "yields (cmd_LMS_MCU_FW_WR dev s) (portion_loaded N s)"
proof -
  let ?p = "memory s Rx_buffer ! 9" and ?mode = "memory s Rx_buffer ! 8"
  obtain booting u where begun: "portion_begun s (booting, u)"
    and cmd: "cmd_LMS_MCU_FW_WR dev s = seq (if booting then Ret u else mcu_program dev u) portion_status"
    by (rule cmd_MCU_begins [OF ok wf order])
  have boot: "booting = (?p = 0 \<and> ?mode = 3)" using begun by (simp add: portion_begun_def)
  let ?done = "\<lambda>v. well_formed v \<and> last_portion v = (if ?p = 0 \<and> ?mode = 3 then last_portion s else ucast ?p)
     \<and> current_portion v = ucast ?p \<and> memory v Tx_buffer = memory s Tx_buffer
     \<and> (\<exists>i j k. buffer_polls N i j \<and> programmed_polls (ucast ?p) k (cmd_errors s) (cmd_errors v)
           \<and> bus_writes SPI_LMS_BASE (io v) = bus_writes SPI_LMS_BASE (io s)
                @ concat (map (spi_transaction 0 0) (portion_frames (memory s) i j k)))"
  have rest: "yields (if booting then Ret u else mcu_program dev u) ?done"
  proof (cases booting)
    case True
    with begun have p: "?p = 0" "?mode = 3" and sends: "mcu_sends (start_frames 3) (s\<lparr>current_portion := 0\<rparr>) u"
      using portion_begun_boot [of s u] by simp_all
    have "\<exists>i j k. buffer_polls N i j \<and> programmed_polls (ucast ?p) k (cmd_errors s) (cmd_errors u)
           \<and> bus_writes SPI_LMS_BASE (io u) = bus_writes SPI_LMS_BASE (io s)
                @ concat (map (spi_transaction 0 0) (portion_frames (memory s) i j k))"
      by (rule exI [of _ 1], rule exI [of _ 1], rule exI [of _ 0])
        (use p sends in \<open>simp add: mcu_sends_def portion_frames_def SPI_NR_LMS7002M_def buffer_polls_def
           programmed_polls_def\<close>)
    then show ?thesis
      using True p sends by (simp add: mcu_sends_def)
  next
    case False
    have wfu: "well_formed u" and frames: "program_frames (memory u) = program_frames (memory s)"
      and cur: "current_portion u = ucast ?p" and errors: "cmd_errors u = cmd_errors s"
      and tx: "memory u Tx_buffer = memory s Tx_buffer"
      using begun by (auto simp: portion_begun_def mcu_sends_def program_frames_def fifo_frame_def fun_eq_iff)
    from mcu_program_live [OF ok live wfu] obtain v i j k where v: "mcu_program dev u = Ret v"
      and l: "last_portion v = ucast ?p" and n: "buffer_polls N i j"
      and k: "programmed_polls (ucast ?p) k (cmd_errors s) (cmd_errors v)"
      and t: "mcu_traffic (program_frames (memory s) i j k) u v"
      by (auto simp: yields_Ret frames cur errors)
    have "bus_writes SPI_LMS_BASE (io v) = bus_writes SPI_LMS_BASE (io s)
        @ concat (map (spi_transaction 0 0) (portion_frames (memory s) i j k))"
      using t begun False boot
      by (auto simp: mcu_traffic_def portion_begun_def mcu_sends_def SPI_NR_LMS7002M_def portion_frames_def)
    moreover have "memory v Tx_buffer = memory s Tx_buffer" "well_formed v"
      using t tx by (simp_all add: mcu_traffic_def)
    ultimately show ?thesis
      using False boot v l k n mcu_program_current [OF v] by auto
  qed
  then obtain v where v: "(if booting then Ret u else mcu_program dev u) = Ret v" and fin: "?done v"
    unfolding yields_Ret by blast
  define s' where "s' = v\<lparr>memory := (memory v)(Tx_buffer := (memory v Tx_buffer)
    [Status := if cmd_errors v \<noteq> 0 then STATUS_ERROR_CMD else STATUS_COMPLETED_CMD])\<rparr>"
  have run: "cmd_LMS_MCU_FW_WR dev s = Ret s'"
    using fin unfolding cmd v by (simp add: portion_status_def set_status_Ret s'_def)
  have "command_done s s'"
    by (rule post_RetD [OF runs_post [OF cmd_LMS_MCU_FW_WR_done [OF well_formed_effect [OF wf]]] run])
  moreover have "memory s' Tx_buffer = (memory s Tx_buffer)
      [Status := if cmd_errors s' \<noteq> 0 then STATUS_ERROR_CMD else STATUS_COMPLETED_CMD]"
    and same: "last_portion s' = last_portion v" "current_portion s' = current_portion v"
      "cmd_errors s' = cmd_errors v" "io s' = io v"
    using fin by (simp_all add: s'_def)
  ultimately have "portion_loaded N s s'"
    using fin unfolding portion_loaded_def same by blast
  then show ?thesis using run by (simp add: yields_Ret)
qed

text \<open>The first portion in boot mode returns whatever the microcontroller answers.\<close>

definition portion_boots :: "machine \<Rightarrow> machine \<Rightarrow> bool" where
  "portion_boots s s' =
     (last_portion s' = last_portion s
      \<and> bus_writes SPI_LMS_BASE (io s') = bus_writes SPI_LMS_BASE (io s)
           @ concat (map (spi_transaction 0 0) (start_frames 3)))"

lemma cmd_MCU_never_ready:
  assumes ok: "spi_ok dev" and never: "mcu_never_ready dev" and wf: "well_formed s"
    and order: "mcu_in_order (s\<lparr>current_portion := ucast (memory s Rx_buffer ! 9)\<rparr>)"
  shows "if memory s Rx_buffer ! 9 = 0 \<and> memory s Rx_buffer ! 8 = 3
    then \<exists>s'. cmd_LMS_MCU_FW_WR dev s = Ret s' \<and> portion_boots s s'
    else cmd_LMS_MCU_FW_WR dev s = Hang"
proof -
  obtain booting u where begun: "portion_begun s (booting, u)"
    and cmd: "cmd_LMS_MCU_FW_WR dev s = seq (if booting then Ret u else mcu_program dev u) portion_status"
    by (rule cmd_MCU_begins [OF ok wf order])
  show ?thesis
  proof (cases booting)
    case True
    with begun have "mcu_sends (start_frames 3) (s\<lparr>current_portion := 0\<rparr>) u"
      "memory s Rx_buffer ! 9 = 0" "memory s Rx_buffer ! 8 = 3"
      using portion_begun_boot [of s u] by simp_all
    with True show ?thesis
      unfolding cmd
      by (auto simp: mcu_sends_def portion_boots_def portion_status_def set_status_Ret SPI_NR_LMS7002M_def)
  next
    case False
    with begun have "well_formed u" "\<not> (memory s Rx_buffer ! 9 = 0 \<and> memory s Rx_buffer ! 8 = 3)"
      by (auto simp: portion_begun_def mcu_sends_def)
    with False mcu_program_hangs [OF ok never] show ?thesis
      unfolding cmd by simp
  qed
qed

section \<open>Properties\<close>

text \<open>A board whose microcontroller empties its buffer during two status polls, and one whose
  microcontroller never does; every other word they answer is that of an echoing slave.\<close>

definition polled_board :: "nat \<Rightarrow> u32 \<Rightarrow> device" where
  "polled_board n v t a =
     (if a = reg_address SPI_LMS_BASE SPI_RXDATA \<and> status_polled n t then v else echo_board t a)"

definition slow_board :: device where "slow_board = polled_board 2 1"
definition dead_board :: device where "dead_board = polled_board 0 0"

lemma polled_board_ok: "spi_ok (polled_board n v)"
proof -
  have "reg_address base 2 \<noteq> reg_address SPI_LMS_BASE 0" if "base \<in> spi_bases" for base
    using that by (auto simp: spi_bases_def base_defs reg_address_def)
  then have "polled_board n v t (reg_address base 2) = echo_board t (reg_address base 2)"
    if "base \<in> spi_bases" for base t
    using that by (simp add: polled_board_def)
  then show ?thesis
    using echo_board_ok by (simp add: spi_ok_def spi_core_def spi_live_def spi_bases_def)
qed

lemma boards_ok: "spi_ok slow_board" "spi_ok dead_board"
  by (simp_all add: slow_board_def dead_board_def polled_board_ok)

lemma slow_board_live: "mcu_live 2 slow_board"
  by (simp add: mcu_live_def slow_board_def polled_board_def)

lemma dead_board_dead: "mcu_never_ready dead_board"
  by (simp add: mcu_never_ready_def dead_board_def polled_board_def)

text \<open>A portion of the microcontroller's firmware that is neither the first nor the successor
  of the last one is refused with the status WRONG_ORDER: no bus access, and only the number of the
  portion is recorded.\<close>

lemma portion_out_of_order:
  assumes "well_formed s" and "memory s Rx_buffer ! 9 \<noteq> 0"
    and "last_portion s \<noteq> ucast (memory s Rx_buffer ! 9) - 1"
  shows "cmd_LMS_MCU_FW_WR dev s = Ret (s\<lparr>current_portion := ucast (memory s Rx_buffer ! 9),
     memory := (memory s)(Tx_buffer := (memory s Tx_buffer)[Status := STATUS_WRONG_ORDER_CMD])\<rparr>)"
  using assms by (simp add: cmd_LMS_MCU_FW_WR_def layout mcu_in_order_def ucast_zero set_status_Ret)

lemma portion_out_of_order_witness:
  "cmd_LMS_MCU_FW_WR echo_board (with_packet [0x2C, 0, 1] [1, 7]) =
     Ret ((with_packet [0x2C, 0, 1] [1, 7])\<lparr>current_portion := ucast (memory (with_packet [0x2C, 0, 1] [1, 7]) Rx_buffer ! 9),
     memory := (memory (with_packet [0x2C, 0, 1] [1, 7]))(Tx_buffer :=
       (memory (with_packet [0x2C, 0, 1] [1, 7]) Tx_buffer)[Status := STATUS_WRONG_ORDER_CMD])\<rparr>)"
  by (rule portion_out_of_order [OF with_packet_well_formed])
    (simp_all add: with_packet_def initial_machine_def nth_append)

text \<open>Property C6. When the microcontroller empties its write buffer within \<open>N\<close> status polls in a row,
  a portion in order is answered.  The first one resets the part and sets its mode, and in mode 3
  (boot) that is all: nothing is loaded, and the last portion stays.  Otherwise the status is polled
  between 1 and \<open>N + 1\<close> times, at most 30; the 32 bytes are written to the FIFO register in order;
  the status is polled between 1 and \<open>N + 1\<close> times; for portion 255 it is polled between 1 and 30
  times more, and an error may be counted only after 30; and the portion is recorded as the last
  one.  The status of the answer is ERROR exactly when the error counter is not zero.\<close>

theorem portion_is_loaded:
  assumes "spi_ok dev" and "mcu_live N dev" and "well_formed s"
    and "mcu_in_order (s\<lparr>current_portion := ucast (memory s Rx_buffer ! 9)\<rparr>)"
  shows "\<exists>s'. cmd_LMS_MCU_FW_WR dev s = Ret s' \<and> portion_loaded N s s'"
  using cmd_MCU_in_order [OF assms] by (simp add: yields_Ret)

lemma portion_is_loaded_witness:
  "\<exists>s'. cmd_LMS_MCU_FW_WR slow_board (with_packet [0x2C, 0, 1] [2, 0, 11, 12]) = Ret s'
     \<and> portion_loaded 2 (with_packet [0x2C, 0, 1] [2, 0, 11, 12]) s'"
  by (rule portion_is_loaded [OF boards_ok(1) slow_board_live with_packet_well_formed])
    (simp add: mcu_in_order_def with_packet_def nth_append)

text \<open>Property C11. The wait after the FIFO has the limit 500 for a counter of 8 bits: when no status
  poll ever reports the buffer empty, a portion in order is never answered.  The only exception is
  the first portion in boot mode, which waits for nothing: it is answered, after the reset, the mode
  and one status read, and leaves the last portion.\<close>

theorem download_never_ends:
  assumes "spi_ok dev" and "mcu_never_ready dev" and "well_formed s"
    and "mcu_in_order (s\<lparr>current_portion := ucast (memory s Rx_buffer ! 9)\<rparr>)"
  shows "if memory s Rx_buffer ! 9 = 0 \<and> memory s Rx_buffer ! 8 = 3
    then \<exists>s'. cmd_LMS_MCU_FW_WR dev s = Ret s' \<and> portion_boots s s'
    else cmd_LMS_MCU_FW_WR dev s = Hang"
  using assms by (rule cmd_MCU_never_ready)

lemma download_never_ends_witness:
  "cmd_LMS_MCU_FW_WR dead_board (with_packet [0x2C, 0, 1] [1, 1]) = Hang"
  using download_never_ends [OF boards_ok(2) dead_board_dead with_packet_well_formed [of "[0x2C, 0, 1]" "[1, 1]"]]
  by (simp add: mcu_in_order_def with_packet_def initial_machine_def nth_append)

end
