(* ===== verification/Main_Loop.thy ===== *)
theory Main_Loop
  imports Mcu
begin

text \<open>
  \<open>main\<close> of the control firmware: initialisation of the board, then for ever: poll the FIFO, and for
  each packet found there read it, prepare the response, run the command and send the response.
  The never-ending loop is the inductive set \<open>reachable\<close> of the states at its head, and \<open>main\<close>
  itself, which never returns.
\<close>

section \<open>One packet\<close>

definition copy_header :: action where
  "copy_header =
     run [\<lambda>s. seq (peek (Rx_buffer, Command) s) (\<lambda>v. poke (Tx_buffer, Command) v s),
          \<lambda>s. seq (peek (Rx_buffer, Data_blocks) s) (\<lambda>v. poke (Tx_buffer, Data_blocks) v s),
          \<lambda>s. seq (peek (Rx_buffer, Periph_ID) s) (\<lambda>v. poke (Tx_buffer, Periph_ID) v s),
          set_status STATUS_BUSY_CMD]"

definition clear_tx :: action where
  "clear_tx = pokes Tx_buffer 0 (replicate 64 0)"

text \<open>The switch over the command.\<close>

definition command_case :: "device \<Rightarrow> u8 \<Rightarrow> action" where
  "command_case dev c =
     (if c = CMD_GET_INFO then cmd_GET_INFO
      else if c = CMD_LMS_RST then cmd_LMS_RST
      else if c = CMD_LMS7002_WR then cmd_LMS7002_WR dev
      else if c = CMD_LMS7002_RD then cmd_LMS7002_RD dev
      else if c = CMD_BRDSPI16_WR then cmd_BRDSPI16_WR dev
      else if c = CMD_BRDSPI16_RD then cmd_BRDSPI16_RD dev
      else if c = CMD_ADF4002_WR then cmd_ADF4002_WR dev
      else if c = CMD_ANALOG_VAL_RD then cmd_ANALOG_VAL_RD dev
      else if c = CMD_ANALOG_VAL_WR then cmd_ANALOG_VAL_WR dev
      else if c = CMD_LMS_MCU_FW_WR then cmd_LMS_MCU_FW_WR dev
      else if c = CMD_GPIO_DIR_WR then cmd_GPIO_DIR_WR dev
      else if c = CMD_GPIO_DIR_RD then cmd_GPIO_DIR_RD dev
      else if c = CMD_GPIO_WR then cmd_GPIO_WR dev
      else if c = CMD_GPIO_RD then cmd_GPIO_RD dev
      else set_status STATUS_UNKNOWN_CMD)"

definition handle_command :: "device \<Rightarrow> action" where
  "handle_command dev s = seq (peek (Rx_buffer, Command) s) (\<lambda>c. command_case dev c s)"

text \<open>Switch the first LED on or off, leaving the others as the register reads.\<close>

definition led_on :: "device \<Rightarrow> action" where
  "led_on dev s = seq (iord dev LEDS_BASE 0 s) (\<lambda>(v, s). set_led (ucast v OR 0x01) s)"

definition led_off :: "device \<Rightarrow> action" where
  "led_off dev s = seq (iord dev LEDS_BASE 0 s) (\<lambda>(v, s). set_led (ucast v AND 0xFE) s)"

definition receive_packet :: "device \<Rightarrow> action" where
  "receive_packet dev =
     run [iowr AV_FIFO_INT_0_BASE 3 1, iowr AV_FIFO_INT_0_BASE 3 0, led_on dev,
          getFifoData dev Rx_buffer 64, clear_tx,
          \<lambda>s. Ret (s\<lparr>cmd_errors := 0\<rparr>), copy_header]"

definition process_packet :: "device \<Rightarrow> action" where
  "process_packet dev = run [receive_packet dev, handle_command dev, send_response, led_off dev]"

definition main_iteration :: "device \<Rightarrow> action" where
  "main_iteration dev s =
     seq (iord dev AV_FIFO_INT_0_BASE 2 s) (\<lambda>(status, s).
     if status AND 0x01 = 0 then process_packet dev s else Ret s)"

section \<open>Initialisation and the loop\<close>

definition i2c_init :: action where
  "i2c_init s = Ret (s\<lparr>io := I2C_init I2C_OPENCORES_0_BASE ALT_CPU_FREQ 400000 (io s)\<rparr>)"

definition load_dac_val :: "device \<Rightarrow> action" where
  "load_dac_val dev s =
     seq (rd_dac_val dev DAC_VAL_ADDR s) (\<lambda>(eeprom_dac_val, s).
     poke (Dac_val, 0) (if eeprom_dac_val = 0xFFFF then DAC_DEFF_VAL else ucast eeprom_dac_val) s)"

definition main_init :: "device \<Rightarrow> action" where
  "main_init dev =
     run [iowr LMS_CTR_GPIO_BASE 0 0x06, iowr LMS_CTR_GPIO_BASE 0 0x07, i2c_init,
          load_dac_val dev, Control_TCXO_ADF dev 0 (Null, 0), Control_TCXO_DAC dev 1 (Dac_val, 0),
          Configure_LM75 dev]"

definition main :: "device \<Rightarrow> machine outcome" where
  "main dev =
     seq (main_init dev initial_machine)
       (loop (\<lambda>s. seq (main_iteration dev s) (\<lambda>s. Ret (Again s))))"

inductive_set reachable :: "device \<Rightarrow> machine set" for dev where
  start: "main_init dev initial_machine = Ret s \<Longrightarrow> s \<in> reachable dev"
| turn: "s \<in> reachable dev \<Longrightarrow> main_iteration dev s = Ret s' \<Longrightarrow> s' \<in> reachable dev"

section \<open>Effects\<close>

abbreviation any_effect :: "machine \<Rightarrow> machine \<Rightarrow> bool" where
  "any_effect \<equiv> effect UNIV peripherals"

lemma peripherals_simps [simp]:
  "AV_FIFO_INT_0_BASE \<in> peripherals" "I2C_OPENCORES_0_BASE \<in> peripherals" "LEDS_BASE \<in> peripherals"
  "LMS_CTR_GPIO_BASE \<in> peripherals" "SPI_1_ADF_BASE \<in> peripherals" "SPI_1_DAC_BASE \<in> peripherals"
  "SPI_LMS_BASE \<in> peripherals"
  by (simp_all add: peripherals_def)

lemma i2c_init_effect [effect_rules]:
  "effect W B s0 s \<Longrightarrow> I2C_OPENCORES_0_BASE \<in> B \<Longrightarrow> runs L (i2c_init s) (effect W B s0)"
  unfolding i2c_init_def runs_Ret by (rule io_effect [OF _ I2C_init_bus(1)])

text \<open>The cores the initialisation uses: not the FIFO, nor the LEDs.\<close>

abbreviation init_buses :: "u32 set" where
  "init_buses \<equiv> {LMS_CTR_GPIO_BASE, I2C_OPENCORES_0_BASE, SPI_1_ADF_BASE, SPI_1_DAC_BASE}"

lemma main_init_effect:
  assumes "effect UNIV init_buses s0 s"
  shows "runs (spi_ok dev) (main_init dev s) (effect UNIV init_buses s0)"
  unfolding main_init_def load_dac_val_def run.simps
  using assms by (auto intro!: effect_rules simp: effect_well_formed)

lemma led_effect [effect_rules]:
  assumes "effect W B s0 s" and "LEDS_BASE \<in> B"
  shows "runs L (led_on dev s) (effect W B s0)" and "runs L (led_off dev s) (effect W B s0)"
  unfolding led_on_def led_off_def set_led_def
  using assms by (auto intro!: effect_rules)

section \<open>Receiving a packet\<close>

definition fifo_read :: "nat \<Rightarrow> machine \<Rightarrow> machine \<Rightarrow> u32 list \<Rightarrow> bool" where
  "fifo_read n s s' words =
     (only_memory s s' \<and> well_formed s' \<and> (\<forall>r. r \<noteq> Rx_buffer \<longrightarrow> memory s' r = memory s r)
      \<and> length words = n \<and> take (4 * n) (memory s' Rx_buffer) = concat (map word_bytes words)
      \<and> bus_reads AV_FIFO_INT_0_BASE 1 (io s') = bus_reads AV_FIFO_INT_0_BASE 1 (io s) @ words
      \<and> bus_writes AV_FIFO_INT_0_BASE (io s') = bus_writes AV_FIFO_INT_0_BASE (io s)
      \<and> extends (at_window AV_FIFO_INT_0_BASE) (io s) (io s'))"

lemma getFifoData_exact:
  assumes wf: "well_formed s"
  shows "yields (getFifoData dev Rx_buffer 64 s) (\<lambda>s'. \<exists>words. fifo_read 16 s s' words)"
proof -
  let ?b = AV_FIFO_INT_0_BASE
  let ?body = "\<lambda>cnt s. seq (iord dev ?b 1 s) (\<lambda>(v, s). store_word (Rx_buffer, 4 * cnt) v s)"
  have "yields (for_up ?body 0 16 s) (\<lambda>s'. \<exists>words. fifo_read (0 + 16) s s' words)"
  proof (rule for_up_yields)
    show "\<exists>words. fifo_read 0 s s words"
      using wf by (auto simp: fifo_read_def)
    fix i u assume i: "i < 0 + 16" and "\<exists>words. fifo_read i s u words"
    then obtain words where u: "fifo_read i s u words" by blast
    let ?v = "dev (io u) (reg_address ?b 1)"
    let ?m = "put_bytes Rx_buffer (4 * i) (word_bytes ?v) (memory u)"
    let ?u = "u\<lparr>memory := ?m, io := io u @ [Rd (reg_address ?b 1) ?v]\<rparr>"
    have len: "length (memory u Rx_buffer) = 64"
      using u by (simp add: fifo_read_def)
    have "?body i u = Ret ?u"
      using i len by (simp add: iord_def IORD_def store_word_Ret Let_def)
    moreover have "take (4 * Suc i) (?m Rx_buffer) = concat (map word_bytes (words @ [?v]))"
      using u i len length_concat_words [of words] by (simp add: put_bytes_def fifo_read_def)
    then have "fifo_read (Suc i) s ?u (words @ [?v])"
      using u i len wf
      by (auto simp: fifo_read_def put_bytes_def well_formed_def intro!: extends_snoc)
    ultimately show "yields (?body i u) (\<lambda>s'. \<exists>words. fifo_read (Suc i) s s' words)"
      by auto
  qed
  then show ?thesis by (simp add: getFifoData_def)
qed

text \<open>The response is prepared: header echoed, status BUSY, all else zero.\<close>

definition prepared :: "u8 list \<Rightarrow> u8 list" where
  "prepared req = [req ! 0, STATUS_BUSY_CMD, req ! 2, req ! 3] @ replicate 60 0"

lemma clear_and_copy:
  assumes wf: "well_formed s"
  shows "run [clear_tx, \<lambda>s. Ret (s\<lparr>cmd_errors := 0\<rparr>), copy_header] s =
    Ret (s\<lparr>memory := (memory s)(Tx_buffer := prepared (memory s Rx_buffer)), cmd_errors := 0\<rparr>)"
proof -
  have clear: "clear_tx s = Ret (s\<lparr>memory := (memory s)(Tx_buffer := replicate 64 0)\<rparr>)"
    unfolding clear_tx_def using wf by (subst pokes_Ret) simp_all
  let ?s = "s\<lparr>memory := (memory s)(Tx_buffer := replicate 64 0), cmd_errors := 0\<rparr>"
  have zeros: "replicate 64 (0 :: u8) = [0, 0, 0, 0] @ replicate 60 0"
    by (simp add: eval_nat_numeral)
  have "copy_header ?s = Ret (?s\<lparr>memory := (memory s)(Tx_buffer := prepared (memory s Rx_buffer))\<rparr>)"
    unfolding zeros copy_header_def prepared_def set_status_def
    using wf by (simp add: poke_Ret numeral_2_eq_2 numeral_3_eq_3)
  then show ?thesis using clear by simp
qed

lemma led_exact:
  "yields (led_on dev s) (\<lambda>s'. only_io s s' \<and> extends (at_window LEDS_BASE) (io s) (io s'))"
  "yields (led_off dev s) (\<lambda>s'. only_io s s' \<and> extends (at_window LEDS_BASE) (io s) (io s'))"
  by (auto simp: led_on_def led_off_def set_led_def iord_def iowr_def split_beta intro!: frame_intros)

lemma leds_not_fifo: "at_window LEDS_BASE e \<Longrightarrow> \<not> at_window AV_FIFO_INT_0_BASE e"
proof -
  have "LEDS_BASE \<noteq> AV_FIFO_INT_0_BASE" by (simp add: base_defs)
  then show "at_window LEDS_BASE e \<Longrightarrow> \<not> at_window AV_FIFO_INT_0_BASE e"
    by (intro peripherals_apart) simp_all
qed

lemma receive_packet_exact:
  assumes wf: "well_formed s"
  shows "yields (receive_packet dev s) (\<lambda>s'. \<exists>words. length words = 16
     \<and> well_formed s' \<and> memory s' Rx_buffer = concat (map word_bytes words)
     \<and> memory s' Tx_buffer = prepared (memory s' Rx_buffer)
     \<and> (\<forall>r. r \<noteq> Rx_buffer \<longrightarrow> r \<noteq> Tx_buffer \<longrightarrow> memory s' r = memory s r)
     \<and> cmd_errors s' = 0 \<and> last_portion s' = last_portion s
     \<and> bus_reads AV_FIFO_INT_0_BASE 1 (io s') = bus_reads AV_FIFO_INT_0_BASE 1 (io s) @ words
     \<and> bus_writes AV_FIFO_INT_0_BASE (io s') = bus_writes AV_FIFO_INT_0_BASE (io s) @ [(3, 1), (3, 0)]
     \<and> extends (touches {AV_FIFO_INT_0_BASE, LEDS_BASE}) (io s) (io s'))"
proof -
  let ?b = AV_FIFO_INT_0_BASE
  let ?t = "IOWR ?b 3 0 (IOWR ?b 3 1 (io s))"
  obtain l where led: "led_on dev (s\<lparr>io := ?t\<rparr>) = Ret l" and only: "only_io s l"
    and lt: "extends (at_window LEDS_BASE) ?t (io l)"
    using led_exact(1) [of dev "s\<lparr>io := ?t\<rparr>"] by (auto simp: yields_Ret only_io_def only_memory_def)
  have run: "receive_packet dev s = seq (getFifoData dev Rx_buffer 64 l)
      (run [clear_tx, \<lambda>s. Ret (s\<lparr>cmd_errors := 0\<rparr>), copy_header])"
    using led by (simp add: receive_packet_def iowr_def)
  have wf': "well_formed l" using wf only by (simp add: only_io_fields)
  have ext: "extends (touches {?b, LEDS_BASE}) (io s) ?t"
    by (simp add: IOWR_def touches_def extends_def)
  show ?thesis
    unfolding run
  proof (rule yields_seq [OF getFifoData_exact [OF wf']], elim exE)
    fix u words assume u: "fifo_read 16 l u words"
    have "extends (touches {?b, LEDS_BASE}) ?t (io l)" "extends (touches {?b, LEDS_BASE}) (io l) (io u)"
      using lt u by (auto simp: fifo_read_def elim!: extends_weaken intro: at_window_touches)
    with ext have "extends (touches {?b, LEDS_BASE}) (io s) (io u)"
      by (blast intro: extends_trans)
    moreover have "bus_writes ?b (io l) = bus_writes ?b (io s) @ [(3, 1), (3, 0)]"
      using extends_bus_writes [OF lt leds_not_fifo] by simp
    moreover have "bus_reads ?b 1 (io l) = bus_reads ?b 1 (io s)"
      using extends_bus_reads [OF lt leds_not_fifo, of 1] by simp
    moreover have rx: "memory u Rx_buffer = concat (map word_bytes words)" and wfu: "well_formed u"
      using u by (auto simp: fifo_read_def)
    moreover have "well_formed (u\<lparr>memory := (memory u)(Tx_buffer := prepared (memory u Rx_buffer)), cmd_errors := 0\<rparr>)"
      using wfu by (simp add: well_formed_def prepared_def)
    moreover have "last_portion u = last_portion s" "\<forall>r. r \<noteq> Rx_buffer \<longrightarrow> memory u r = memory s r"
      "length words = 16" "bus_reads ?b 1 (io u) = bus_reads ?b 1 (io l) @ words"
      "bus_writes ?b (io u) = bus_writes ?b (io l)"
      using u only by (auto simp: fifo_read_def only_memory_def only_io_def)
    ultimately show "yields (run [clear_tx, \<lambda>s. Ret (s\<lparr>cmd_errors := 0\<rparr>), copy_header] u)
      (\<lambda>s'. \<exists>words. length words = 16
         \<and> well_formed s' \<and> memory s' Rx_buffer = concat (map word_bytes words)
         \<and> memory s' Tx_buffer = prepared (memory s' Rx_buffer)
         \<and> (\<forall>r. r \<noteq> Rx_buffer \<longrightarrow> r \<noteq> Tx_buffer \<longrightarrow> memory s' r = memory s r)
         \<and> cmd_errors s' = 0 \<and> last_portion s' = last_portion s
         \<and> bus_reads ?b 1 (io s') = bus_reads ?b 1 (io s) @ words
         \<and> bus_writes ?b (io s') = bus_writes ?b (io s) @ [(3, 1), (3, 0)]
         \<and> extends (touches {?b, LEDS_BASE}) (io s) (io s'))"
      unfolding clear_and_copy [OF wfu] by (intro yields.simps(1) [THEN iffD2] exI [of _ words]) simp
  qed
qed

section \<open>Sending the response\<close>

definition response_words :: "u8 list \<Rightarrow> u32 list" where
  "response_words tx = map (\<lambda>i. bytes_word (take 4 (drop (4 * i) tx))) [0..<16]"

lemma response_bytes:
  assumes "length tx = 64"
  shows "concat (map word_bytes (response_words tx)) = tx"
proof -
  have "map word_bytes (response_words tx) = map (\<lambda>i. take 4 (drop (4 * i) tx)) [0..<16]"
    using assms by (auto simp: response_words_def intro!: word_bytes_bytes_word4)
  then show ?thesis using assms by (simp add: concat_chunks)
qed

lemma send_response_exact:
  assumes wf: "well_formed s"
  shows "yields (send_response s) (\<lambda>s'. only_io s s' \<and> extends (at_window AV_FIFO_INT_0_BASE) (io s) (io s')
     \<and> bus_reads AV_FIFO_INT_0_BASE 1 (io s') = bus_reads AV_FIFO_INT_0_BASE 1 (io s)
     \<and> bus_writes AV_FIFO_INT_0_BASE (io s') = bus_writes AV_FIFO_INT_0_BASE (io s)
         @ map (Pair 0) (response_words (memory s Tx_buffer)))"
proof -
  let ?b = AV_FIFO_INT_0_BASE
  let ?w = "\<lambda>i. bytes_word (take 4 (drop (4 * i) (memory s Tx_buffer)))"
  let ?body = "\<lambda>cnt s. seq (load_word (Tx_buffer, 4 * cnt) s) (\<lambda>v. iowr ?b 0 v s)"
  let ?I = "\<lambda>i s'. only_io s s' \<and> extends (at_window ?b) (io s) (io s')
     \<and> bus_reads ?b 1 (io s') = bus_reads ?b 1 (io s)
     \<and> bus_writes ?b (io s') = bus_writes ?b (io s) @ map (Pair 0) (map ?w [0..<i])"
  have "yields (for_up ?body 0 16 s) (?I (0 + 16))"
  proof (rule for_up_yields)
    fix i u assume i: "i < 0 + 16" and u: "?I i u"
    have mem: "memory u = memory s" using u by (simp add: only_io_def)
    have "?body i u = Ret (u\<lparr>io := IOWR ?b 0 (?w i) (io u)\<rparr>)"
      using i wf by (subst load_word_Ret) (simp_all add: mem iowr_def bytes_at_def)
    with u show "yields (?body i u) (?I (Suc i))"
      by (auto intro: extends_IOWR)
  qed simp
  then show ?thesis by (simp add: send_response_def response_words_def)
qed

section \<open>Handling a command\<close>

text \<open>The one request that runs past the buffers.\<close>

definition overlong :: "u8 list \<Rightarrow> bool" where
  "overlong req = (req ! 0 = CMD_ANALOG_VAL_RD \<and> unat (req ! 2) > 14)"

lemma gpio_commands: 
  "cmd_GPIO_DIR_WR = (\<lambda>dev. gpio_write dev 0xC4)" "cmd_GPIO_DIR_RD = (\<lambda>dev. gpio_read dev 0xC4)"
  "cmd_GPIO_WR = (\<lambda>dev. gpio_write dev 0xC6)" "cmd_GPIO_RD = (\<lambda>dev. gpio_read dev 0xC2)"
  by (simp_all add: fun_eq_iff cmd_GPIO_DIR_WR_def cmd_GPIO_DIR_RD_def cmd_GPIO_WR_def cmd_GPIO_RD_def)

lemmas commands_done = cmd_GET_INFO_done cmd_LMS_RST_done spi_write_blocks_done spi_read_blocks_done
  cmd_ADF4002_WR_done cmd_ANALOG_VAL_RD_done cmd_ANALOG_VAL_WR_done gpio_done set_status_done

lemma command_case_done:
  assumes e: "command_effect s0 s" and "c = CMD_ANALOG_VAL_RD \<Longrightarrow> unat (memory s0 Rx_buffer ! 2) \<le> 14"
  shows "runs (spi_ok dev \<and> c \<noteq> CMD_LMS_MCU_FW_WR) (command_case dev c s) (command_done s0)"
proof (cases "c = CMD_LMS_MCU_FW_WR")
  case True
  then have "command_case dev c = cmd_LMS_MCU_FW_WR dev"
    by (simp add: command_case_def command_defs)
  then show ?thesis
    using cmd_LMS_MCU_FW_WR_done [OF e, of dev] True by (simp add: runs_def)
next
  case False
  have "runs (spi_ok dev) (command_case dev c s) (command_done s0)"
    unfolding command_case_def gpio_commands
    using False assms by (auto intro!: commands_done)
  then show ?thesis by (simp add: runs_def)
qed

lemma handle_command_done:
  assumes wf: "well_formed s" and "\<not> overlong (memory s Rx_buffer)"
  shows "runs (spi_ok dev \<and> memory s Rx_buffer ! 0 \<noteq> CMD_LMS_MCU_FW_WR) (handle_command dev s) (command_done s)"
  using command_case_done [OF effect_refl [OF wf], of "memory s Rx_buffer ! 0" dev] assms
  by (auto simp: handle_command_def overlong_def not_less)

lemma handle_command_Ret:
  assumes "handle_command dev s = Ret s'" and wf: "well_formed s"
  shows "command_done s s'"
proof (cases "memory s Rx_buffer ! 0 = CMD_ANALOG_VAL_RD")
  case True
  then have "handle_command dev s = cmd_ANALOG_VAL_RD dev s"
    using wf by (simp add: handle_command_def command_case_def command_defs)
  with assms(1) show ?thesis
    using cmd_ANALOG_VAL_RD_Ret effect_refl [OF wf] by metis
next
  case False
  then show ?thesis
    using handle_command_done [OF wf, of dev] assms(1) by (simp add: overlong_def runs_def)
qed

section \<open>The response to a packet\<close>

text \<open>The packet the FIFO holds when it is read in state \<open>s\<close>.\<close>

definition packet :: "device \<Rightarrow> machine \<Rightarrow> u8 list" where
  "packet dev s = (case receive_packet dev s of Ret s' \<Rightarrow> memory s' Rx_buffer | _ \<Rightarrow> [])"

text \<open>The packet \<open>resp\<close> is a response to the packet \<open>req\<close>: it has the request's header and a final status.\<close>

definition answers :: "u8 list \<Rightarrow> u8 list \<Rightarrow> bool" where
  "answers req resp =
     (length resp = 64 \<and> resp ! 0 = req ! 0 \<and> final_status (resp ! 1) \<and> resp ! 2 = req ! 2
      \<and> resp ! 3 = req ! 3 \<and> (\<forall>i. 4 \<le> i \<longrightarrow> i < 8 \<longrightarrow> resp ! i = 0))"

text \<open>
  What the host gets for the request \<open>req\<close>: the FIFO is reset, 16 words are read from it, and 16
  words are written that hold a response to it.
\<close>

definition responds :: "u8 list \<Rightarrow> machine \<Rightarrow> machine \<Rightarrow> bool" where
  "responds req s s' =
     (well_formed s'
      \<and> (\<exists>words. length words = 16 \<and> req = concat (map word_bytes words)
          \<and> bus_reads AV_FIFO_INT_0_BASE 1 (io s') = bus_reads AV_FIFO_INT_0_BASE 1 (io s) @ words)
      \<and> (\<exists>resp. answers req resp
          \<and> bus_writes AV_FIFO_INT_0_BASE (io s') = bus_writes AV_FIFO_INT_0_BASE (io s)
              @ [(3, 1), (3, 0)] @ map (Pair 0) (response_words resp)))"

lemma send_and_led_off:
  assumes wf: "well_formed u"
  shows "yields (run [send_response, led_off dev] u) (\<lambda>s'. well_formed s'
     \<and> bus_writes AV_FIFO_INT_0_BASE (io s') =
         bus_writes AV_FIFO_INT_0_BASE (io u) @ map (Pair 0) (response_words (memory u Tx_buffer))
     \<and> bus_reads AV_FIFO_INT_0_BASE 1 (io s') = bus_reads AV_FIFO_INT_0_BASE 1 (io u))"
  unfolding run.simps seq_Ret_right
  by (intro yields_seq [OF send_response_exact [OF wf]] yields_mono [OF led_exact(2)])
    (use wf in \<open>auto simp: only_io_fields extends_bus_writes [OF _ leds_not_fifo]
      extends_bus_reads [OF _ leds_not_fifo]\<close>)

lemma respond:
  assumes e: "command_done s u" and tx: "memory s Tx_buffer = prepared req"
    and reads: "length words = 16" "req = concat (map word_bytes words)"
      "bus_reads AV_FIFO_INT_0_BASE 1 (io s) = bus_reads AV_FIFO_INT_0_BASE 1 (io s0) @ words"
    and writes: "bus_writes AV_FIFO_INT_0_BASE (io s) = bus_writes AV_FIFO_INT_0_BASE (io s0) @ [(3, 1), (3, 0)]"
  shows "yields (run [send_response, led_off dev] u) (responds req s0)"
proof -
  have wfu: "well_formed u" and eff: "command_effect s u"
    using e by (auto simp: command_done_def effect_def)
  have header: "memory u Tx_buffer ! i = prepared req ! i" if "i < 8" "i \<noteq> 1" for i
    using effect_memory [OF eff, of Tx_buffer i] that tx by simp
  have "final_status (memory u Tx_buffer ! 1)" using e by (simp add: command_done_def)
  moreover have "bus_writes AV_FIFO_INT_0_BASE (io u) = bus_writes AV_FIFO_INT_0_BASE (io s)"
    "bus_reads AV_FIFO_INT_0_BASE 1 (io u) = bus_reads AV_FIFO_INT_0_BASE 1 (io s)"
    by (simp_all add: effect_bus_writes [OF eff] effect_bus_reads [OF eff] command_buses_peripherals)
  ultimately show ?thesis
    using wfu reads writes
    by (intro yields_mono [OF send_and_led_off [OF wfu]])
      (auto simp: responds_def answers_def header prepared_def nth_append intro!: exI [of _ "memory u Tx_buffer"])
qed

lemma process_packet_responds:
  assumes wf: "well_formed s" and ok: "\<not> overlong (packet dev s)"
  shows "runs (spi_ok dev \<and> packet dev s ! 0 \<noteq> CMD_LMS_MCU_FW_WR) (process_packet dev s)
    (responds (packet dev s) s)"
proof -
  from receive_packet_exact [OF wf, of dev] obtain r words where
    r: "receive_packet dev s = Ret r" and wfr: "well_formed r" and len: "length words = 16"
    and rx: "memory r Rx_buffer = concat (map word_bytes words)"
    and tx: "memory r Tx_buffer = prepared (memory r Rx_buffer)"
    and io: "bus_reads AV_FIFO_INT_0_BASE 1 (io r) = bus_reads AV_FIFO_INT_0_BASE 1 (io s) @ words"
      "bus_writes AV_FIFO_INT_0_BASE (io r) = bus_writes AV_FIFO_INT_0_BASE (io s) @ [(3, 1), (3, 0)]"
    by (auto simp: yields_Ret)
  have pk: "packet dev s = memory r Rx_buffer" using r by (simp add: packet_def)
  have "process_packet dev s = seq (handle_command dev r) (run [send_response, led_off dev])"
    using r by (simp add: process_packet_def run_simps)
  moreover have "runs L (run [send_response, led_off dev] u) (responds (packet dev s) s)"
    if "command_done r u" for u L
    by (rule yields_runs, rule respond [OF that _ len]) (use tx rx io pk in simp_all)
  ultimately show ?thesis
    using handle_command_done [OF wfr, of dev] ok pk by (auto intro: runs_seq)
qed

lemma process_packet_Ret:
  assumes p: "process_packet dev s = Ret s'" and wf: "well_formed s"
  shows "responds (packet dev s) s s'"
proof -
  from receive_packet_exact [OF wf, of dev] obtain r words where
    r: "receive_packet dev s = Ret r" and wfr: "well_formed r" and len: "length words = 16"
    and rx: "memory r Rx_buffer = concat (map word_bytes words)"
    and tx: "memory r Tx_buffer = prepared (memory r Rx_buffer)"
    and io: "bus_reads AV_FIFO_INT_0_BASE 1 (io r) = bus_reads AV_FIFO_INT_0_BASE 1 (io s) @ words"
      "bus_writes AV_FIFO_INT_0_BASE (io r) = bus_writes AV_FIFO_INT_0_BASE (io s) @ [(3, 1), (3, 0)]"
    by (auto simp: yields_Ret)
  from p r obtain u where u: "handle_command dev r = Ret u"
    and s': "run [send_response, led_off dev] u = Ret s'"
    by (auto simp: process_packet_def run_simps seq_eq_Ret)
  have "packet dev s = memory r Rx_buffer" using r by (simp add: packet_def)
  then have "yields (run [send_response, led_off dev] u) (responds (packet dev s) s)"
    using respond [OF handle_command_Ret [OF u wfr] tx len _ io] rx by simp
  with s' show ?thesis by simp
qed

section \<open>The loop\<close>

text \<open>
  The FIFO is in step: all that was read from it is requests of 16 words, and all that was written
  to it is, for each of them in order, the reset of the FIFO and a response of 16 words to it. No request is
  answered twice or skipped, and no word is written besides.
\<close>

definition exchanged :: "(u32 list \<times> u8 list) list \<Rightarrow> machine \<Rightarrow> bool" where
  "exchanged ts s =
     (list_all (\<lambda>(words, resp). length words = 16 \<and> answers (concat (map word_bytes words)) resp) ts
      \<and> bus_reads AV_FIFO_INT_0_BASE 1 (io s) = concat (map fst ts)
      \<and> bus_writes AV_FIFO_INT_0_BASE (io s) =
          concat (map (\<lambda>(words, resp). [(3, 1), (3, 0)] @ map (Pair 0) (response_words resp)) ts))"

definition in_step :: "machine \<Rightarrow> bool" where
  "in_step s = (well_formed s \<and> (\<exists>ts. exchanged ts s))"

lemma responds_in_step:
  assumes "responds req s s'" and "in_step s"
  shows "in_step s'"
proof -
  from assms obtain words resp ts where "exchanged ts s" "length words = 16"
    "answers (concat (map word_bytes words)) resp" "well_formed s'"
    "bus_reads AV_FIFO_INT_0_BASE 1 (io s') = bus_reads AV_FIFO_INT_0_BASE 1 (io s) @ words"
    "bus_writes AV_FIFO_INT_0_BASE (io s') = bus_writes AV_FIFO_INT_0_BASE (io s)
       @ [(3, 1), (3, 0)] @ map (Pair 0) (response_words resp)"
    by (auto simp: responds_def in_step_def)
  then have "exchanged (ts @ [(words, resp)]) s'" "well_formed s'" by (simp_all add: exchanged_def)
  then show ?thesis by (auto simp: in_step_def)
qed

lemma main_iteration_in_step:
  assumes "main_iteration dev s = Ret s'" and "in_step s"
  shows "in_step s'"
proof -
  obtain v t where poll: "iord dev AV_FIFO_INT_0_BASE 2 s = Ret (v, t)" and t: "in_step t"
    using assms(2) by (auto simp: iord_def IORD_def Let_def in_step_def exchanged_def)
  have "s' = t \<or> process_packet dev t = Ret s'"
    using assms(1) by (auto simp: main_iteration_def poll split: if_splits)
  moreover have "well_formed t" using t by (simp add: in_step_def)
  ultimately show ?thesis
    using t process_packet_Ret [of dev t s'] responds_in_step [of "packet dev t" t s'] by blast
qed

lemma main_init_in_step:
  assumes "main_init dev initial_machine = Ret s"
  shows "in_step s"
proof -
  let ?b = AV_FIFO_INT_0_BASE
  have e: "effect UNIV init_buses initial_machine s"
    using main_init_effect [OF effect_refl [OF initial_well_formed], of dev] assms
    by (simp add: runs_def)
  moreover have "?b \<notin> init_buses" by (simp add: base_defs)
  ultimately have "bus_writes ?b (io s) = []" "bus_reads ?b 1 (io s) = []"
    using effect_bus_writes [OF e] effect_bus_reads [OF e] by (simp_all add: initial_machine_def)
  then have "exchanged [] s" by (simp add: exchanged_def)
  with e show ?thesis by (auto simp: in_step_def effect_def)
qed

lemma reachable_in_step: "s \<in> reachable dev \<Longrightarrow> in_step s"
  by (induction rule: reachable.induct) (auto intro: main_init_in_step main_iteration_in_step)

lemma main_no_result: "main dev \<noteq> Ret s"
proof -
  have "loop (\<lambda>s. seq (main_iteration dev s) (\<lambda>s. Ret (Again s))) s \<noteq> Ret (r :: machine)" for s r
    by (rule loop_no_break) (auto simp: seq_eq_Ret)
  then show ?thesis by (auto simp: main_def seq_eq_Ret)
qed

section \<open>Start-up\<close>

text \<open>What the initialisation does: the reset pulse, the DAC value from the EEPROM or the default, the
  ADF4002's charge pump and the DAC set.\<close>

definition board_started :: "machine \<Rightarrow> bool" where
  "board_started s =
     (well_formed s \<and> bus_writes LMS_CTR_GPIO_BASE (io s) = [(0, 6), (0, 7)]
      \<and> (\<exists>v0 v1 v. bus_reads I2C_OPENCORES_0_BASE I2C_RXR (io s) = [v0, v1]
           \<and> v = (if ucast v0 = (0xFF :: u8) \<and> ucast v1 = (0xFF :: u8) then 125 else ucast v0)
           \<and> memory s Dac_val = [v] \<and> bus_writes SPI_1_DAC_BASE (io s) = dac_sent v)
      \<and> bus_writes SPI_1_ADF_BASE (io s) = adf_reset)"

lemma dac_value_low: "ucast (push_bit 8 (ucast b) OR ucast (a :: u8) :: u16) = a"
  by (rule bit_word_eqI) (auto simp: bit_simps dest: bit_imp_le_length)

lemma dac_value_high: "ucast (drop_bit 8 (push_bit 8 (ucast b) OR ucast (a :: u8) :: u16)) = (b :: u8)"
  by (rule bit_word_eqI) (auto simp: bit_simps dest: bit_imp_le_length)

lemma dac_value_blank:
  "(push_bit 8 (ucast b) OR ucast a :: u16) = 0xFFFF \<longleftrightarrow> a = (0xFF :: u8) \<and> b = (0xFF :: u8)"
proof
  assume blank: "(push_bit 8 (ucast b) OR ucast a :: u16) = 0xFFFF"
  then show "a = 0xFF \<and> b = 0xFF"
    using dac_value_low [of b a] dac_value_high [of b a] by (simp add: drop_bit_eq_div)
qed simp

lemma other_bus:
  assumes "extends (at_window b) t t'" and "b \<in> peripherals" and "c \<in> peripherals" and "b \<noteq> c"
  shows "bus_writes c t' = bus_writes c t"
    and "reg < 8 \<Longrightarrow> bus_reads c reg t' = bus_reads c reg t"
  using assms peripherals_apart [of b c] by (auto intro: extends_bus_writes extends_bus_reads)

lemma load_dac_val_exact:
  assumes wf: "well_formed s"
  shows "yields (load_dac_val dev s) (\<lambda>s'. well_formed s' \<and> extends (at_window I2C_OPENCORES_0_BASE) (io s) (io s')
     \<and> (\<exists>v0 v1. bus_reads I2C_OPENCORES_0_BASE I2C_RXR (io s') =
          bus_reads I2C_OPENCORES_0_BASE I2C_RXR (io s) @ [v0, v1]
        \<and> memory s' = (memory s)(Dac_val :=
            [if ucast v0 = (0xFF :: u8) \<and> ucast v1 = (0xFF :: u8) then 125 else ucast v0])))"
proof -
  from rd_dac_val_exact [of dev DAC_VAL_ADDR s] obtain val u v0 v1
    where u: "rd_dac_val dev DAC_VAL_ADDR s = Ret (val, u)" "only_io s u"
      "extends (at_window I2C_OPENCORES_0_BASE) (io s) (io u)"
      "bus_reads I2C_OPENCORES_0_BASE I2C_RXR (io u) = bus_reads I2C_OPENCORES_0_BASE I2C_RXR (io s) @ [v0, v1]"
      and val: "val = push_bit 8 (ucast (ucast v1 :: u8)) OR ucast (ucast v0 :: u8)"
    by (auto simp: yields_Ret)
  have "length (memory s Dac_val) = 1" using wf by simp
  then obtain d where d: "memory s Dac_val = [d]" by (auto simp: length_Suc_conv)
  have mem: "memory u = memory s" and wfu: "well_formed u"
    using u(2) wf by (auto simp: only_io_def well_formed_def)
  have "load_dac_val dev s = Ret (u\<lparr>memory := (memory s)(Dac_val :=
      [if ucast v0 = (0xFF :: u8) \<and> ucast v1 = (0xFF :: u8) then 125 else ucast v0])\<rparr>)"
    using wfu by (simp add: load_dac_val_def u(1) poke_Ret mem d val dac_value_low dac_value_blank DAC_DEFF_VAL_def)
  then show ?thesis using u wf by (auto simp: well_formed_def)
qed

lemma apart_at_start:
  "LMS_CTR_GPIO_BASE \<noteq> I2C_OPENCORES_0_BASE" "SPI_1_DAC_BASE \<noteq> I2C_OPENCORES_0_BASE"
  "SPI_1_ADF_BASE \<noteq> I2C_OPENCORES_0_BASE" "SPI_1_ADF_BASE \<noteq> SPI_1_DAC_BASE"
  "LMS_CTR_GPIO_BASE \<noteq> SPI_1_DAC_BASE" "LMS_CTR_GPIO_BASE \<noteq> SPI_1_ADF_BASE"
  by (simp_all add: base_defs)

lemma main_init_yields:
  assumes ok: "spi_ok dev"
  shows "yields (main_init dev initial_machine) board_started"
proof -
  let ?i2c = I2C_OPENCORES_0_BASE and ?dac = SPI_1_DAC_BASE and ?adf = SPI_1_ADF_BASE and ?gpio = LMS_CTR_GPIO_BASE
  have dac: "spi_core dev ?dac" and adf: "spi_core dev ?adf" using ok by (simp_all add: spi_ok_def)
  define t1 where "t1 = IOWR ?gpio 0 7 (IOWR ?gpio 0 6 [])"
  define s1 where "s1 = initial_machine\<lparr>io := I2C_init ?i2c ALT_CPU_FREQ 400000 t1\<rparr>"
  have wf1: "well_formed s1" using initial_well_formed by (simp add: s1_def)
  have ext1: "extends (at_window ?i2c) t1 (io s1)" by (simp add: s1_def I2C_init_bus)
  have run: "yields (main_init dev initial_machine) board_started \<longleftrightarrow>
      yields (run [load_dac_val dev, Control_TCXO_ADF dev 0 (Null, 0), Control_TCXO_DAC dev 1 (Dac_val, 0),
          Configure_LM75 dev] s1) board_started"
    by (simp add: main_init_def iowr_def i2c_init_def run_simps s1_def t1_def initial_machine_def)
  from load_dac_val_exact [OF wf1, of dev] obtain s2 v0 v1 v where s2: "load_dac_val dev s1 = Ret s2"
    and wf2: "well_formed s2" and ext2: "extends (at_window ?i2c) (io s1) (io s2)"
    and reads: "bus_reads ?i2c I2C_RXR (io s2) = bus_reads ?i2c I2C_RXR (io s1) @ [v0, v1]"
    and v: "v = (if ucast v0 = (0xFF :: u8) \<and> ucast v1 = (0xFF :: u8) then 125 else ucast v0)"
    and mem2: "memory s2 = (memory s1)(Dac_val := [v])"
    by (auto simp: yields_Ret)
  have "runs (spi_ok dev) (Control_TCXO_ADF dev 0 (Null, 0) s2) (any_effect s2)"
    by (intro effect_rules) (simp_all add: effect_refl wf2)
  from runs_returns [OF this ok Control_TCXO_ADF_reset_exact [OF adf wf2]] obtain s3
    where s3: "Control_TCXO_ADF dev 0 (Null, 0) s2 = Ret s3"
      and only3: "only_io (s2\<lparr>memory := (memory s2)(ADF_data := adf_init)\<rparr>) s3"
      and ext3: "extends (at_window ?adf) (io s2) (io s3)"
      and w3: "bus_writes ?adf (io s3) = bus_writes ?adf (io s2) @ adf_reset"
    by (auto simp: spi_sends_all_def adf_reset_def)
  have wf3: "well_formed s3" and mem3: "memory s3 = (memory s2)(ADF_data := adf_init)"
    using only3 wf2 by (auto simp: only_io_def well_formed_def adf_init_def)
  have "runs (spi_ok dev) (Control_TCXO_DAC dev 1 (Dac_val, 0) s3) (any_effect s3)"
    by (intro effect_rules) (simp_all add: effect_refl wf3)
  moreover have "post (Control_TCXO_DAC dev 1 (Dac_val, 0) s3)
     (\<lambda>s'. only_io (s3\<lparr>memory := (memory s3)(DAC_data := dac_bytes 1 v)\<rparr>) s'
        \<and> extends (at_window ?dac) (io s3) (io s')
        \<and> bus_writes ?dac (io s') = bus_writes ?dac (io s3) @ dac_sent v)"
    using Control_TCXO_DAC_exact [OF dac wf3, of 1 0 Dac_val]
    by (simp add: mem3 mem2 dac_bytes_def dac_sent_def)
  ultimately obtain s4 where s4: "Control_TCXO_DAC dev 1 (Dac_val, 0) s3 = Ret s4"
      and only4: "only_io (s3\<lparr>memory := (memory s3)(DAC_data := dac_bytes 1 v)\<rparr>) s4"
      and ext4: "extends (at_window ?dac) (io s3) (io s4)"
      and w4: "bus_writes ?dac (io s4) = bus_writes ?dac (io s3) @ dac_sent v"
    using runs_returns [OF _ ok] by blast
  have wf4: "well_formed s4" and mem4: "memory s4 Dac_val = [v]"
    using only4 wf3 by (auto simp: only_io_def well_formed_def mem3 mem2)
  from Configure_LM75_exact [of dev s4] obtain s5 where s5: "Configure_LM75 dev s4 = Ret s5"
    and reads5: "bus_reads ?i2c I2C_RXR (io s5) = bus_reads ?i2c I2C_RXR (io s4)"
    and only5: "only_io s4 s5" and ext5: "extends (at_window ?i2c) (io s4) (io s5)"
    by (auto simp: yields_Ret)
  have ext0: "extends (at_window ?gpio) [] t1"
    by (simp add: t1_def extends_IOWR)
  have "bus_writes c (io s5) = bus_writes c t1" if "c \<notin> {?i2c, ?adf, ?dac}" "c \<in> peripherals" for c
    using that other_bus(1) [OF ext1] other_bus(1) [OF ext2] other_bus(1) [OF ext3]
      other_bus(1) [OF ext4] other_bus(1) [OF ext5] by auto
  then have gpio: "bus_writes ?gpio (io s5) = [(0, 6), (0, 7)]"
    by (simp add: apart_at_start t1_def)
  have t1: "bus_writes ?adf t1 = []" "bus_writes ?dac t1 = []" "bus_reads ?i2c I2C_RXR t1 = []"
    using apart_at_start by (simp_all add: other_bus [OF ext0])
  have "bus_reads ?i2c I2C_RXR (io s1) = []"
    using t1(3) by (simp add: s1_def I2C_init_bus)
  then have "bus_writes ?adf (io s5) = adf_reset" "bus_writes ?dac (io s5) = dac_sent v"
    "bus_reads ?i2c I2C_RXR (io s5) = [v0, v1]"
    using t1 w3 w4 reads reads5 apart_at_start
    by (simp_all add: other_bus [OF ext1] other_bus [OF ext2] other_bus [OF ext3] other_bus [OF ext4]
      other_bus [OF ext5])
  then have "board_started s5"
    using gpio v only5 mem4 wf4 by (auto simp: board_started_def only_io_def well_formed_def)
  then show ?thesis unfolding run by (simp add: s2 s3 s4 s5)
qed

lemma unat_cases: "x = (0 :: u8) \<or> x = 1 \<or> x = 2 \<or> 2 < unat x"
proof (cases "2 < unat x")
  case False
  then have "unat x = unat (0 :: u8) \<or> unat x = unat (1 :: u8) \<or> unat x = unat (2 :: u8)"
    by (simp, linarith)
  then show ?thesis by (simp only: word_unat_eq_iff [symmetric]) blast
qed simp

section \<open>Properties\<close>

text \<open>Property C1. A packet is answered: with SPI cores that follow their documentation, whatever the packet
  in the FIFO, except for the firmware download and for \<open>CMD_ANALOG_VAL_RD\<close> with too many blocks, the handler returns; it read the request's 16 words and wrote exactly one response of 16
  words, which has the request's command, blocks and peripheral and a final status.\<close>

theorem packet_is_answered:
  assumes "spi_ok dev" and "well_formed s" and "\<not> overlong (packet dev s)"
    and "packet dev s ! 0 \<noteq> CMD_LMS_MCU_FW_WR"
  shows "\<exists>s'. process_packet dev s = Ret s' \<and> responds (packet dev s) s s'"
  using runs_yields [OF process_packet_responds [OF assms(2,3)]] assms(1,4) by (simp add: yields_Ret)

lemma packet_is_answered_witness:
  "\<exists>s'. process_packet echo_board (with_packet [] []) = Ret s'
     \<and> responds (packet echo_board (with_packet [] [])) (with_packet [] []) s'"
proof -
  have zero: "unat (packet echo_board (with_packet [] []) ! 0) = 0" by code_simp
  then have "packet echo_board (with_packet [] []) ! 0 = 0" by (simp add: unat_eq_zero)
  then show ?thesis
    by (intro packet_is_answered [OF echo_board_ok with_packet_well_formed])
      (simp_all add: overlong_def command_defs)
qed

text \<open>Property C7. The state between packets is always well formed, whatever the hardware answers: every buffer
  has its size, so that no access of a handler that stays within the packet is out of bounds. And the host
  stays in step: the words read from the FIFO since the start are whole requests, and what was written to it is,
  in the same order, one reset and one response of 16 words to each of them. A turn of the main
  loop that returns leads to such a state again.\<close>

theorem reachable_states_in_step:
  assumes "s \<in> reachable dev"
  shows "well_formed s \<and> (\<exists>ts. exchanged ts s)
    \<and> (case main_iteration dev s of Ret s' \<Rightarrow> s' \<in> reachable dev \<and> (\<exists>ts. exchanged ts s') | Undef \<Rightarrow> True | Hang \<Rightarrow> True)"
  using reachable_in_step [OF assms] main_iteration_in_step [of dev s] reachable.turn [OF assms]
  by (auto simp: in_step_def split: outcome.splits)

lemma reachable_states_in_step_witness:
  "\<exists>s. s \<in> reachable echo_board \<and> well_formed s \<and> (\<exists>ts. exchanged ts s)
    \<and> (case main_iteration echo_board s of
       Ret s' \<Rightarrow> s' \<in> reachable echo_board \<and> (\<exists>ts. exchanged ts s') | Undef \<Rightarrow> True | Hang \<Rightarrow> True)"
proof -
  from main_init_yields [OF echo_board_ok] obtain s where "main_init echo_board initial_machine = Ret s"
    by (auto simp: yields_Ret)
  then have "s \<in> reachable echo_board" by (rule reachable.start)
  with reachable_states_in_step [OF this] show ?thesis by blast
qed

text \<open>Property C8. The firmware starts: with SPI cores that follow their documentation, the initialisation
  returns, having pulsed the reset of the LMS7002M, read the DAC value from the EEPROM (125 when the
  EEPROM is blank), put the ADF4002 into three-state and sent the value to the DAC.\<close>

theorem board_starts:
  assumes "spi_ok dev"
  shows "\<exists>s. main_init dev initial_machine = Ret s \<and> s \<in> reachable dev \<and> board_started s"
  using main_init_yields [OF assms] reachable.start [of dev] by (auto simp: yields_Ret)

lemma board_starts_witness:
  "\<exists>s. main_init echo_board initial_machine = Ret s \<and> s \<in> reachable echo_board \<and> board_started s"
  by (rule board_starts [OF echo_board_ok])

text \<open>\<open>main\<close> never returns, whatever the hardware does.\<close>

lemma main_never_returns: "\<not> (\<exists>s. main dev = Ret s)"
  by (simp add: main_no_result)

text \<open>A command the firmware does not know gets the status UNKNOWN, and nothing else happens.\<close>

lemma unknown_command:
  assumes "well_formed s" and "memory s Rx_buffer ! 0 \<notin> {0x00, 0x20, 0x21, 0x22, 0x2C, 0x31, 0x4F, 0x50,
    0x51, 0x52, 0x55, 0x56, 0x61, 0x62}"
  shows "handle_command dev s =
    Ret (s\<lparr>memory := (memory s)(Tx_buffer := (memory s Tx_buffer)[Status := STATUS_UNKNOWN_CMD])\<rparr>)"
  using assms by (simp add: handle_command_def command_case_def command_defs set_status_Ret)

lemma unknown_command_witness:
  "handle_command echo_board (with_packet [0x99] []) =
    Ret ((with_packet [0x99] [])\<lparr>memory := (memory (with_packet [0x99] []))(Tx_buffer :=
      (memory (with_packet [0x99] []) Tx_buffer)[Status := STATUS_UNKNOWN_CMD])\<rparr>)"
  by (rule unknown_command [OF with_packet_well_formed]) (simp add: with_packet_def)

text \<open>\<open>CMD_GET_INFO\<close> answers firmware version 5, the SoDeRa PCIe device, protocol version 1,
  hardware version 1 and no expansion board, without any bus access.\<close>

lemma get_info:
  assumes "well_formed s" and "memory s Rx_buffer ! 0 = CMD_GET_INFO"
  shows "handle_command dev s = Ret (s\<lparr>memory := (memory s)(Tx_buffer := (memory s Tx_buffer)
    [8 := 5, 9 := 15, 10 := 1, 11 := 1, 12 := 0, Status := STATUS_COMPLETED_CMD])\<rparr>)"
  using assms by (simp add: handle_command_def command_case_def command_defs cmd_GET_INFO_def layout
      poke_Ret set_status_def FW_VER_def DEV_TYPE_def LMS_PROTOCOL_VER_def HW_VER_def EXP_BOARD_def)

lemma get_info_witness:
  "handle_command echo_board (with_packet [0] []) =
    Ret ((with_packet [0] [])\<lparr>memory := (memory (with_packet [0] []))(Tx_buffer :=
      (memory (with_packet [0] []) Tx_buffer)
      [8 := 5, 9 := 15, 10 := 1, 11 := 1, 12 := 0, Status := STATUS_COMPLETED_CMD])\<rparr>)"
  by (rule get_info [OF with_packet_well_formed]) (simp add: with_packet_def CMD_GET_INFO_def)

text \<open>\<open>CMD_LMS_RST\<close> releases, asserts or pulses the reset line; any other request is counted as
  an error, but the status is COMPLETED all the same.\<close>

lemma reset_line:
  assumes "well_formed s" and "memory s Rx_buffer ! 0 = CMD_LMS_RST"
  shows "\<exists>s'. handle_command dev s = Ret s'
    \<and> memory s' = (memory s)(Tx_buffer := (memory s Tx_buffer)[Status := STATUS_COMPLETED_CMD])
    \<and> bus_writes LMS_CTR_GPIO_BASE (io s') = bus_writes LMS_CTR_GPIO_BASE (io s)
        @ (let v = memory s Rx_buffer ! 8 in if v = 0 then [(0, 7)] else if v = 1 then [(0, 6)]
           else if v = 2 then [(0, 6), (0, 7)] else [])
    \<and> cmd_errors s' = cmd_errors s + (if unat (memory s Rx_buffer ! 8) \<le> 2 then 0 else 1)"
proof -
  have "handle_command dev s = cmd_LMS_RST s"
    using assms by (simp add: handle_command_def command_case_def command_defs)
  moreover obtain v where v: "memory s Rx_buffer ! 8 = v" by blast
  moreover consider "v = 0" | "v = 1" | "v = 2" | "2 < unat v"
    using unat_cases [of v] by blast
  then have "\<exists>s'. cmd_LMS_RST s = Ret s'
    \<and> memory s' = (memory s)(Tx_buffer := (memory s Tx_buffer)[Status := STATUS_COMPLETED_CMD])
    \<and> bus_writes LMS_CTR_GPIO_BASE (io s') = bus_writes LMS_CTR_GPIO_BASE (io s)
        @ (if v = 0 then [(0, 7)] else if v = 1 then [(0, 6)] else if v = 2 then [(0, 6), (0, 7)] else [])
    \<and> cmd_errors s' = cmd_errors s + (if unat v \<le> 2 then 0 else 1)"
  proof cases
    case 4
    then have "v \<noteq> 0" "v \<noteq> 1" "v \<noteq> 2" by auto
    with 4 v assms(1) show ?thesis
      by (simp add: cmd_LMS_RST_def layout count_error_def set_status_def poke_Ret)
  qed (use v assms(1) in \<open>simp_all add: cmd_LMS_RST_def layout iowr_def set_status_def poke_Ret\<close>)
  ultimately show ?thesis by (simp only: Let_def)
qed

lemma reset_line_witness:
  "\<exists>s'. handle_command echo_board (with_packet [0x20] [2]) = Ret s'
    \<and> memory s' = (memory (with_packet [0x20] [2]))(Tx_buffer :=
        (memory (with_packet [0x20] [2]) Tx_buffer)[Status := STATUS_COMPLETED_CMD])
    \<and> bus_writes LMS_CTR_GPIO_BASE (io s') = bus_writes LMS_CTR_GPIO_BASE (io (with_packet [0x20] [2]))
        @ (let v = memory (with_packet [0x20] [2]) Rx_buffer ! 8 in if v = 0 then [(0, 7)] else if v = 1 then [(0, 6)]
           else if v = 2 then [(0, 6), (0, 7)] else [])
    \<and> cmd_errors s' = cmd_errors (with_packet [0x20] [2])
        + (if unat (memory (with_packet [0x20] [2]) Rx_buffer ! 8) \<le> 2 then 0 else 1)"
  by (rule reset_line [OF with_packet_well_formed]) (simp add: with_packet_def CMD_LMS_RST_def)

end
