(* ===== verification/Flash.thy ===== *)
theory Flash
  imports Board
begin

text \<open>
  The SPI flash library of the application (\<open>lms_ctr_app/spi_flash_lib.c\<close>): pages read and written,
  sectors erased.  The flash is wired with its bits reversed, so that commands are constants in
  reversed order and addresses go through \<open>ReverseBitOrder\<close>.  The local arrays are regions of the
  machine's memory; the waiting loops are instances of \<open>loop\<close> over the retry counter and the state.
\<close>

section \<open>Constants (\<open>sodera_pcie_brd_v1r0.h\<close>, \<open>spi_flash_lib.h\<close>)\<close>

definition FLASH_PAGE_SIZE :: nat where "FLASH_PAGE_SIZE = 0x100"
definition FLASH_SECTOR_SIZE :: u32 where "FLASH_SECTOR_SIZE = 0x10000"
definition FLASH_CMD_SECTOR_ERASE :: u8 where "FLASH_CMD_SECTOR_ERASE = 0x1B"
definition FLASH_CMD_PAGE_WRITE :: u8 where "FLASH_CMD_PAGE_WRITE = 0x40"
definition FLASH_CMD_PAGE_WRITEEN :: u8 where "FLASH_CMD_PAGE_WRITEEN = 0x60"
definition FLASH_CMD_PAGE_READ :: u8 where "FLASH_CMD_PAGE_READ = 0xC0"
definition FLASH_CMD_PAGE_READST :: u8 where "FLASH_CMD_PAGE_READST = 0xA0"
definition STATUS_RETRIES :: nat where "STATUS_RETRIES = 10000"
definition STATUS_RETRIES_ERASE :: nat where "STATUS_RETRIES_ERASE = 3000000"

section \<open>Addresses\<close>

definition ReverseBitOrder :: "u8 \<Rightarrow> u8" where
  "ReverseBitOrder data =
     (let rev = data;
          rev = (drop_bit 1 rev AND 0x55) OR (push_bit 1 rev AND 0xaa);
          rev = (drop_bit 2 rev AND 0x33) OR (push_bit 2 rev AND 0xcc);
          rev = (drop_bit 4 rev AND 0x0f) OR (push_bit 4 rev AND 0xf0)
      in rev)"

definition flash_address :: "u32 \<Rightarrow> u8 list" where
  "flash_address a =
     [ReverseBitOrder (ucast (drop_bit 16 a AND 0xFF)), ReverseBitOrder (ucast (drop_bit 8 a AND 0xFF)),
      ReverseBitOrder (ucast (a AND 0xFF))]"

section \<open>Waiting\<close>

text \<open>One turn of the \<open>do ... while\<close> of \<open>CyFxSpiWaitForStatus\<close>: write enable, then read status.\<close>

definition flash_status_turn ::
    "device \<Rightarrow> u32 \<Rightarrow> u32 \<Rightarrow> u32 \<times> machine \<Rightarrow> (u32 \<times> machine, u8 \<times> machine) turn outcome" where
  "flash_status_turn dev base slave = (\<lambda>(retries, s).
     seq (run [poke (Status_buf, 0) FLASH_CMD_PAGE_WRITEEN,
               spi_command dev base slave 1 (Status_buf, 0) 0 (Null, 0) 0,
               poke (Status_buf, 0) FLASH_CMD_PAGE_READST,
               spi_command dev base slave 1 (Status_buf, 0) 2 (Status_rd_buf, 0) 0] s) (\<lambda>s.
     if unat retries \<ge> STATUS_RETRIES then Ret (Break (1, s))
     else seq (peek (Status_rd_buf, 0) s) (\<lambda>b.
       if b AND 0x80 \<noteq> 0 \<or> b AND 0x40 = 0 then Ret (Again (retries + 1, s)) else Ret (Break (0, s)))))"

definition CyFxSpiWaitForStatus :: "device \<Rightarrow> u32 \<Rightarrow> u32 \<Rightarrow> machine \<Rightarrow> (u8 \<times> machine) outcome" where
  "CyFxSpiWaitForStatus dev base slave s = loop (flash_status_turn dev base slave) (0, s)"

section \<open>Pages\<close>

text \<open>
  The wait before a page: none for a fast read; a slow read gives up when the wait succeeds (the
  condition is inverted, and never met since \<open>FlashSpiTransfer\<close> forces fast reads); a write gives up
  when the wait fails.
\<close>

definition flash_page_wait ::
    "device \<Rightarrow> u32 \<Rightarrow> u32 \<Rightarrow> bool \<Rightarrow> u8 \<times> machine \<Rightarrow> (u8 \<times> machine, u8 \<times> machine) turn outcome" where
  "flash_page_wait dev base slave isRead = (\<lambda>(status, s).
     if isRead then
       if spiFastRead s = 0 then
         seq (CyFxSpiWaitForStatus dev base slave s) (\<lambda>(status, s).
           Ret (if status = 0 then Break (status, s) else Again (status, s)))
       else Ret (Again (status, s))
     else
       seq (CyFxSpiWaitForStatus dev base slave s) (\<lambda>(status, s).
         Ret (if status \<noteq> 0 then Break (status, s) else Again (status, s))))"

definition flash_page_command :: "device \<Rightarrow> u32 \<Rightarrow> u32 \<Rightarrow> bool \<Rightarrow> region \<times> nat \<Rightarrow> action" where
  "flash_page_command dev base slave isRead buffer =
     (if isRead then spi_command dev base slave 4 (Location, 0) FLASH_PAGE_SIZE buffer 0
      else run [spi_command dev base slave 4 (Location, 0) 0 (Null, 0) ALT_AVALON_SPI_COMMAND_MERGE,
                spi_command dev base slave FLASH_PAGE_SIZE buffer 0 (Null, 0) 0])"

primrec flash_pages ::
    "device \<Rightarrow> u32 \<Rightarrow> u32 \<Rightarrow> bool \<Rightarrow> nat \<Rightarrow> u32 \<Rightarrow> region \<times> nat \<Rightarrow> u8 \<times> machine \<Rightarrow> (u8 \<times> machine) outcome"
where
  "flash_pages dev base slave isRead 0 a buffer r = Ret r"
| "flash_pages dev base slave isRead (Suc n) a buffer r =
     seq (run [pokes Location 1 (flash_address a),
               poke (Location, 0) (if isRead then FLASH_CMD_PAGE_READ else FLASH_CMD_PAGE_WRITE)] (snd r)) (\<lambda>s.
     seq (flash_page_wait dev base slave isRead (fst r, s)) (\<lambda>w. case w of
       Break r \<Rightarrow> Ret r
     | Again (status, s) \<Rightarrow> seq (flash_page_command dev base slave isRead buffer s) (\<lambda>s.
         flash_pages dev base slave isRead n (a + of_nat FLASH_PAGE_SIZE)
           (fst buffer, snd buffer + FLASH_PAGE_SIZE) (status, s))))"

definition FlashSpiFastRead :: "u32 \<Rightarrow> machine \<Rightarrow> machine" where
  "FlashSpiFastRead v s = s\<lparr>spiFastRead := ucast v\<rparr>"

definition FlashSpiTransfer ::
    "device \<Rightarrow> u32 \<Rightarrow> u32 \<Rightarrow> u32 \<Rightarrow> u16 \<Rightarrow> region \<times> nat \<Rightarrow> u32 \<Rightarrow> machine \<Rightarrow> (u8 \<times> machine) outcome" where
  "FlashSpiTransfer dev base slave pageAddress byteCount buffer isRead s =
     (let s = s\<lparr>spiFastRead := 1\<rparr> in
      if byteCount = 0 then Ret (0, s)
      else if unat byteCount mod FLASH_PAGE_SIZE \<noteq> 0 then Ret (1, s)
      else flash_pages dev base slave (isRead \<noteq> 0) (unat byteCount div FLASH_PAGE_SIZE)
             (pageAddress * of_nat FLASH_PAGE_SIZE) buffer (0, s))"

section \<open>Sectors\<close>

definition flash_erase_turn ::
    "device \<Rightarrow> u32 \<Rightarrow> u32 \<Rightarrow> u32 \<times> machine \<Rightarrow> (u32 \<times> machine, u8 \<times> machine) turn outcome" where
  "flash_erase_turn dev base slave = (\<lambda>(retries, s).
     seq (spi_command dev base slave 1 (Erase_location, 0) 1 (Erase_rd_buf, 0) 0 s) (\<lambda>s.
     if unat retries \<ge> STATUS_RETRIES_ERASE then Ret (Break (1, s))
     else seq (peek (Erase_rd_buf, 0) s) (\<lambda>b.
       if b AND 0x80 \<noteq> 0 then Ret (Again (retries + 1, s)) else Ret (Break (0, s)))))"

definition FlashSpiEraseSector ::
    "device \<Rightarrow> u32 \<Rightarrow> u32 \<Rightarrow> u8 \<Rightarrow> u8 \<Rightarrow> machine \<Rightarrow> (u8 \<times> machine) outcome" where
  "FlashSpiEraseSector dev base slave isErase sector s =
     seq (run [poke (Erase_location, 0) FLASH_CMD_PAGE_WRITEEN,
               spi_command dev base slave 1 (Erase_location, 0) 0 (Null, 0) 0,
               \<lambda>s. if isErase \<noteq> 0 then
                 run [poke (Erase_location, 0) FLASH_CMD_SECTOR_ERASE,
                      pokes Erase_location 1 (flash_address (ucast sector * FLASH_SECTOR_SIZE)),
                      spi_command dev base slave 4 (Erase_location, 0) 0 (Null, 0) 0] s
                 else Ret s,
               poke (Erase_location, 0) FLASH_CMD_PAGE_READST] s) (\<lambda>s.
     loop (flash_erase_turn dev base slave) (0, s))"

section \<open>Bit reversal\<close>

lemma reversal_masks:
  "bit (0x55 :: u8) n = (n \<in> {0, 2, 4, 6})" "bit (0xaa :: u8) n = (n \<in> {1, 3, 5, 7})"
  "bit (0x33 :: u8) n = (n \<in> {0, 1, 4, 5})" "bit (0xcc :: u8) n = (n \<in> {2, 3, 6, 7})"
  "bit (0x0f :: u8) n = (n \<in> {0, 1, 2, 3})" "bit (0xf0 :: u8) n = (n \<in> {4, 5, 6, 7})"
proof -
  have "n \<in> {0, 1, 2, 3, 4, 5, 6, 7} \<or> 8 \<le> n" by auto
  then show "bit (0x55 :: u8) n = (n \<in> {0, 2, 4, 6})" "bit (0xaa :: u8) n = (n \<in> {1, 3, 5, 7})"
    "bit (0x33 :: u8) n = (n \<in> {0, 1, 4, 5})" "bit (0xcc :: u8) n = (n \<in> {2, 3, 6, 7})"
    "bit (0x0f :: u8) n = (n \<in> {0, 1, 2, 3})" "bit (0xf0 :: u8) n = (n \<in> {4, 5, 6, 7})"
    by (elim disjE insertE emptyE; simp)+
qed

lemma ReverseBitOrder_bit: "bit (ReverseBitOrder d) n = (n < 8 \<and> bit d (7 - n))"
proof -
  have "n \<in> {0, 1, 2, 3, 4, 5, 6, 7} \<or> 8 \<le> n" by auto
  moreover have dbl: "bit (x * 2) m = (m < 8 \<and> 1 \<le> m \<and> bit x (m - 1))" for x :: u8 and m
    unfolding mult.commute [of x 2] by (auto simp: bit_double_iff)
  ultimately show ?thesis
    by (elim disjE insertE emptyE)
      (simp_all add: dbl ReverseBitOrder_def Let_def bit_or_iff bit_and_iff bit_drop_bit_eq bit_push_bit_iff
        reversal_masks)
qed

lemma ReverseBitOrder_involution: "ReverseBitOrder (ReverseBitOrder d) = d"
  by (rule bit_word_eqI) (auto simp: ReverseBitOrder_bit)

section \<open>Waits that end\<close>

text \<open>The library writes its local arrays, and a read the caller's buffer.\<close>

definition flash_bytes :: "(region \<times> nat) set" where
  "flash_bytes = {Location} \<times> {0..<4} \<union> {Status_buf} \<times> {0..<2} \<union> {Status_rd_buf} \<times> {0..<2}
     \<union> {Erase_location} \<times> {0..<4} \<union> {Erase_rd_buf} \<times> {0..<2}"

lemma flash_bytes_simps [simp]:
  "(Location, i) \<in> flash_bytes \<longleftrightarrow> i < 4" "(Status_buf, i) \<in> flash_bytes \<longleftrightarrow> i < 2"
  "(Status_rd_buf, i) \<in> flash_bytes \<longleftrightarrow> i < 2" "(Erase_location, i) \<in> flash_bytes \<longleftrightarrow> i < 4"
  "(Erase_rd_buf, i) \<in> flash_bytes \<longleftrightarrow> i < 2"
  by (auto simp: flash_bytes_def)

lemma flash_status_turn_effect:
  assumes e: "effect W B s0 (snd x)" and "base \<in> B" and "base \<in> spi_bases" and "flash_bytes \<subseteq> W"
  shows "runs (spi_ok dev) (flash_status_turn dev base slave x) (\<lambda>w. case w of
      Again y \<Rightarrow> effect W B s0 (snd y) \<and> STATUS_RETRIES + 1 - unat (fst y) < STATUS_RETRIES + 1 - unat (fst x)
    | Break (st, s) \<Rightarrow> effect W B s0 s \<and> st \<in> {0, 1})"
proof -
  obtain retries s where x: "x = (retries, s)" by (cases x)
  have W: "(Status_buf, 0) \<in> W" "{Status_rd_buf} \<times> {0..<2} \<subseteq> W"
    using assms(4) by auto
  have poll: "runs (spi_ok dev) (run [poke (Status_buf, 0) FLASH_CMD_PAGE_WRITEEN,
               spi_command dev base slave 1 (Status_buf, 0) 0 (Null, 0) 0,
               poke (Status_buf, 0) FLASH_CMD_PAGE_READST,
               spi_command dev base slave 1 (Status_buf, 0) 2 (Status_rd_buf, 0) 0] s) (effect W B s0)"
    unfolding run.simps using e assms(2,3) W by (auto simp: x intro!: effect_rules)
  have "unat (retries + 1) = Suc (unat retries)" if "unat retries < 10000"
    using that by (simp add: unat_plus_if')
  then show ?thesis
    unfolding flash_status_turn_def x split_conv
    by (intro runs_seq [OF poll]) (auto simp: STATUS_RETRIES_def not_le effect_well_formed)
qed

lemma CyFxSpiWaitForStatus_effect:
  assumes "effect W B s0 s" and "base \<in> B" and "base \<in> spi_bases" and "flash_bytes \<subseteq> W"
  shows "runs (spi_ok dev) (CyFxSpiWaitForStatus dev base slave s) (\<lambda>(st, s'). effect W B s0 s' \<and> st \<in> {0, 1})"
  unfolding CyFxSpiWaitForStatus_def
  by (rule loop_runs [where I = "\<lambda>x. effect W B s0 (snd x)" and f = "\<lambda>x. STATUS_RETRIES + 1 - unat (fst x)"])
    (use assms flash_status_turn_effect in auto)

lemma flash_erase_turn_effect:
  assumes e: "effect W B s0 (snd x)" and "base \<in> B" and "base \<in> spi_bases" and "flash_bytes \<subseteq> W"
  shows "runs (spi_ok dev) (flash_erase_turn dev base slave x) (\<lambda>w. case w of
      Again y \<Rightarrow> effect W B s0 (snd y)
        \<and> STATUS_RETRIES_ERASE + 1 - unat (fst y) < STATUS_RETRIES_ERASE + 1 - unat (fst x)
    | Break (st, s) \<Rightarrow> effect W B s0 s \<and> st \<in> {0, 1})"
proof -
  obtain retries s where x: "x = (retries, s)" by (cases x)
  have W: "{Erase_rd_buf} \<times> {0..<1} \<subseteq> W" using assms(4) by auto
  have poll: "runs (spi_ok dev) (spi_command dev base slave 1 (Erase_location, 0) 1 (Erase_rd_buf, 0) 0 s) (effect W B s0)"
    using e assms(2,3) W by (auto simp: x intro!: effect_rules)
  have "unat (retries + 1) = Suc (unat retries)" if "unat retries < 3000000"
    using that by (simp add: unat_plus_if')
  then show ?thesis
    unfolding flash_erase_turn_def x split_conv
    by (intro runs_seq [OF poll]) (auto simp: STATUS_RETRIES_ERASE_def not_le effect_well_formed)
qed

lemma FlashSpiEraseSector_effect:
  assumes "effect W B s0 s" and "base \<in> B" and "base \<in> spi_bases" and "flash_bytes \<subseteq> W"
  shows "runs (spi_ok dev) (FlashSpiEraseSector dev base slave isErase sector s)
    (\<lambda>(st, s'). effect W B s0 s' \<and> st \<in> {0, 1})"
proof -
  have W: "(Erase_location, i) \<in> W" if "i < 4" for i
    using assms(4) that by auto
  have sub: "{Erase_location} \<times> {1..<4} \<subseteq> W" using W by auto
  have start: "runs (spi_ok dev) (run [poke (Erase_location, 0) FLASH_CMD_PAGE_WRITEEN,
               spi_command dev base slave 1 (Erase_location, 0) 0 (Null, 0) 0,
               \<lambda>s. if isErase \<noteq> 0 then
                 run [poke (Erase_location, 0) FLASH_CMD_SECTOR_ERASE,
                      pokes Erase_location 1 (flash_address (ucast sector * FLASH_SECTOR_SIZE)),
                      spi_command dev base slave 4 (Erase_location, 0) 0 (Null, 0) 0] s
                 else Ret s,
               poke (Erase_location, 0) FLASH_CMD_PAGE_READST] s) (effect W B s0)"
    unfolding run.simps using assms(1,2,3) W sub
    by (auto simp: flash_address_def intro!: effect_rules)
  show ?thesis
    unfolding FlashSpiEraseSector_def
    by (rule runs_seq [OF start], rule loop_runs [where I = "\<lambda>x. effect W B s0 (snd x)"
        and f = "\<lambda>x. STATUS_RETRIES_ERASE + 1 - unat (fst x)"])
      (use assms flash_erase_turn_effect in auto)
qed

text \<open>A transfer that writes \<open>buffer\<close> only when it reads the flash.\<close>

lemma flash_pages_effect:
  assumes "effect W B s0 (snd x)" and "base \<in> B" and "base \<in> spi_bases" and "flash_bytes \<subseteq> W"
    and "i + 256 * n \<le> extent r" and "isRead \<Longrightarrow> {r} \<times> {i..<i + 256 * n} \<subseteq> W" and "fst x \<in> {0, 1}"
  shows "runs (spi_ok dev) (flash_pages dev base slave isRead n a (r, i) x)
    (\<lambda>(st, s'). effect W B s0 s' \<and> st \<in> {0, 1})"
  using assms
proof (induction n arbitrary: a i x)
  case 0
  then show ?case by (auto split: prod.splits)
next
  case (Suc n)
  have W: "(Location, i) \<in> W" if "i < 4" for i
    using Suc.prems(4) that by auto
  have sub: "{Location} \<times> {1..<4} \<subseteq> W" using W by auto
  have start: "runs (spi_ok dev) (run [pokes Location 1 (flash_address a),
      poke (Location, 0) (if isRead then FLASH_CMD_PAGE_READ else FLASH_CMD_PAGE_WRITE)] (snd x)) (effect W B s0)"
    unfolding run.simps using Suc.prems(1) W sub
    by (auto simp: flash_address_def intro!: effect_rules)
  have wait: "runs (spi_ok dev) (flash_page_wait dev base slave isRead (fst x, s)) (\<lambda>w. case w of
      Again y \<Rightarrow> effect W B s0 (snd y) \<and> fst y \<in> {0, 1} | Break y \<Rightarrow> effect W B s0 (snd y) \<and> fst y \<in> {0, 1})"
    if "effect W B s0 s" for s
    unfolding flash_page_wait_def split_conv
    using Suc.prems(7) that
    by (auto intro!: runs_seq [OF CyFxSpiWaitForStatus_effect [OF that Suc.prems(2,3,4)]])
  have command: "runs (spi_ok dev) (flash_page_command dev base slave isRead (r, i) s) (effect W B s0)"
    if "effect W B s0 s" for s
  proof (cases isRead)
    case True
    then have "{r} \<times> {i..<i + 256} \<subseteq> W" using Suc.prems(6) by auto
    then show ?thesis
      using True that Suc.prems(2,3,5)
      by (auto simp: flash_page_command_def FLASH_PAGE_SIZE_def intro!: effect_rules)
  next
    case False
    then show ?thesis
      unfolding flash_page_command_def run.simps
      using that Suc.prems(2,3,5) by (auto simp: FLASH_PAGE_SIZE_def intro!: effect_rules)
  qed
  show ?case
    unfolding flash_pages.simps
  proof (rule runs_seq [OF start], rule runs_seq [OF wait], assumption)
    fix s and w :: "(u8 \<times> machine, u8 \<times> machine) turn"
    assume w: "case w of Again y \<Rightarrow> effect W B s0 (snd y) \<and> fst y \<in> {0, 1}
      | Break y \<Rightarrow> effect W B s0 (snd y) \<and> fst y \<in> {0, 1}"
    show "runs (spi_ok dev) (case w of Break r \<Rightarrow> Ret r
       | Again (status, s) \<Rightarrow> seq (flash_page_command dev base slave isRead (r, i) s) (\<lambda>s.
           flash_pages dev base slave isRead n (a + of_nat FLASH_PAGE_SIZE)
             (fst (r, i), snd (r, i) + FLASH_PAGE_SIZE) (status, s)))
      (\<lambda>(st, s'). effect W B s0 s' \<and> st \<in> {0, 1})"
    proof (cases w)
      case (Again y)
      then have y: "effect W B s0 (snd y)" "fst y \<in> {0, 1}" using w by auto
      have "runs (spi_ok dev) (flash_pages dev base slave isRead n (a + of_nat FLASH_PAGE_SIZE)
          (r, i + FLASH_PAGE_SIZE) (fst y, s')) (\<lambda>(st, s'). effect W B s0 s' \<and> st \<in> {0, 1})"
        if "effect W B s0 s'" for s'
        using Suc.prems(2-6) y(2) that by (intro Suc.IH) (auto simp: FLASH_PAGE_SIZE_def)
      then show ?thesis
        using Again y(1) by (auto simp: split_beta intro!: runs_seq [OF command])
    next
      case (Break y)
      then show ?thesis using w by (auto split: prod.splits)
    qed
  qed
qed

section \<open>A page read\<close>

definition page_read :: "u32 \<Rightarrow> u32 \<Rightarrow> u32 \<Rightarrow> region \<times> nat \<Rightarrow> machine \<Rightarrow> machine \<Rightarrow> bool" where
  "page_read base slave a buffer s s' =
     (bus_writes base (io s') = bus_writes base (io s)
        @ spi_transaction slave 0 (map ucast (0xC0 # flash_address a) @ replicate 256 0)
      \<and> (\<exists>stale ignored rxs. length ignored = 4 \<and> length rxs = 256
           \<and> bus_reads base SPI_RXDATA (io s') = bus_reads base SPI_RXDATA (io s) @ stale # ignored @ rxs
           \<and> bytes_at (memory s') buffer 256 = map ucast rxs))"

lemma flash_read_exact:
  assumes ok: "spi_ok dev" and base: "base \<in> spi_bases" and wf: "well_formed s"
    and room: "i + 256 \<le> extent r" and read: "isRead \<noteq> 0"
  shows "\<exists>s'. FlashSpiTransfer dev base slave page 256 (r, i) isRead s = Ret (0, s')
    \<and> page_read base slave (page * 256) (r, i) s s'"
proof -
  let ?a = "page * 256"
  define u where "u = s\<lparr>spiFastRead := 1, memory := (memory s)(Location := 0xC0 # flash_address ?a)\<rparr>"
  have len: "length (memory s Location) = 4" using wf by simp
  then obtain w x y z where loc: "memory s Location = [w, x, y, z]"
    using list_of_four by blast
  have start: "run [pokes Location 1 (flash_address ?a), poke (Location, 0) 0xC0] (s\<lparr>spiFastRead := 1\<rparr>) = Ret u"
    using wf loc by (simp add: flash_address_def poke_Ret u_def numeral_2_eq_2 numeral_3_eq_3)
  have wfu: "well_formed u" using wf by (simp add: u_def well_formed_def flash_address_def)
  have core: "spi_core dev base"
    using ok base by (auto simp: spi_ok_def spi_bases_def)
  have "runs (spi_ok dev) (spi_command dev base slave 4 (Location, 0) 256 (r, i) 0 u) (effect UNIV {base} u)"
    using base room by (intro effect_rules) (simp_all add: effect_refl wfu)
  moreover have "post (spi_command dev base slave 4 (Location, 0) 256 (r, i) 0 u)
      (spi_exchanges base slave 4 (Location, 0) 256 (r, i) u)"
    using room by (intro spi_command_exchanges [OF core wfu]) simp_all
  ultimately obtain s' where s': "spi_command dev base slave 4 (Location, 0) 256 (r, i) 0 u = Ret s'"
    and ex: "spi_exchanges base slave 4 (Location, 0) 256 (r, i) u s'"
    using runs_returns [OF _ ok] by blast
  have "FlashSpiTransfer dev base slave page 256 (r, i) isRead s = Ret (0, s')"
  proof -
    have "FlashSpiTransfer dev base slave page 256 (r, i) isRead s =
        flash_pages dev base slave True (Suc 0) ?a (r, i) (0, s\<lparr>spiFastRead := 1\<rparr>)"
      using read by (simp add: FlashSpiTransfer_def FLASH_PAGE_SIZE_def del: flash_pages.simps)
    also have "\<dots> = Ret (0, s')"
    proof -
      have "spiFastRead u \<noteq> 0" by (simp add: u_def)
      moreover have "run [pokes Location 1 (flash_address ?a), poke (Location, 0)
          (if True then FLASH_CMD_PAGE_READ else FLASH_CMD_PAGE_WRITE)] (s\<lparr>spiFastRead := 1\<rparr>) = Ret u"
        using start by (simp add: FLASH_CMD_PAGE_READ_def)
      ultimately show ?thesis
        unfolding flash_pages.simps fst_conv snd_conv
        by (simp add: flash_page_wait_def flash_page_command_def FLASH_PAGE_SIZE_def s' del: run.simps)
    qed
    finally show ?thesis .
  qed
  moreover have "sent_bytes (memory u) (Location, 0) 4 256 = map ucast (0xC0 # flash_address ?a) @ replicate 256 0"
    by (simp add: sent_bytes_def bytes_at_def u_def flash_address_def)
  then have "page_read base slave ?a (r, i) s s'"
    using ex by (auto simp: page_read_def spi_exchanges_def spi_done_def u_def)
  ultimately show ?thesis by blast
qed

section \<open>Properties\<close>

text \<open>\<open>ReverseBitOrder\<close> puts bit \<open>n\<close> of the byte at position \<open>7 - n\<close>, and undoes itself.\<close>

lemma bits_reversed:
  "bit (ReverseBitOrder d) n = (n < 8 \<and> bit d (7 - n)) \<and> ReverseBitOrder (ReverseBitOrder d) = d"
  by (simp add: ReverseBitOrder_bit ReverseBitOrder_involution)

text \<open>Property C15. A page is read in one SPI transaction: the read command and the three address bytes of
  the page, bits reversed, most significant first; the 256 bytes that follow are in the buffer.\<close>

theorem flash_page_is_read:
  assumes "spi_ok dev" and "base \<in> spi_bases" and "well_formed s" and "i + 256 \<le> extent r" and "isRead \<noteq> 0"
  shows "\<exists>s'. FlashSpiTransfer dev base slave page 256 (r, i) isRead s = Ret (0, s')
    \<and> page_read base slave (page * 256) (r, i) s s'"
  by (rule flash_read_exact [OF assms])

lemma flash_page_is_read_witness:
  "\<exists>s'. FlashSpiTransfer echo_board SPI_LMS_BASE 0 3 256 (Flash_page_data, 0) 1 (with_packet [] []) = Ret (0, s')
    \<and> page_read SPI_LMS_BASE 0 (3 * 256) (Flash_page_data, 0) (with_packet [] []) s'"
  by (rule flash_page_is_read [OF echo_board_ok _ with_packet_well_formed]) (simp_all add: spi_bases_def)

text \<open>The flash operations end: an erase, and a transfer whatever its size and direction,
  returns 0 or 1 after a bounded number of polls, even if the flash is never ready, and touches only
  the library's local arrays, the buffer of a read, and the SPI core.\<close>

lemma flash_operations_end:
  assumes "spi_ok dev" and "base \<in> spi_bases" and "well_formed s" and "i + unat byteCount \<le> extent r"
  shows "(\<exists>st s'. FlashSpiEraseSector dev base slave isErase sector s = Ret (st, s') \<and> st \<in> {0, 1}
        \<and> effect flash_bytes {base} s s')
    \<and> (\<exists>st s'. FlashSpiTransfer dev base slave page byteCount (r, i) isRead s = Ret (st, s') \<and> st \<in> {0, 1}
        \<and> effect (flash_bytes \<union> (if isRead = 0 then {} else {r} \<times> {i..<i + unat byteCount})) {base} s s')"
proof
  have "runs (spi_ok dev) (FlashSpiEraseSector dev base slave isErase sector s)
      (\<lambda>(st, s'). effect flash_bytes {base} s s' \<and> st \<in> {0, 1})"
    by (rule FlashSpiEraseSector_effect [OF effect_refl]) (use assms in auto)
  then show "\<exists>st s'. FlashSpiEraseSector dev base slave isErase sector s = Ret (st, s') \<and> st \<in> {0, 1}
        \<and> effect flash_bytes {base} s s'"
    using assms(1) by (auto simp: yields_Ret dest!: runs_yields)
  let ?W = "flash_bytes \<union> (if isRead = 0 then {} else {r} \<times> {i..<i + unat byteCount})"
  let ?s = "s\<lparr>spiFastRead := 1\<rparr>"
  have e: "effect ?W {base} s ?s" using assms(3) by (simp add: effect_refl)
  have "256 * (unat byteCount div 256) \<le> unat byteCount" by simp
  then have "runs (spi_ok dev) (flash_pages dev base slave (isRead \<noteq> 0) (unat byteCount div 256)
      (page * 256) (r, i) (0, ?s)) (\<lambda>(st, s'). effect ?W {base} s s' \<and> st \<in> {0, 1})"
    by (intro flash_pages_effect) (use e assms in auto)
  then have "runs (spi_ok dev) (FlashSpiTransfer dev base slave page byteCount (r, i) isRead s)
      (\<lambda>(st, s'). effect ?W {base} s s' \<and> st \<in> {0, 1})"
    using e by (auto simp: FlashSpiTransfer_def Let_def FLASH_PAGE_SIZE_def)
  then show "\<exists>st s'. FlashSpiTransfer dev base slave page byteCount (r, i) isRead s = Ret (st, s')
      \<and> st \<in> {0, 1} \<and> effect ?W {base} s s'"
    using assms(1) by (auto simp: yields_Ret dest!: runs_yields)
qed

lemma flash_operations_end_witness:
  "(\<exists>st s'. FlashSpiEraseSector echo_board SPI_LMS_BASE 0 1 7 (with_packet [] []) = Ret (st, s') \<and> st \<in> {0, 1}
        \<and> effect flash_bytes {SPI_LMS_BASE} (with_packet [] []) s')
    \<and> (\<exists>st s'. FlashSpiTransfer echo_board SPI_LMS_BASE 0 3 256 (Flash_page_data, 0) 0 (with_packet [] []) = Ret (st, s')
        \<and> st \<in> {0, 1}
        \<and> effect (flash_bytes \<union> (if (0 :: u32) = 0 then {} else {Flash_page_data} \<times> {0..<0 + unat (256 :: u16)}))
            {SPI_LMS_BASE} (with_packet [] []) s')"
  by (rule flash_operations_end [OF echo_board_ok _ with_packet_well_formed]) (simp_all add: spi_bases_def)

end
