(* ===== verification/Timing.thy ===== *)
theory Timing
  imports Machine
begin

text \<open>
  The busy loop behind \<open>usleep\<close> (\<open>HAL/src/alt_busy_sleep.c\<close>, \<open>alt_usleep.c\<close>).  The three loops are
  assembly; each is modelled by its turns, and the result of \<open>alt_busy_sleep\<close> is its value and how
  often the loops turned: each turn takes nine cycles on the "tiny" core of this system.
\<close>

section \<open>The assembly loops\<close>

text \<open>\<open>0: addi r, r, -1; bne r, zero, 0b\<close>: the number of turns from the register's value.\<close>

function bne_loop :: "u32 \<Rightarrow> nat" where
  "bne_loop r = (let r = r - 1 in if r \<noteq> 0 then Suc (bne_loop r) else 1)"
  by auto

lemma unat_minus_one_less: "r \<noteq> 0 \<Longrightarrow> unat (r - 1) < unat (r :: u32)"
  by (simp add: unat_minus_one unat_gt_0)

termination bne_loop
proof (relation "measure (\<lambda>r. unat (r - 1))")
  fix r x :: u32
  assume "x = r - 1" and "x \<noteq> 0"
  then show "(x, r) \<in> measure (\<lambda>r. unat (r - 1))"
    using unat_minus_one_less [of x] by simp
qed simp

text \<open>\<open>0: addi r, r, -1; bgt r, zero, 0b\<close>.\<close>

function bgt_loop :: "u32 \<Rightarrow> nat" where
  "bgt_loop r = (let r = r - 1 in if sint r > 0 then Suc (bgt_loop r) else 1)"
  by auto

lemma sint_minus_one_less: "0 < sint (r :: u32) \<Longrightarrow> sint (r - 1) = sint r - 1"
proof -
  assume pos: "0 < sint r"
  have "sint (r - 1) = signed_take_bit 31 (sint r - 1)"
    by (simp add: sint_word_ariths)
  also have "\<dots> = sint r - 1"
    using pos sint_lt [of r] by (intro signed_take_bit_int_eq_self) simp_all
  finally show ?thesis .
qed

termination bgt_loop
proof (relation "measure (\<lambda>r. nat (sint (r - 1)))")
  fix r x :: u32
  assume "x = r - 1" and "0 < sint x"
  then show "(x, r) \<in> measure (\<lambda>r. nat (sint (r - 1)))"
    using sint_minus_one_less [of x] by simp
qed simp

section \<open>The delay\<close>

definition NIOS2_CPU_IMPLEMENTATION :: string where "NIOS2_CPU_IMPLEMENTATION = ''tiny''"

definition INT_MAX :: u32 where "INT_MAX = 0x7FFFFFFF"

definition cycles_per_loop :: u32 where
  "cycles_per_loop = (if NIOS2_CPU_IMPLEMENTATION = ''tiny'' then 9 else 3)"

definition loops_per_us :: u32 where
  "loops_per_us = ALT_CPU_FREQ div (cycles_per_loop * 1000000)"

text \<open>\<open>for (i = 0; i < big_loops; i++)\<close>, from \<open>us\<close> and the turns so far.\<close>

primrec busy_big_loops :: "nat \<Rightarrow> u32 \<times> nat \<Rightarrow> u32 \<times> nat" where
  "busy_big_loops 0 x = x"
| "busy_big_loops (Suc n) x =
     busy_big_loops n (fst x - INT_MAX div loops_per_us, snd x + bne_loop INT_MAX)"

definition alt_busy_sleep :: "u32 \<Rightarrow> u32 \<times> nat" where
  "alt_busy_sleep us =
     (let big_loops = us div (INT_MAX div loops_per_us) in
      if big_loops \<noteq> 0 then
        let (us, turns) = busy_big_loops (unat big_loops) (us, 0)
        in (0, turns + bne_loop (us * loops_per_us))
      else (0, bgt_loop (us * loops_per_us)))"

definition ALT_USLEEP :: "u32 \<Rightarrow> u32 \<times> nat" where
  "ALT_USLEEP us = alt_busy_sleep us"

section \<open>How long it takes\<close>

declare bne_loop.simps [simp del] bgt_loop.simps [simp del]

lemma bne_loop_turns: "r \<noteq> 0 \<Longrightarrow> bne_loop r = unat r"
proof (induction r rule: bne_loop.induct)
  case (1 r)
  have "unat r = Suc (unat (r - 1))" using 1(2) by (simp add: unat_minus_one unat_gt_0)
  with 1 show ?case by (subst bne_loop.simps) (simp add: Let_def unat_eq_zero)
qed

text \<open>A register that starts at zero wraps: the loop turns \<open>2 ^ 32\<close> times.\<close>

lemma bne_loop_zero: "bne_loop 0 = 2 ^ 32"
  using bne_loop_turns [of "- 1"] by (subst bne_loop.simps) (simp add: unsigned_minus_1_eq_mask mask_eq_exp_minus_1)

lemma bgt_loop_turns: "0 \<le> sint r \<Longrightarrow> bgt_loop r = (if r = 0 then 1 else unat r)"
proof (induction r rule: bgt_loop.induct)
  case (1 r)
  show ?case
  proof (cases "r = 0")
    case True
    then show ?thesis by (subst bgt_loop.simps) simp
  next
    case False
    then have pos: "0 < sint r" using 1(2) by (metis order_le_less signed_0 signed_eq_0_iff)
    have u: "unat r = Suc (unat (r - 1))" using False by (simp add: unat_minus_one unat_gt_0)
    have "sint (r - 1) = sint r - 1" by (rule sint_minus_one_less [OF pos])
    moreover have "0 < sint (r - 1) \<or> r - 1 = 0"
      using calculation pos by (metis diff_gt_0_iff_gt linorder_neqE_linordered_idom signed_eq_0_iff less_le zle_diff1_eq)
    ultimately show ?thesis
      using 1(1) [OF refl] False u pos by (subst bgt_loop.simps) (auto simp: Let_def)
  qed
qed

lemma loop_constants:
  "loops_per_us = 11" "INT_MAX div 11 = 195225786" "INT_MAX div loops_per_us = 195225786" "unat INT_MAX = 2147483647" "INT_MAX \<noteq> 0"
  by (simp_all add: loops_per_us_def cycles_per_loop_def NIOS2_CPU_IMPLEMENTATION_def ALT_CPU_FREQ_def INT_MAX_def)

lemma busy_big_loops_turns:
  "195225786 * n \<le> unat us \<Longrightarrow>
     busy_big_loops n (us, t) = (us - of_nat (195225786 * n), t + 2147483647 * n)"
proof (induction n arbitrary: us t)
  case (Suc n)
  have sub: "unat (us - 195225786) = unat us - 195225786"
    using Suc.prems by (subst unat_sub) (simp_all add: word_le_nat_alt)
  have "busy_big_loops n (us - 195225786, t + 2147483647) =
      (us - 195225786 - of_nat (195225786 * n), t + 2147483647 + 2147483647 * n)"
    using Suc.prems by (intro Suc.IH) (simp add: sub)
  then show ?case
    by (simp add: loop_constants bne_loop_turns algebra_simps)
qed simp

text \<open>The turns of a whole delay.\<close>

definition busy_turns :: "nat \<Rightarrow> nat" where
  "busy_turns us =
     (if us = 0 then 1
      else 11 * us + us div 195225786 + (if us mod 195225786 = 0 then 2 ^ 32 else 0))"

lemma alt_busy_sleep_turns: "alt_busy_sleep us = (0, busy_turns (unat us))"
proof -
  let ?q = "unat us div 195225786" and ?r = "unat us mod 195225786"
  have big: "unat (us div 195225786) = ?q" by (simp add: unat_div)
  have split: "unat us = 195225786 * ?q + ?r" by simp
  show ?thesis
  proof (cases "us div 195225786 = 0")
    case True
    then have small: "unat us < 195225786" using big by (simp add: div_eq_0_iff)
    then have u: "unat (us * 11) = unat us * 11"
      by (subst unat_mult_lem [THEN iffD1]) simp_all
    then have "0 \<le> sint (us * 11)"
      using small by (subst sint_small) simp_all
    then have "bgt_loop (us * 11) = (if unat us = 0 then 1 else 11 * unat us)"
      using u by (auto simp: bgt_loop_turns unat_eq_0 simp flip: unat_eq_zero)
    then show ?thesis
      using True small by (simp add: alt_busy_sleep_def Let_def loop_constants busy_turns_def)
  next
    case False
    have rest: "us - of_nat (195225786 * ?q) = of_nat ?r"
    proof -
      have "us - of_nat (195225786 * ?q) = of_nat (unat us) - of_nat (195225786 * ?q)" by simp
      also have "\<dots> = of_nat (unat us - 195225786 * ?q)" by (rule of_nat_diff [symmetric]) simp
      also have "unat us - 195225786 * ?q = ?r" by (rule minus_mult_div_eq_mod)
      finally show ?thesis .
    qed
    have "?r < 195225786" by simp
    then have u: "unat (of_nat ?r * 11 :: u32) = 11 * ?r"
      by (simp add: unat_word_ariths unat_of_nat)
    have last: "bne_loop (of_nat ?r * 11) = (if ?r = 0 then 2 ^ 32 else 11 * ?r)"
      using bne_loop_turns [of "of_nat ?r * 11"] u by (auto simp: bne_loop_zero simp flip: unat_eq_zero)
    have "us \<noteq> 0" using False by auto
    then have nonzero: "unat us \<noteq> 0" by (simp add: unat_eq_zero)
    have run: "alt_busy_sleep us = (0, 2147483647 * ?q + bne_loop (of_nat ?r * 11))"
      using False busy_big_loops_turns [of ?q us 0] rest
      by (simp add: alt_busy_sleep_def Let_def loop_constants big)
    have whole: "2147483647 * ?q + 11 * ?r = 11 * unat us + ?q"
      using split by linarith
    have "2147483647 * ?q + (if ?r = 0 then 2 ^ 32 else 11 * ?r) = busy_turns (unat us)"
    proof (cases "?r = 0")
      case True
      have "2147483647 * ?q = 11 * unat us + ?q" using whole unfolding True by linarith
      with True nonzero show ?thesis unfolding busy_turns_def by presburger
    next
      case False
      with whole nonzero show ?thesis unfolding busy_turns_def by presburger
    qed
    then show ?thesis unfolding run last by simp
  qed
qed

section \<open>Properties\<close>

text \<open>Property C16. A delay of \<open>us\<close> microseconds, not a positive multiple of 195225786, takes eleven loop
  turns of nine cycles per microsecond and one for each 195225786: 99 cycles of the 100 that a
  microsecond has.  At a positive multiple the last loop starts at zero and turns \<open>2 ^ 32\<close> times more.\<close>

theorem delay_turns:
  "ALT_USLEEP us = (0, if us = 0 then 1 else
     11 * unat us + unat us div 195225786 + (if unat us mod 195225786 = 0 then 2 ^ 32 else 0))"
  by (simp add: ALT_USLEEP_def alt_busy_sleep_turns busy_turns_def unat_eq_zero)

end
