(* ===== verification/I2c_Bsp.thy ===== *)
theory I2c_Bsp
  imports I2c
begin

text \<open>
  The I2C driver of the board support package (\<open>drivers/src/i2c_opencores.c\<close>), from which the application's copy in
  \<open>I2c\<close> was made.  It polls the status without a bound: an operation on a core that does not finish never returns.  With a
  core that finishes the two are the same; \<open>i2c_master\<close> carries over.  \<open>I2C_init\<close> is the same code in both.
\<close>

section \<open>Operations\<close>

text \<open>\<open>while (IORD_SR & TIP);\<close>\<close>

definition bsp_wait :: "device \<Rightarrow> u32 \<Rightarrow> trace \<Rightarrow> trace outcome" where
  "bsp_wait dev base t = loop (\<lambda>t.
     let (sr, t) = IORD dev base I2C_SR t in if tip sr then Ret (Again t) else Ret (Break t)) t"

definition bsp_I2C_init :: "u32 \<Rightarrow> u32 \<Rightarrow> u32 \<Rightarrow> trace \<Rightarrow> trace" where
  "bsp_I2C_init base clk speed t =
     (let prescale = clk div (5 * speed) - 1;
          t = IOWR base I2C_CTR 0 t;
          t = IOWR base I2C_CR I2C_CR_IACK_MSK t;
          t = IOWR base I2C_PRERLO (0xff AND prescale) t;
          t = IOWR base I2C_PRERHI (0xff AND drop_bit 8 prescale) t
      in IOWR base I2C_CTR I2C_CTR_EN_MSK t)"

definition bsp_I2C_start :: "device \<Rightarrow> u32 \<Rightarrow> u32 \<Rightarrow> u32 \<Rightarrow> trace \<Rightarrow> (u32 \<times> trace) outcome" where
  "bsp_I2C_start dev base add rd t =
     (let t = IOWR base I2C_TXR (push_bit 1 add + (1 AND rd)) t;
          t = IOWR base I2C_CR (I2C_CR_STA_MSK OR I2C_CR_WR_MSK) t
      in seq (bsp_wait dev base t) (\<lambda>t.
         let (sr, t) = IORD dev base I2C_SR t
         in Ret (if rxnack sr then I2C_NOACK else I2C_ACK, t)))"

definition bsp_I2C_read :: "device \<Rightarrow> u32 \<Rightarrow> u32 \<Rightarrow> trace \<Rightarrow> (u32 \<times> trace) outcome" where
  "bsp_I2C_read dev base last_byte t =
     (let t = (if last_byte \<noteq> 0
               then IOWR base I2C_CR (I2C_CR_RD_MSK OR I2C_CR_NACK_MSK OR I2C_CR_STO_MSK) t
               else IOWR base I2C_CR I2C_CR_RD_MSK t)
      in seq (bsp_wait dev base t) (\<lambda>t. Ret (IORD dev base I2C_RXR t)))"

definition bsp_I2C_write :: "device \<Rightarrow> u32 \<Rightarrow> u8 \<Rightarrow> u32 \<Rightarrow> trace \<Rightarrow> (u32 \<times> trace) outcome" where
  "bsp_I2C_write dev base data last_byte t =
     (let t = IOWR base I2C_TXR (ucast data) t;
          t = (if last_byte \<noteq> 0 then IOWR base I2C_CR (I2C_CR_WR_MSK OR I2C_CR_STO_MSK) t
               else IOWR base I2C_CR I2C_CR_WR_MSK t)
      in seq (bsp_wait dev base t) (\<lambda>t.
         let (sr, t) = IORD dev base I2C_SR t
         in Ret (if rxnack sr then I2C_NOACK else I2C_ACK, t)))"

section \<open>The two waits\<close>

lemma waits_agree:
  assumes "fst (i2c_wait dev base k t) < MAX_RETRIES" and "k \<le> MAX_RETRIES"
  shows "bsp_wait dev base t = Ret (snd (i2c_wait dev base k t))"
  using assms
proof (induction dev base k t rule: i2c_wait.induct)
  case (1 dev base k t)
  obtain sr u where sr: "IORD dev base I2C_SR t = (sr, u)" by force
  show ?case
  proof (cases "tip sr")
    case True
    then have go: "k < MAX_RETRIES"
      using 1(2) sr by (subst (asm) i2c_wait.simps) (auto split: if_splits)
    with True sr have next_poll: "i2c_wait dev base k t = i2c_wait dev base (k + 1) u"
      by (subst i2c_wait.simps) simp
    have "bsp_wait dev base t = bsp_wait dev base u"
      using True sr by (simp add: bsp_wait_def loop_Again)
    then show ?thesis using 1(1) [OF sr [symmetric] refl True go] 1(2) go next_poll by simp
  next
    case False
    then show ?thesis using sr by (subst i2c_wait.simps) (simp add: bsp_wait_def loop_Break)
  qed
qed

text \<open>A core that finishes every transfer before the application's driver gives up.\<close>

definition prompt :: "device \<Rightarrow> u32 \<Rightarrow> bool" where
  "prompt dev base = (\<forall>t. fst (i2c_wait dev base 0 t) < MAX_RETRIES)"

lemma prompt_wait:
  assumes "prompt dev base"
  shows "bsp_wait dev base t = Ret (snd (i2c_wait dev base 0 t))" and "\<not> MAX_RETRIES \<le> fst (i2c_wait dev base 0 t)"
  using assms waits_agree [of dev base 0 t] by (simp_all add: prompt_def not_le)

lemma bsp_I2C_init_same: "bsp_I2C_init = I2C_init"
  by (intro ext) (simp add: bsp_I2C_init_def I2C_init_def i2c_prescale_def)

text \<open>A core that never finishes: the driver of the package does not return.\<close>

lemma bsp_wait_stuck:
  assumes "\<And>u. tip (dev u (reg_address base I2C_SR))"
  shows "bsp_wait dev base t = Hang"
  unfolding bsp_wait_def
  by (rule loop_hangs [where I = "\<lambda>_. True"]) (simp_all add: IORD_def assms Let_def)

section \<open>Properties\<close>

text \<open>Property C33. With a core that finishes in time, each operation of the driver of the package returns exactly what the operation of the
  application's driver returns, after the same accesses; with one that never finishes, where the application's gives up, the package's
  does not return.\<close>

theorem i2c_drivers_agree:
  assumes "prompt dev base" and "\<And>u. tip (stuck u (reg_address base I2C_SR))"
  shows "bsp_I2C_start dev base add rd t = Ret (I2C_start dev base add rd t)
    \<and> bsp_I2C_read dev base last_byte t = Ret (I2C_read dev base last_byte t)
    \<and> bsp_I2C_write dev base data last_byte t = Ret (I2C_write dev base data last_byte t)
    \<and> bsp_I2C_start stuck base add rd t = Hang \<and> bsp_I2C_read stuck base last_byte t = Hang
    \<and> bsp_I2C_write stuck base data last_byte t = Hang"
  using assms(2)
  by (simp add: bsp_I2C_start_def bsp_I2C_read_def bsp_I2C_write_def bsp_wait_stuck prompt_wait [OF assms(1)]
      I2C_start_def I2C_read_def I2C_write_def Let_def split_beta)

theorem i2c_drivers_agree_witness:
  "bsp_I2C_start (\<lambda>u a. 0x80) 0x11080 0x48 0 [] = Ret (I2C_start (\<lambda>u a. 0x80) 0x11080 0x48 0 [])
    \<and> bsp_I2C_start (\<lambda>u a. 2) 0x11080 0x48 0 [] = Hang"
proof -
  have "prompt (\<lambda>u a. 0x80) 0x11080"
    unfolding prompt_def by (subst i2c_wait.simps) (simp add: IORD_def tip_def I2C_SR_TIP_MSK_def MAX_RETRIES_def)
  then show ?thesis
    using i2c_drivers_agree [of "\<lambda>u a. 0x80" "0x11080" "\<lambda>u a. 2" "0x48" 0 "[]" 0 0]
    by (simp add: tip_def I2C_SR_TIP_MSK_def)
qed

end
