(* ===== verification/Llist.thy ===== *)
theory Llist
  imports Prelude
begin

text \<open>
  The doubly linked lists of the HAL (\<open>HAL/inc/sys/alt_llist.h\<close>): a circular chain of elements through
  a head element.  The heap of elements is the record \<open>llist\<close> of the two pointers of each; an element
  is any value of the type of addresses \<open>'n\<close>.  \<open>is_list h l xs\<close> says that the chain from head \<open>l\<close> is the HOL
  list \<open>xs\<close>; the interface \<open>sequence\<close> states the operations as operations on \<open>xs\<close>, and
  \<open>llist_search\<close> is the \<open>while\<close> loop in which the HAL walks such a list.
\<close>

section \<open>Elements and operations\<close>

record 'n llist =
  next_ptr :: "'n \<Rightarrow> 'n"
  previous_ptr :: "'n \<Rightarrow> 'n"

definition set_next :: "'n \<Rightarrow> 'n \<Rightarrow> 'n llist \<Rightarrow> 'n llist" where
  "set_next a b h = h\<lparr>next_ptr := (next_ptr h)(a := b)\<rparr>"

definition set_previous :: "'n \<Rightarrow> 'n \<Rightarrow> 'n llist \<Rightarrow> 'n llist" where
  "set_previous a b h = h\<lparr>previous_ptr := (previous_ptr h)(a := b)\<rparr>"

text \<open>\<open>ALT_LLIST_HEAD\<close>: a head that is an empty list.\<close>

definition ALT_LLIST_HEAD :: "'n \<Rightarrow> 'n llist \<Rightarrow> 'n llist" where
  "ALT_LLIST_HEAD l h = set_previous l l (set_next l l h)"

definition alt_llist_insert :: "'n \<Rightarrow> 'n \<Rightarrow> 'n llist \<Rightarrow> 'n llist" where
  "alt_llist_insert l entry h =
     (let h = set_previous entry l h;
          h = set_next entry (next_ptr h l) h;
          h = set_previous (next_ptr h l) entry h
      in set_next l entry h)"

definition alt_llist_remove :: "'n \<Rightarrow> 'n llist \<Rightarrow> 'n llist" where
  "alt_llist_remove entry h =
     (let h = set_previous (next_ptr h entry) (previous_ptr h entry) h;
          h = set_next (previous_ptr h entry) (next_ptr h entry) h;
          h = set_previous entry entry h
      in set_next entry entry h)"

text \<open>
  \<open>for (next = list->next; next != list; next = next->next) if (found) return next; return NULL\<close>; a
  test that reads outside an object is undefined.
\<close>

definition llist_search :: "'n llist \<Rightarrow> 'n \<Rightarrow> ('n \<Rightarrow> bool outcome) \<Rightarrow> 'n option outcome" where
  "llist_search h l found =
     loop (\<lambda>n. if n = l then Ret (Break None)
       else seq (found n) (\<lambda>b. if b then Ret (Break (Some n)) else Ret (Again (next_ptr h n))))
       (next_ptr h l)"

section \<open>The list a chain stands for\<close>

fun path :: "'n llist \<Rightarrow> 'n \<Rightarrow> 'n list \<Rightarrow> 'n \<Rightarrow> bool" where
  "path h a [] b = (next_ptr h a = b \<and> previous_ptr h b = a)"
| "path h a (x # xs) b = (next_ptr h a = x \<and> previous_ptr h x = a \<and> path h x xs b)"

definition is_list :: "'n llist \<Rightarrow> 'n \<Rightarrow> 'n list \<Rightarrow> bool" where
  "is_list h l xs = (path h l xs l \<and> distinct (l # xs))"

fun search_list :: "('n \<Rightarrow> bool outcome) \<Rightarrow> 'n list \<Rightarrow> 'n option outcome" where
  "search_list found [] = Ret None"
| "search_list found (x # xs) =
     seq (found x) (\<lambda>b. if b then Ret (Some x) else search_list found xs)"

text \<open>What the rest of the HAL relies on: insertion in front, removal, and the search in order.\<close>

locale sequence =
  fixes rep :: "'h \<Rightarrow> 'n \<Rightarrow> 'n list \<Rightarrow> bool"
    and empty :: "'n \<Rightarrow> 'h \<Rightarrow> 'h"
    and insert_front :: "'n \<Rightarrow> 'n \<Rightarrow> 'h \<Rightarrow> 'h"
    and delete :: "'n \<Rightarrow> 'h \<Rightarrow> 'h"
    and search :: "'h \<Rightarrow> 'n \<Rightarrow> ('n \<Rightarrow> bool outcome) \<Rightarrow> 'n option outcome"
  assumes empty_rep: "rep (empty l h) l []"
    and insert_rep: "rep h l xs \<Longrightarrow> e \<notin> set (l # xs) \<Longrightarrow> rep (insert_front l e h) l (e # xs)"
    and delete_rep: "rep h l xs \<Longrightarrow> e \<in> set xs \<Longrightarrow> rep (delete e h) l (remove1 e xs)"
    and search_rep: "rep h l xs \<Longrightarrow> search h l found = search_list found xs"
    and insert_other: "rep h l xs \<Longrightarrow> rep h k ys \<Longrightarrow> set (l # xs) \<inter> set (k # ys) = {} \<Longrightarrow>
      e \<notin> set (k # ys) \<Longrightarrow> rep (insert_front l e h) k ys"
    and rep_distinct: "rep h l xs \<Longrightarrow> distinct (l # xs)"
begin

text \<open>What was inserted last is found first.\<close>

lemma search_inserted:
  assumes "rep h l xs" and "e \<notin> set (l # xs)" and "found e = Ret True"
  shows "search (insert_front l e h) l found = Ret (Some e)"
  using search_rep [OF insert_rep [OF assms(1,2)]] assms(3) by simp

lemma search_skips:
  assumes "rep h l xs" and "e \<notin> set (l # xs)" and "found e = Ret False"
  shows "search (insert_front l e h) l found = search h l found"
  using search_rep [OF insert_rep [OF assms(1,2)]] search_rep [OF assms(1)] assms(3) by simp

lemma insert_delete:
  assumes "rep h l xs" and "e \<notin> set (l # xs)"
  shows "rep (delete e (insert_front l e h)) l xs"
  using delete_rep [OF insert_rep [OF assms], of e] by simp

end

section \<open>The pointers implement the list\<close>

lemmas llist_ops = alt_llist_insert_def alt_llist_remove_def ALT_LLIST_HEAD_def set_next_def
  set_previous_def Let_def

lemma path_cong:
  assumes "\<And>x. x \<in> set (a # xs) \<Longrightarrow> next_ptr h' x = next_ptr h x"
    and "\<And>x. x \<in> set (xs @ [b]) \<Longrightarrow> previous_ptr h' x = previous_ptr h x"
  shows "path h' a xs b = path h a xs b"
  using assms by (induction xs arbitrary: a) auto

lemma path_append: "path h a (xs @ y # ys) b \<longleftrightarrow> path h a xs y \<and> path h y ys b"
  by (induction xs arbitrary: a) auto

lemma path_ends:
  "path h a xs b \<Longrightarrow> next_ptr h a = hd (xs @ [b]) \<and> previous_ptr h b = last (a # xs)"
  by (induction xs arbitrary: a) auto

lemma is_list_empty: "is_list (ALT_LLIST_HEAD l h) l []"
  by (simp add: is_list_def llist_ops)

lemma is_list_insert:
  assumes "is_list h l xs" and "e \<notin> set (l # xs)"
  shows "is_list (alt_llist_insert l e h) l (e # xs)"
proof (cases xs)
  case Nil
  with assms show ?thesis by (auto simp: is_list_def llist_ops)
next
  case (Cons x ys)
  let ?h = "alt_llist_insert l e h"
  have "next_ptr h l = x" using assms(1) Cons by (simp add: is_list_def)
  then have h: "next_ptr ?h = (next_ptr h)(e := x, l := e)" "previous_ptr ?h = (previous_ptr h)(e := l, x := e)"
    using assms(2) Cons by (auto simp: llist_ops)
  have "path ?h x ys l = path h x ys l"
    by (rule path_cong) (use assms Cons in \<open>auto simp: h is_list_def\<close>)
  then show ?thesis
    using assms Cons by (auto simp: is_list_def h)
qed

lemma path_remove:
  assumes "path h a ys e" and "path h e zs b" and "distinct (ys @ e # zs)"
    and "a \<notin> set (ys @ e # zs)" and "b \<notin> set (ys @ e # zs)"
  shows "path (alt_llist_remove e h) a (ys @ zs) b"
  using assms
proof (induction ys arbitrary: a)
  case Nil
  show ?case
  proof (cases zs)
    case Nil
    with Nil.prems show ?thesis by (auto simp: llist_ops)
  next
    case (Cons z zs')
    have "path (alt_llist_remove e h) z zs' b = path h z zs' b"
      by (rule path_cong) (use Nil.prems Cons in \<open>auto simp: llist_ops\<close>)
    with Nil.prems Cons show ?thesis by (auto simp: llist_ops)
  qed
next
  case (Cons y ys)
  have prev: "previous_ptr h e = last (y # ys)" and succ: "next_ptr h e = hd (zs @ [b])"
    using Cons.prems(1,2) path_ends by fastforce+
  then have "previous_ptr h e \<in> set (y # ys)" and "next_ptr h e \<in> set zs \<union> {b}"
    by (metis last_in_set list.distinct(1)) (cases zs; simp add: succ)
  with Cons.prems have "a \<noteq> previous_ptr h e" "a \<noteq> e" "y \<noteq> next_ptr h e" "y \<noteq> e" "next_ptr h e \<noteq> e"
    by auto
  then have "next_ptr (alt_llist_remove e h) a = next_ptr h a"
    and "previous_ptr (alt_llist_remove e h) y = previous_ptr h y"
    by (auto simp: llist_ops)
  then show ?case using Cons by auto
qed

lemma is_list_remove:
  assumes "is_list h l xs" and "e \<in> set xs"
  shows "is_list (alt_llist_remove e h) l (remove1 e xs)"
proof -
  obtain ys zs where xs: "xs = ys @ e # zs" and new: "e \<notin> set ys"
    using split_list_first [OF assms(2)] by blast
  have "path h l ys e" and "path h e zs l" and "distinct (l # ys @ e # zs)"
    using assms(1) by (simp_all add: is_list_def xs path_append)
  then have "path (alt_llist_remove e h) l (ys @ zs) l"
    by (intro path_remove) auto
  then show ?thesis
    using assms(1) new by (auto simp: is_list_def xs remove1_append)
qed

lemma is_list_other:
  assumes "is_list h l xs" and "is_list h k ys" and "set (l # xs) \<inter> set (k # ys) = {}" and "e \<notin> set (k # ys)"
  shows "is_list (alt_llist_insert l e h) k ys"
proof -
  have "next_ptr h l \<in> set (l # xs)" using assms(1) by (cases xs) (auto simp: is_list_def)
  with assms have "next_ptr h l \<notin> set (k # ys)" "l \<notin> set (k # ys)" by auto
  then have "path (alt_llist_insert l e h) k ys k = path h k ys k"
    using assms(4) by (intro path_cong) (auto simp: llist_ops)
  with assms(2) show ?thesis by (simp add: is_list_def)
qed

lemma search_path:
  assumes "path h a xs l" and "l \<notin> set xs"
  shows "loop (\<lambda>n. if n = l then Ret (Break None)
      else seq (found n) (\<lambda>b. if b then Ret (Break (Some n)) else Ret (Again (next_ptr h n))))
      (next_ptr h a) = search_list found xs"
  using assms
proof (induction xs arbitrary: a)
  case Nil
  then show ?case by (subst loop_unfold) simp
next
  case (Cons x xs)
  then have "next_ptr h a = x" "x \<noteq> l" by auto
  then show ?case
    using Cons by (subst loop_unfold) (cases "found x"; simp)
qed

lemma llist_search_list: "is_list h l xs \<Longrightarrow> llist_search h l found = search_list found xs"
  unfolding llist_search_def by (rule search_path) (simp_all add: is_list_def)

interpretation llist: sequence is_list ALT_LLIST_HEAD alt_llist_insert alt_llist_remove llist_search
  by unfold_locales
    (rule is_list_empty, erule (1) is_list_insert, erule (1) is_list_remove, erule llist_search_list,
     erule (3) is_list_other, simp add: is_list_def)

text \<open>A search whose tests all have a value is \<open>find\<close>.\<close>

lemma search_list_find:
  "(\<And>x. x \<in> set xs \<Longrightarrow> found x = Ret (P x)) \<Longrightarrow> search_list found xs = Ret (find P xs)"
  by (induction xs) auto

lemma search_list_Undef:
  "(\<And>x. x \<in> set ys \<Longrightarrow> found x = Ret False) \<Longrightarrow> found x = Undef \<Longrightarrow>
     search_list found (ys @ x # zs) = Undef"
  by (induction ys) auto

section \<open>Properties\<close>

text \<open>Property C17. The pointer operations refine the list: from a chain that stands for \<open>xs\<close>, inserting a
  new element gives the chain of \<open>e # xs\<close>, removing it again the chain of \<open>xs\<close>, removing any element of
  \<open>xs\<close> the chain without it, and the HAL's search visits the elements in order.\<close>

theorem llist_refines_list:
  assumes "is_list h l xs" and "e \<notin> set (l # xs)"
  shows "is_list (alt_llist_insert l e h) l (e # xs)
    \<and> is_list (alt_llist_remove e (alt_llist_insert l e h)) l xs
    \<and> (\<forall>x. is_list (if x \<in> set xs then alt_llist_remove x h else h) l (remove1 x xs))
    \<and> llist_search h l found = search_list found xs"
proof (intro conjI allI)
  show "is_list (if x \<in> set xs then alt_llist_remove x h else h) l (remove1 x xs)" for x
    using llist.delete_rep [OF assms(1)] assms(1) by (simp add: remove1_idem)
qed (rule llist.insert_rep [OF assms] llist.insert_delete [OF assms] llist.search_rep [OF assms(1)])+

definition one_element :: "nat llist" where
  "one_element = alt_llist_insert 0 7 (ALT_LLIST_HEAD 0 \<lparr>next_ptr = id, previous_ptr = id\<rparr>)"

lemma one_element_list: "is_list one_element 0 [7]"
  unfolding one_element_def by (rule llist.insert_rep [OF llist.empty_rep]) simp

theorem llist_refines_list_witness: "is_list (alt_llist_insert 0 8 one_element) 0 [8, 7]"
  using llist_refines_list [OF one_element_list, of 8] by simp

end
