(* ===== verification/Devices.thy ===== *)
theory Devices
  imports Llist
begin

text \<open>
  Devices and filesystems by name: the device lists (\<open>alt_dev.c\<close>, \<open>alt_flash_dev.c\<close>,
  \<open>alt_dma_rxchan_open.c\<close>, \<open>alt_dma_txchan_open.c\<close>), registration (\<open>alt_dev_llist_insert.c\<close>,
  \<open>alt_fs_reg.c\<close> and the inline functions of the headers) and lookup (\<open>alt_find_dev.c\<close>,
  \<open>alt_find_file.c\<close>).  A pointer to a list element is a \<open>node option\<close>, \<open>None\<close> the null pointer; the
  name field of each device is the parameter \<open>names\<close>.  A C string is a HOL string without a NUL; its
  array ends in one, and a byte read past it is \<open>Undef\<close>.  The error numbers are newlib's.
\<close>

section \<open>Error numbers and strings\<close>

definition EMFILE :: int where "EMFILE = 24"
definition EINVAL :: int where "EINVAL = 22"
definition ENODEV :: int where "ENODEV = 19"
definition EACCES :: int where "EACCES = 13"
definition ENOTTY :: int where "ENOTTY = 25"
definition ENOTSUP :: int where "ENOTSUP = 134"
definition EBADFD :: int where "EBADFD = 81"
definition ENOSYS :: int where "ENOSYS = 88"
definition ECHILD :: int where "ECHILD = 10"
definition ESRCH :: int where "ESRCH = 3"

lemmas errno_defs = EMFILE_def EINVAL_def ENODEV_def EACCES_def ENOTTY_def ENOTSUP_def EBADFD_def
  ENOSYS_def ECHILD_def ESRCH_def

definition NUL :: char where "NUL = CHR 0x00"

definition c_array :: "string \<Rightarrow> string" where
  "c_array s = s @ [NUL]"

definition c_char :: "string \<Rightarrow> nat \<Rightarrow> char outcome" where
  "c_char s i = (if i \<le> length s then Ret (c_array s ! i) else Undef)"

text \<open>\<open>!memcmp(a, b, n)\<close>, byte by byte up to the first difference.\<close>

fun memcmp_equal :: "nat \<Rightarrow> string \<Rightarrow> string \<Rightarrow> bool outcome" where
  "memcmp_equal 0 as bs = Ret True"
| "memcmp_equal (Suc n) (a # as) (b # bs) = (if a = b then memcmp_equal n as bs else Ret False)"
| "memcmp_equal (Suc n) _ _ = Undef"

section \<open>The lists\<close>

datatype node = alt_dev_list | alt_fs_list | alt_flash_dev_list | alt_dma_rxchan_list
  | alt_dma_txchan_list | Null_device | Device nat

record hal =
  links :: "node llist"
  errno :: int

text \<open>At the start of \<open>main\<close> every list is empty but \<open>alt_dev_list\<close>, which holds the null device.\<close>

definition initial_links :: "node llist" where
  "initial_links =
     alt_llist_insert alt_dev_list Null_device (fold ALT_LLIST_HEAD
       [alt_dev_list, alt_fs_list, alt_flash_dev_list, alt_dma_rxchan_list, alt_dma_txchan_list]
       \<lparr>next_ptr = \<lambda>_. alt_dev_list, previous_ptr = \<lambda>_. alt_dev_list\<rparr>)"

section \<open>Registration\<close>

definition alt_dev_llist_insert ::
    "(node \<Rightarrow> string option) \<Rightarrow> node option \<Rightarrow> node \<Rightarrow> 'z hal_scheme \<Rightarrow> int \<times> 'z hal_scheme" where
  "alt_dev_llist_insert names dev l s =
     (case dev of
        None \<Rightarrow> (- EINVAL, s\<lparr>errno := EINVAL\<rparr>)
      | Some d \<Rightarrow>
          if names d = None then (- EINVAL, s\<lparr>errno := EINVAL\<rparr>)
          else (0, s\<lparr>links := alt_llist_insert l d (links s)\<rparr>))"

definition alt_dev_reg :: "(node \<Rightarrow> string option) \<Rightarrow> node option \<Rightarrow> 'z hal_scheme \<Rightarrow> int \<times> 'z hal_scheme" where
  "alt_dev_reg names dev s = alt_dev_llist_insert names dev alt_dev_list s"

definition alt_flash_device_register ::
    "(node \<Rightarrow> string option) \<Rightarrow> node option \<Rightarrow> 'z hal_scheme \<Rightarrow> int \<times> 'z hal_scheme" where
  "alt_flash_device_register names fd s = alt_dev_llist_insert names fd alt_flash_dev_list s"

definition alt_dma_txchan_reg ::
    "(node \<Rightarrow> string option) \<Rightarrow> node option \<Rightarrow> 'z hal_scheme \<Rightarrow> int \<times> 'z hal_scheme" where
  "alt_dma_txchan_reg names dev s = alt_dev_llist_insert names dev alt_dma_txchan_list s"

definition alt_dma_rxchan_reg ::
    "(node \<Rightarrow> string option) \<Rightarrow> node option \<Rightarrow> 'z hal_scheme \<Rightarrow> int \<times> 'z hal_scheme" where
  "alt_dma_rxchan_reg names dev s = alt_dev_llist_insert names dev alt_dma_rxchan_list s"

text \<open>\<open>alt_fs_reg\<close> does not check the pointer, and leaves \<open>errno\<close> alone.\<close>

definition alt_fs_reg ::
    "(node \<Rightarrow> string option) \<Rightarrow> node option \<Rightarrow> 'z hal_scheme \<Rightarrow> (int \<times> 'z hal_scheme) outcome" where
  "alt_fs_reg names dev s =
     (case dev of
        None \<Rightarrow> Undef
      | Some d \<Rightarrow>
          if names d = None then Ret (- ENODEV, s)
          else Ret (0, s\<lparr>links := alt_llist_insert alt_fs_list d (links s)\<rparr>))"

section \<open>Lookup\<close>

definition name_of :: "(node \<Rightarrow> string option) \<Rightarrow> node \<Rightarrow> string outcome" where
  "name_of names d = (case names d of None \<Rightarrow> Undef | Some m \<Rightarrow> Ret m)"

definition alt_find_dev ::
    "(node \<Rightarrow> string option) \<Rightarrow> string \<Rightarrow> node \<Rightarrow> node llist \<Rightarrow> node option outcome" where
  "alt_find_dev names nm l h =
     (let len = length nm + 1 in
      llist_search h l (\<lambda>d. seq (name_of names d) (\<lambda>m. memcmp_equal len (c_array m) (c_array nm))))"

definition mount_length :: "string \<Rightarrow> nat outcome" where
  "mount_length m =
     (let len = length m in
      if len = 0 then Undef else Ret (if m ! (len - 1) = CHR ''/'' then len - 1 else len))"

definition alt_find_file ::
    "(node \<Rightarrow> string option) \<Rightarrow> string \<Rightarrow> node llist \<Rightarrow> node option outcome" where
  "alt_find_file names nm h =
     llist_search h alt_fs_list (\<lambda>d.
       seq (name_of names d) (\<lambda>m.
       seq (mount_length m) (\<lambda>len.
       seq (c_char nm len) (\<lambda>c.
       if c = CHR ''/'' \<or> c = NUL then memcmp_equal len (c_array m) (c_array nm) else Ret False))))"

text \<open>\<open>alt_dma_rxchan_open\<close> and \<open>alt_dma_txchan_open\<close>.\<close>

definition alt_dma_rxchan_open ::
    "(node \<Rightarrow> string option) \<Rightarrow> string \<Rightarrow> 'z hal_scheme \<Rightarrow> (node option \<times> 'z hal_scheme) outcome" where
  "alt_dma_rxchan_open names nm s =
     seq (alt_find_dev names nm alt_dma_rxchan_list (links s)) (\<lambda>dev.
     Ret (dev, if dev = None then s\<lparr>errno := ENODEV\<rparr> else s))"

definition alt_dma_txchan_open ::
    "(node \<Rightarrow> string option) \<Rightarrow> string \<Rightarrow> 'z hal_scheme \<Rightarrow> (node option \<times> 'z hal_scheme) outcome" where
  "alt_dma_txchan_open names nm s =
     seq (alt_find_dev names nm alt_dma_txchan_list (links s)) (\<lambda>dev.
     Ret (dev, if dev = None then s\<lparr>errno := ENODEV\<rparr> else s))"

section \<open>What the comparisons compute\<close>

lemma memcmp_equal_take:
  "n \<le> length as \<Longrightarrow> n \<le> length bs \<Longrightarrow> memcmp_equal n as bs = Ret (take n as = take n bs)"
  by (induction n as bs rule: memcmp_equal.induct) auto

lemma memcmp_equal_name:
  "NUL \<notin> set m \<Longrightarrow> NUL \<notin> set nm \<Longrightarrow>
     memcmp_equal (Suc (length nm)) (c_array m) (c_array nm) = Ret (m = nm)"
proof (induction nm arbitrary: m)
  case Nil
  then show ?case by (cases m) (auto simp: c_array_def)
next
  case (Cons c nm)
  then show ?case by (cases m) (auto simp: c_array_def)
qed

text \<open>A directory is a mount point without its trailing slash; a file is under it when the
  directory is a prefix of its name that ends at a slash or at the end of the name.\<close>

definition directory :: "string \<Rightarrow> string" where
  "directory m = (if last m = CHR ''/'' then butlast m else m)"

definition under :: "string \<Rightarrow> string \<Rightarrow> bool" where
  "under m nm = (\<exists>rest. nm = directory m @ rest \<and> (rest = [] \<or> hd rest = CHR ''/''))"

lemma mount_length_directory: "m \<noteq> [] \<Longrightarrow> mount_length m = Ret (length (directory m))"
  by (simp add: mount_length_def directory_def Let_def last_conv_nth)

lemma directory_prefix: "m \<noteq> [] \<Longrightarrow> take (length (directory m)) (c_array m) = directory m"
  by (auto simp: directory_def c_array_def butlast_conv_take)

lemma under_take:
  "under m nm \<longleftrightarrow> length (directory m) \<le> length nm \<and> take (length (directory m)) nm = directory m
     \<and> (length nm = length (directory m) \<or> nm ! length (directory m) = CHR ''/'')"
  (is "_ \<longleftrightarrow> ?R")
proof
  assume ?R
  then show "under m nm"
    unfolding under_def
    by (intro exI [of _ "drop (length (directory m)) nm"])
      (metis append_take_drop_id drop_eq_Nil2 hd_drop_conv_nth order_refl less_le)
next
  assume "under m nm"
  then obtain rest where "nm = directory m @ rest" and "rest = [] \<or> hd rest = CHR ''/''"
    unfolding under_def by blast
  then show ?R by (cases rest) auto
qed

lemma mount_test:
  assumes "m \<noteq> []" and "NUL \<notin> set nm" and "length (directory m) \<le> length nm"
  shows "seq (mount_length m) (\<lambda>len. seq (c_char nm len) (\<lambda>c.
     if c = CHR ''/'' \<or> c = NUL then memcmp_equal len (c_array m) (c_array nm) else Ret False))
     = Ret (under m nm)"
proof -
  let ?n = "length (directory m)"
  have "length (directory m) \<le> length m" by (simp add: directory_def)
  then have cmp: "memcmp_equal ?n (c_array m) (c_array nm) = Ret (take ?n nm = directory m)"
    using assms directory_prefix [OF assms(1)]
    by (subst memcmp_equal_take) (auto simp: c_array_def)
  have "(if c_array nm ! ?n = CHR ''/'' \<or> c_array nm ! ?n = NUL
      then Ret (take ?n nm = directory m) else Ret False) = Ret (under m nm)"
  proof (cases "length nm = ?n")
    case True
    then have "c_array nm ! ?n = NUL" by (simp add: c_array_def nth_append)
    then show ?thesis unfolding under_take True by simp
  next
    case False
    with assms(3) have less: "?n < length nm" by simp
    then have "c_array nm ! ?n = nm ! ?n" by (simp add: c_array_def nth_append)
    moreover have "nm ! ?n \<noteq> NUL" using assms(2) nth_mem [OF less] by metis
    ultimately show ?thesis unfolding under_take using less False by (simp only: if_False) auto
  qed
  then show ?thesis
    by (simp only: mount_length_directory [OF assms(1)] c_char_def seq.simps assms(3) if_True cmp)
qed

lemma mount_overread:
  assumes "m \<noteq> []" and "length nm < length (directory m)"
  shows "seq (mount_length m) (\<lambda>len. seq (c_char nm len) (f len)) = Undef"
  using assms by (simp add: mount_length_directory c_char_def)

lemma alt_find_dev_list:
  assumes "is_list h l ds" and "NUL \<notin> set nm"
    and "\<And>d. d \<in> set ds \<Longrightarrow> \<exists>m. names d = Some m \<and> NUL \<notin> set m"
  shows "alt_find_dev names nm l h = Ret (find (\<lambda>d. names d = Some nm) ds)"
  unfolding alt_find_dev_def Let_def llist.search_rep [OF assms(1)]
  by (rule search_list_find)
    (use assms(2,3) in \<open>fastforce simp: name_of_def memcmp_equal_name\<close>)

lemma initial_dev_list: "is_list initial_links alt_dev_list [Null_device]"
  unfolding initial_links_def by (rule llist.insert_rep) (auto simp: is_list_def llist_ops)

section \<open>Properties\<close>

text \<open>Property C18. On a list of devices with C-string names \<open>alt_find_dev\<close> is \<open>find\<close>: it returns the
  first device in the order of the list (registration inserts at its head) among those whose name is
  exactly the given one, and the null pointer when there is none.\<close>

theorem find_dev_exact:
  assumes "is_list h l ds" and "NUL \<notin> set nm"
    and "\<forall>d \<in> set ds. \<exists>m. names d = Some m \<and> NUL \<notin> set m"
  shows "alt_find_dev names nm l h = Ret (find (\<lambda>d. names d = Some nm) ds)"
  by (rule alt_find_dev_list) (use assms in auto)

theorem find_dev_exact_witness:
  "alt_find_dev (\<lambda>d. Some (if d = Null_device then ''/dev/null'' else ''/dev/uart'')) ''/dev/null''
     alt_dev_list initial_links = Ret (Some Null_device)"
  by (subst find_dev_exact [OF initial_dev_list]) (simp_all add: NUL_def)

text \<open>Property C19. \<open>alt_find_file\<close> reads the character of the file name at the length of each mount
  point before it compares: with mount points \<open>ds @ d # es\<close>, none of \<open>ds\<close> longer than the file name, it
  returns the first of \<open>ds\<close> that the file is under; when there is none and \<open>d\<close> is longer than the
  file name, it reads past the end of the name.\<close>

theorem find_file_overread:
  assumes "is_list h alt_fs_list (ds @ d # es)" and "NUL \<notin> set nm"
    and "\<forall>x \<in> set ds. \<exists>m. names x = Some m \<and> m \<noteq> [] \<and> length (directory m) \<le> length nm"
    and "names d = Some m" and "m \<noteq> []" and "length nm < length (directory m)"
  shows "alt_find_file names nm h =
    (case find (\<lambda>x. under (the (names x)) nm) ds of None \<Rightarrow> Undef | Some x \<Rightarrow> Ret (Some x))"
proof -
  let ?found = "\<lambda>d. seq (name_of names d) (\<lambda>m. seq (mount_length m) (\<lambda>len. seq (c_char nm len) (\<lambda>c.
       if c = CHR ''/'' \<or> c = NUL then memcmp_equal len (c_array m) (c_array nm) else Ret False)))"
  have hit: "?found x = Ret (under (the (names x)) nm)" if "x \<in> set ds" for x
    using assms(2,3) that by (auto simp: name_of_def mount_test)
  have over: "?found d = Undef"
    using assms(4-6) by (simp add: name_of_def mount_overread)
  have "search_list ?found (ds @ d # es) = (case find (\<lambda>x. under (the (names x)) nm) ds of
      None \<Rightarrow> Undef | Some x \<Rightarrow> Ret (Some x))"
    using hit over by (induction ds) auto
  then show ?thesis
    unfolding alt_find_file_def llist.search_rep [OF assms(1)] .
qed

definition two_mounts :: "node llist" where
  "two_mounts = alt_llist_insert alt_fs_list (Device 7) (alt_llist_insert alt_fs_list (Device 8)
     (ALT_LLIST_HEAD alt_fs_list initial_links))"

lemma two_mounts_list: "is_list two_mounts alt_fs_list ([Device 7] @ Device 8 # [])"
  unfolding two_mounts_def append.simps by (intro llist.insert_rep llist.empty_rep) auto

theorem find_file_overread_witness:
  "alt_find_file (\<lambda>d. Some (if d = Device 8 then ''/mnt'' else ''/r/'')) ''/x'' two_mounts = Undef"
  by (subst find_file_overread [OF two_mounts_list, where m = "''/mnt''"])
    (simp_all add: NUL_def directory_def under_take)

end
