(* ===== verification/Irq.thy ===== *)
theory Irq
  imports Prelude
begin

text \<open>
  Interrupts and exceptions of the HAL: the processor's control registers (\<open>nios2.h\<close>), the inline
  functions of \<open>sys/alt_irq.h\<close> and \<open>priv/alt_legacy_irq.h\<close>, registration (\<open>alt_iic.c\<close>,
  \<open>alt_iic_isr_register.c\<close>, \<open>alt_irq_register.c\<close>), dispatch (\<open>alt_irq_handler.c\<close>) and the
  instruction exceptions (\<open>alt_instruction_exception_entry.c\<close>).

  \<open>'w cpu\<close> is the processor with the rest of the system as \<open>'w\<close>.  A handler is an address, 0 the null
  pointer; the parameter \<open>isrs\<close> gives the code at an address, and \<open>lines\<close> the interrupt lines that the
  devices assert.  The build has the internal controller, the enhanced API, and neither a vector
  instruction nor shadow registers, MMU or MPU.
\<close>

section \<open>Control registers\<close>

definition NIOS2_STATUS_PIE_MSK :: u32 where "NIOS2_STATUS_PIE_MSK = 0x00000001"
definition NIOS2_NIRQ :: nat where "NIOS2_NIRQ = 32"
definition ALT_NIRQ :: nat where "ALT_NIRQ = NIOS2_NIRQ"

record irq_entry =
  handler :: u32
  irq_context :: u32

record 'w cpu =
  status :: u32
  ienable :: u32
  alt_irq_active :: u32
  alt_priority_mask :: u32
  alt_irq :: "irq_entry list"
  system :: 'w

definition initial_cpu :: "u32 \<Rightarrow> u32 \<Rightarrow> 'w \<Rightarrow> 'w cpu" where
  "initial_cpu st ien w = \<lparr>status = st, ienable = ien, alt_irq_active = 0, alt_priority_mask = - 1,
     alt_irq = replicate ALT_NIRQ \<lparr>handler = 0, irq_context = 0\<rparr>, system = w\<rparr>"

definition alt_irq_enabled :: "'w cpu \<Rightarrow> u32" where
  "alt_irq_enabled s = status s AND NIOS2_STATUS_PIE_MSK"

definition alt_irq_disable_all :: "'w cpu \<Rightarrow> u32 \<times> 'w cpu" where
  "alt_irq_disable_all s = (status s, s\<lparr>status := status s AND NOT NIOS2_STATUS_PIE_MSK\<rparr>)"

definition alt_irq_enable_all :: "u32 \<Rightarrow> 'w cpu \<Rightarrow> 'w cpu" where
  "alt_irq_enable_all ctx s = s\<lparr>status := ctx\<rparr>"

definition alt_irq_cpu_enable_interrupts :: "'w cpu \<Rightarrow> 'w cpu" where
  "alt_irq_cpu_enable_interrupts s = s\<lparr>status := NIOS2_STATUS_PIE_MSK\<rparr>"

text \<open>\<open>ipending\<close>: the asserted lines that are enabled.\<close>

definition alt_irq_pending :: "('w \<Rightarrow> u32) \<Rightarrow> 'w cpu \<Rightarrow> u32" where
  "alt_irq_pending lines s = lines (system s) AND ienable s"

section \<open>Enabling and disabling one interrupt\<close>

definition alt_irq_disable :: "nat \<Rightarrow> 'w cpu \<Rightarrow> int \<times> 'w cpu" where
  "alt_irq_disable i s =
     (let (ctx, s) = alt_irq_disable_all s;
          s = s\<lparr>alt_irq_active := alt_irq_active s AND NOT (push_bit i 1)\<rparr>;
          s = s\<lparr>ienable := alt_irq_active s\<rparr>
      in (0, alt_irq_enable_all ctx s))"

definition alt_irq_enable :: "nat \<Rightarrow> 'w cpu \<Rightarrow> int \<times> 'w cpu" where
  "alt_irq_enable i s =
     (let (ctx, s) = alt_irq_disable_all s;
          s = s\<lparr>alt_irq_active := alt_irq_active s OR push_bit i 1\<rparr>;
          s = s\<lparr>ienable := alt_irq_active s\<rparr>
      in (0, alt_irq_enable_all ctx s))"

definition alt_irq_interruptible :: "nat \<Rightarrow> 'w cpu \<Rightarrow> u32 \<times> 'w cpu" where
  "alt_irq_interruptible priority s =
     (let old = alt_priority_mask s;
          s = s\<lparr>alt_priority_mask := push_bit priority 1 - 1\<rparr>;
          s = s\<lparr>ienable := alt_irq_active s AND alt_priority_mask s\<rparr>
      in (old, s\<lparr>status := 1\<rparr>))"

definition alt_irq_non_interruptible :: "u32 \<Rightarrow> 'w cpu \<Rightarrow> 'w cpu" where
  "alt_irq_non_interruptible old s =
     (let s = s\<lparr>status := 0\<rparr>;
          s = s\<lparr>alt_priority_mask := old\<rparr>
      in s\<lparr>ienable := old AND alt_irq_active s\<rparr>)"

section \<open>Registration\<close>

definition alt_ic_irq_enable :: "nat \<Rightarrow> 'w cpu \<Rightarrow> int \<times> 'w cpu" where
  "alt_ic_irq_enable irq s = alt_irq_enable irq s"

definition alt_ic_irq_disable :: "nat \<Rightarrow> 'w cpu \<Rightarrow> int \<times> 'w cpu" where
  "alt_ic_irq_disable irq s = alt_irq_disable irq s"

definition alt_ic_irq_enabled :: "nat \<Rightarrow> 'w cpu \<Rightarrow> u32" where
  "alt_ic_irq_enabled irq s = (if ienable s AND push_bit irq 1 \<noteq> 0 then 1 else 0)"

text \<open>\<open>alt_irq[id].handler = isr; alt_irq[id].context = context\<close> with interrupts disabled.\<close>

definition set_handler :: "int \<Rightarrow> u32 \<Rightarrow> u32 \<Rightarrow> 'w cpu \<Rightarrow> 'w cpu outcome" where
  "set_handler i isr ctx s =
     (if 0 \<le> i \<and> nat i < length (alt_irq s)
      then Ret (s\<lparr>alt_irq := (alt_irq s)[nat i := \<lparr>handler = isr, irq_context = ctx\<rparr>]\<rparr>)
      else Undef)"

text \<open>\<open>int id = irq; if (id < ALT_NIRQ)\<close>: a signed comparison.\<close>

definition alt_iic_isr_register :: "u32 \<Rightarrow> u32 \<Rightarrow> u32 \<Rightarrow> 'w cpu \<Rightarrow> (int \<times> 'w cpu) outcome" where
  "alt_iic_isr_register irq isr ctx s =
     (let i = sint irq in
      if i < int ALT_NIRQ then
        let (st, s) = alt_irq_disable_all s in
        seq (set_handler i isr ctx s) (\<lambda>s.
        let (rc, s) = (if isr \<noteq> 0 then alt_ic_irq_enable (nat i) s else alt_ic_irq_disable (nat i) s)
        in Ret (rc, alt_irq_enable_all st s))
      else Ret (- 22, s))"

definition alt_ic_isr_register :: "u32 \<Rightarrow> u32 \<Rightarrow> u32 \<Rightarrow> 'w cpu \<Rightarrow> (int \<times> 'w cpu) outcome" where
  "alt_ic_isr_register irq isr ctx s = alt_iic_isr_register irq isr ctx s"

text \<open>The older function compares unsigned.\<close>

definition alt_irq_register :: "u32 \<Rightarrow> u32 \<Rightarrow> u32 \<Rightarrow> 'w cpu \<Rightarrow> (int \<times> 'w cpu) outcome" where
  "alt_irq_register i ctx hdl s =
     (if unat i < ALT_NIRQ then
        let (st, s) = alt_irq_disable_all s in
        seq (set_handler (uint i) hdl ctx s) (\<lambda>s.
        let (rc, s) = (if hdl \<noteq> 0 then alt_irq_enable (unat i) s else alt_irq_disable (unat i) s)
        in Ret (rc, alt_irq_enable_all st s))
      else Ret (- 22, s))"

section \<open>Dispatch\<close>

type_synonym 'w isrs = "u32 \<Rightarrow> u32 \<Rightarrow> 'w cpu \<Rightarrow> 'w cpu outcome"

definition call_handler :: "'w isrs \<Rightarrow> nat \<Rightarrow> 'w cpu \<Rightarrow> 'w cpu outcome" where
  "call_handler isrs i s =
     (if i < length (alt_irq s) \<and> handler (alt_irq s ! i) \<noteq> 0
      then isrs (handler (alt_irq s ! i)) (irq_context (alt_irq s ! i)) s else Undef)"

text \<open>\<open>i = 0; mask = 1; do { if (active & mask) ... break; mask <<= 1; i++; } while (1)\<close>.\<close>

definition first_active :: "u32 \<Rightarrow> nat outcome" where
  "first_active active =
     loop (\<lambda>(i, m). if active AND m \<noteq> 0 then Ret (Break i)
       else Ret (Again (Suc i, push_bit 1 m))) (0, 1 :: u32)"

definition dispatch_turn ::
    "('w \<Rightarrow> u32) \<Rightarrow> 'w isrs \<Rightarrow> u32 \<times> 'w cpu \<Rightarrow> (u32 \<times> 'w cpu, 'w cpu) turn outcome" where
  "dispatch_turn lines isrs x =
     (let (active, s) = x in
      seq (first_active active) (\<lambda>i.
      seq (call_handler isrs i s) (\<lambda>s.
      let active = alt_irq_pending lines s in
      if active \<noteq> 0 then Ret (Again (active, s)) else Ret (Break s))))"

definition alt_irq_handler :: "('w \<Rightarrow> u32) \<Rightarrow> 'w isrs \<Rightarrow> 'w cpu \<Rightarrow> 'w cpu outcome" where
  "alt_irq_handler lines isrs s = loop (dispatch_turn lines isrs) (alt_irq_pending lines s, s)"

section \<open>Start\<close>

definition altera_nios2_gen2_irq_init :: "'w cpu \<Rightarrow> 'w cpu" where
  "altera_nios2_gen2_irq_init s = s\<lparr>ienable := 0\<rparr>"

definition alt_irq_init :: "'w cpu \<Rightarrow> 'w cpu" where
  "alt_irq_init s = alt_irq_cpu_enable_interrupts (altera_nios2_gen2_irq_init s)"

section \<open>Instruction exceptions\<close>

datatype alt_exception_cause = NIOS2_EXCEPTION_CAUSE_NOT_PRESENT | NIOS2_EXCEPTION_RESET
  | NIOS2_EXCEPTION_CPU_ONLY_RESET_REQUEST | NIOS2_EXCEPTION_INTERRUPT | NIOS2_EXCEPTION_TRAP_INST
  | NIOS2_EXCEPTION_UNIMPLEMENTED_INST | NIOS2_EXCEPTION_ILLEGAL_INST
  | NIOS2_EXCEPTION_MISALIGNED_DATA_ADDR | NIOS2_EXCEPTION_MISALIGNED_TARGET_PC
  | NIOS2_EXCEPTION_DIVISION_ERROR | NIOS2_EXCEPTION_SUPERVISOR_ONLY_INST_ADDR
  | NIOS2_EXCEPTION_SUPERVISOR_ONLY_INST | NIOS2_EXCEPTION_SUPERVISOR_ONLY_DATA_ADDR
  | NIOS2_EXCEPTION_TLB_MISS | NIOS2_EXCEPTION_TLB_EXECUTE_PERM_VIOLATION
  | NIOS2_EXCEPTION_TLB_READ_PERM_VIOLATION | NIOS2_EXCEPTION_TLB_WRITE_PERM_VIOLATION
  | NIOS2_EXCEPTION_MPU_INST_REGION_VIOLATION | NIOS2_EXCEPTION_MPU_DATA_REGION_VIOLATION
  | NIOS2_EXCEPTION_ECC_TLB_ERR | NIOS2_EXCEPTION_ECC_FETCH_ERR
  | NIOS2_EXCEPTION_ECC_REGISTER_FILE_ERR | NIOS2_EXCEPTION_ECC_DATA_ERR
  | NIOS2_EXCEPTION_ECC_DATA_CACHE_WRITEBACK_ERR

primrec exception_code :: "alt_exception_cause \<Rightarrow> int" where
  "exception_code NIOS2_EXCEPTION_CAUSE_NOT_PRESENT = - 1"
| "exception_code NIOS2_EXCEPTION_RESET = 0"
| "exception_code NIOS2_EXCEPTION_CPU_ONLY_RESET_REQUEST = 1"
| "exception_code NIOS2_EXCEPTION_INTERRUPT = 2"
| "exception_code NIOS2_EXCEPTION_TRAP_INST = 3"
| "exception_code NIOS2_EXCEPTION_UNIMPLEMENTED_INST = 4"
| "exception_code NIOS2_EXCEPTION_ILLEGAL_INST = 5"
| "exception_code NIOS2_EXCEPTION_MISALIGNED_DATA_ADDR = 6"
| "exception_code NIOS2_EXCEPTION_MISALIGNED_TARGET_PC = 7"
| "exception_code NIOS2_EXCEPTION_DIVISION_ERROR = 8"
| "exception_code NIOS2_EXCEPTION_SUPERVISOR_ONLY_INST_ADDR = 9"
| "exception_code NIOS2_EXCEPTION_SUPERVISOR_ONLY_INST = 10"
| "exception_code NIOS2_EXCEPTION_SUPERVISOR_ONLY_DATA_ADDR = 11"
| "exception_code NIOS2_EXCEPTION_TLB_MISS = 12"
| "exception_code NIOS2_EXCEPTION_TLB_EXECUTE_PERM_VIOLATION = 13"
| "exception_code NIOS2_EXCEPTION_TLB_READ_PERM_VIOLATION = 14"
| "exception_code NIOS2_EXCEPTION_TLB_WRITE_PERM_VIOLATION = 15"
| "exception_code NIOS2_EXCEPTION_MPU_INST_REGION_VIOLATION = 16"
| "exception_code NIOS2_EXCEPTION_MPU_DATA_REGION_VIOLATION = 17"
| "exception_code NIOS2_EXCEPTION_ECC_TLB_ERR = 18"
| "exception_code NIOS2_EXCEPTION_ECC_FETCH_ERR = 19"
| "exception_code NIOS2_EXCEPTION_ECC_REGISTER_FILE_ERR = 20"
| "exception_code NIOS2_EXCEPTION_ECC_DATA_ERR = 21"
| "exception_code NIOS2_EXCEPTION_ECC_DATA_CACHE_WRITEBACK_ERR = 22"

definition alt_exception_cause_generated_bad_addr :: "alt_exception_cause \<Rightarrow> int" where
  "alt_exception_cause_generated_bad_addr cause =
     (case cause of
        NIOS2_EXCEPTION_SUPERVISOR_ONLY_DATA_ADDR \<Rightarrow> 1
      | NIOS2_EXCEPTION_MISALIGNED_DATA_ADDR \<Rightarrow> 1
      | NIOS2_EXCEPTION_MISALIGNED_TARGET_PC \<Rightarrow> 1
      | NIOS2_EXCEPTION_TLB_READ_PERM_VIOLATION \<Rightarrow> 1
      | NIOS2_EXCEPTION_TLB_WRITE_PERM_VIOLATION \<Rightarrow> 1
      | NIOS2_EXCEPTION_MPU_DATA_REGION_VIOLATION \<Rightarrow> 1
      | NIOS2_EXCEPTION_ECC_DATA_ERR \<Rightarrow> 1
      | NIOS2_EXCEPTION_TLB_MISS \<Rightarrow> 0
      | NIOS2_EXCEPTION_ECC_TLB_ERR \<Rightarrow> 0
      | _ \<Rightarrow> 0)"

text \<open>
  The registered handler is \<open>None\<close> for a null pointer.  This processor has no extra exception
  information; it has a debug stub, so without a handler it breaks into the debugger, which is
  outside the program: \<open>Hang\<close>.
\<close>

type_synonym 'w exception_handler = "alt_exception_cause \<Rightarrow> u32 \<Rightarrow> u32 \<Rightarrow> 'w \<Rightarrow> (int \<times> 'w) outcome"

definition NIOS2_EXCEPTION_RETURN_REISSUE_INST :: int where "NIOS2_EXCEPTION_RETURN_REISSUE_INST = 0"
definition NIOS2_EXCEPTION_RETURN_SKIP_INST :: int where "NIOS2_EXCEPTION_RETURN_SKIP_INST = 1"

definition alt_instruction_exception_entry ::
    "'w exception_handler option \<Rightarrow> u32 \<Rightarrow> 'w \<Rightarrow> (int \<times> 'w) outcome" where
  "alt_instruction_exception_entry hdl pc w =
     (let cause = NIOS2_EXCEPTION_CAUSE_NOT_PRESENT; badaddr = 0 in
      case hdl of Some h \<Rightarrow> h cause pc badaddr w | None \<Rightarrow> Hang)"

definition alt_instruction_exception_register ::
    "'w exception_handler option \<Rightarrow> 'w exception_handler option \<Rightarrow> 'w exception_handler option" where
  "alt_instruction_exception_register hdl old = hdl"

section \<open>What registration and dispatch do\<close>

lemma irq_switch:
  "snd (alt_irq_enable i s) = s\<lparr>alt_irq_active := alt_irq_active s OR push_bit i 1, ienable := alt_irq_active s OR push_bit i 1\<rparr>"
  "snd (alt_irq_disable i s) = s\<lparr>alt_irq_active := alt_irq_active s AND NOT (push_bit i 1),
     ienable := alt_irq_active s AND NOT (push_bit i 1)\<rparr>"
  by (simp_all add: alt_irq_enable_def alt_irq_disable_def alt_irq_disable_all_def alt_irq_enable_all_def)

lemma enabled_after:
  "i < 32 \<Longrightarrow> alt_ic_irq_enabled i (snd (alt_irq_enable i s)) = 1"
  "i < 32 \<Longrightarrow> alt_ic_irq_enabled i (snd (alt_irq_disable i s)) = 0"
  by (auto simp: irq_switch alt_ic_irq_enabled_def bit_eq_iff bit_simps)

lemma mask_bit: "active AND 2 ^ i \<noteq> 0 \<longleftrightarrow> bit (active :: u32) i"
  using bit_iff_and_push_bit_not_eq_0 [of active i] by simp

lemma first_active_from:
  assumes "bit (active :: u32) i" and "\<forall>j < i. \<not> bit active j" and "k \<le> i"
  shows "loop (\<lambda>(i, m). if active AND m \<noteq> 0 then Ret (Break i)
       else Ret (Again (Suc i, push_bit 1 m))) (k, push_bit k 1 :: u32) = Ret i"
  using assms(3)
proof (induction "i - k" arbitrary: k)
  case 0
  then have "k = i" by simp
  with assms(1) show ?case by (subst loop_unfold) (simp add: mask_bit)
next
  case (Suc n)
  then have "k < i" by simp
  with assms(2) have "active AND 2 ^ k = 0" using mask_bit by blast
  moreover have "push_bit 1 (push_bit k 1 :: u32) = push_bit (Suc k) 1" by (simp add: push_bit_push_bit)
  ultimately show ?case
    using Suc(1) [of "Suc k"] Suc(2) \<open>k < i\<close> by (subst loop_unfold) (simp add: mult.commute)
qed

lemma first_active_bit:
  "bit active i \<Longrightarrow> \<forall>j < i. \<not> bit active j \<Longrightarrow> first_active active = Ret i"
  using first_active_from [of active i 0] by (simp add: first_active_def)

text \<open>Without an active interrupt the search does not end.\<close>

lemma first_active_zero: "first_active 0 = Hang"
  unfolding first_active_def by (rule loop_hangs [where I = "\<lambda>_. True"]) auto

lemma lowest_bit:
  assumes "active \<noteq> (0 :: u32)"
  obtains i where "i < 32" and "bit active i" and "\<forall>j < i. \<not> bit active j" and "first_active active = Ret i"
proof -
  define i where "i = (LEAST i. bit active i)"
  obtain k where k: "bit active k" using assms by (auto simp: bit_eq_iff)
  have "bit active i" unfolding i_def by (rule LeastI [where P = "bit active", OF k])
  moreover have "\<forall>j < i. \<not> bit active j" unfolding i_def using not_less_Least by blast
  moreover have "i < 32" using calculation(1) bit_imp_le_length by fastforce
  ultimately show thesis using that first_active_bit by blast
qed

text \<open>
  What the dispatcher relies on, for the enabled lines \<open>E\<close> and the table \<open>T\<close>: a line that is enabled
  has a handler (any other entry may be null), and the handler of a pending line makes its device
  deassert the line and leaves the table and the enabled interrupts alone, while no other enabled
  line changes; \<open>served\<close> lists the lines served so far.
\<close>

definition serves ::
    "('w \<Rightarrow> u32) \<Rightarrow> 'w isrs \<Rightarrow> ('w \<Rightarrow> nat list) \<Rightarrow> u32 \<Rightarrow> irq_entry list \<Rightarrow> bool" where
  "serves lines isrs served E T =
     (length T = ALT_NIRQ \<and> (\<forall>i < ALT_NIRQ. bit E i \<longrightarrow> handler (T ! i) \<noteq> 0 \<and> (\<forall>t.
        alt_irq t = T \<and> ienable t = E \<and> bit (alt_irq_pending lines t) i \<longrightarrow>
        (\<exists>t'. isrs (handler (T ! i)) (irq_context (T ! i)) t = Ret t'
          \<and> alt_irq_pending lines t' = alt_irq_pending lines t AND NOT (push_bit i 1)
          \<and> ienable t' = E \<and> alt_irq t' = T
          \<and> served (system t') = served (system t) @ [i]))))"

lemma clear_lowest:
  assumes "bit (p :: u32) i" and "\<forall>j < i. \<not> bit p j" and "i < 32"
  shows "filter (bit p) [0..<32] = i # filter (bit (p AND NOT (push_bit i 1))) [0..<32]"
    and "unat (p AND NOT (push_bit i 1)) < unat p"
proof -
  have split: "[0..<32] = [0..<i] @ i # [Suc i..<32]"
    using assms(3) by (metis le_add1 less_imp_add_positive upt_add_eq_append upt_conv_Cons zero_le add_0)
  have "filter (bit p) [0..<i] = []" "filter (bit (p AND NOT (push_bit i 1))) [0..<i] = []"
    using assms(2) by (auto simp: filter_empty_conv bit_simps)
  moreover have "filter (bit (p AND NOT (push_bit i 1))) [Suc i..<32] = filter (bit p) [Suc i..<32]"
    by (rule filter_cong) (auto simp: bit_simps)
  moreover have "\<not> bit (p AND NOT (push_bit i 1)) i" using assms(3) by (simp add: bit_simps)
  ultimately show "filter (bit p) [0..<32] = i # filter (bit (p AND NOT (push_bit i 1))) [0..<32]"
    using assms(1) unfolding split by simp
  have "p AND NOT (push_bit i 1) \<noteq> p"
    using assms(1) \<open>\<not> bit (p AND NOT (push_bit i 1)) i\<close> by metis
  moreover have "p AND NOT (push_bit i 1) \<le> p" by (rule word_and_le2)
  ultimately show "unat (p AND NOT (push_bit i 1)) < unat p"
    by (simp add: word_less_nat_alt [symmetric])
qed

lemma dispatch_serves:
  assumes "serves lines isrs served E T" and "alt_irq s = T" and "ienable s = E"
    and "alt_irq_pending lines s \<noteq> 0"
  shows "\<exists>s'. loop (dispatch_turn lines isrs) (alt_irq_pending lines s, s) = Ret s'
    \<and> alt_irq_pending lines s' = 0 \<and> alt_irq s' = T \<and> ienable s' = E
    \<and> served (system s') = served (system s) @ filter (bit (alt_irq_pending lines s)) [0..<32]"
  using assms(2-4)
proof (induction "unat (alt_irq_pending lines s)" arbitrary: s rule: less_induct)
  case less
  let ?p = "alt_irq_pending lines s"
  obtain i where i: "i < 32" "bit ?p i" "\<forall>j < i. \<not> bit ?p j" "first_active ?p = Ret i"
    using lowest_bit [OF less.prems(3)] .
  have E: "bit E i" using i(2) less.prems(2) by (simp add: alt_irq_pending_def bit_simps)
  then have T: "length T = 32" "handler (T ! i) \<noteq> 0"
    using assms(1) i(1) by (simp_all add: serves_def ALT_NIRQ_def NIOS2_NIRQ_def)
  obtain t where t: "call_handler isrs i s = Ret t"
      and p: "alt_irq_pending lines t = ?p AND NOT (push_bit i 1)"
      and same: "ienable t = E" "alt_irq t = T" and served: "served (system t) = served (system s) @ [i]"
  proof -
    obtain t where "isrs (handler (T ! i)) (irq_context (T ! i)) s = Ret t \<and>
        alt_irq_pending lines t = ?p AND NOT (push_bit i 1) \<and>
        ienable t = E \<and> alt_irq t = T \<and> served (system t) = served (system s) @ [i]"
      using assms(1) i(1,2) E less.prems(1,2) unfolding serves_def ALT_NIRQ_def NIOS2_NIRQ_def by blast
    then show thesis using that T i(1) less.prems(1) by (simp add: call_handler_def)
  qed
  note clear = clear_lowest [OF i(2,3,1), folded p]
  show ?case
  proof (cases "alt_irq_pending lines t = 0")
    case True
    then show ?thesis
      using i t same served clear(1) by (subst loop_unfold) (simp add: dispatch_turn_def)
  next
    case False
    have "loop (dispatch_turn lines isrs) (?p, s) = loop (dispatch_turn lines isrs) (alt_irq_pending lines t, t)"
      using i t False by (subst loop_Again) (simp_all add: dispatch_turn_def)
    then show ?thesis
      using less.hyps [OF clear(2) same(2,1) False] served clear(1) by simp
  qed
qed

section \<open>Properties\<close>

text \<open>Property C24. When an enabled interrupt is pending, every enabled line has a handler that makes
  its device deassert the line, and no other enabled line changes meanwhile, the dispatcher returns
  with nothing pending, having served every pending line once, in the order of the lines: the lowest
  number has the highest priority.  The table and the enabled interrupts are as before.  Lines that
  are not enabled need no handler and are not served.\<close>

theorem interrupts_in_order:
  assumes "serves lines isrs served (ienable s) (alt_irq s)" and "alt_irq_pending lines s \<noteq> 0"
  shows "\<exists>s'. alt_irq_handler lines isrs s = Ret s' \<and> alt_irq_pending lines s' = 0
    \<and> alt_irq s' = alt_irq s \<and> ienable s' = ienable s
    \<and> served (system s') = served (system s) @ filter (bit (alt_irq_pending lines s)) [0..<32]"
  unfolding alt_irq_handler_def using dispatch_serves [OF assms(1) refl refl assms(2)] by blast

text \<open>A system that records what it serves, for the example; only lines 2, 4 and 7 are registered and
  enabled, and line 3 is asserted all the same.\<close>

definition log_isrs :: "(u32 \<times> nat list) isrs" where
  "log_isrs h ctx s = Ret (s\<lparr>system := (fst (system s) AND NOT (push_bit (unat ctx) 1),
     snd (system s) @ [unat ctx])\<rparr>)"

definition log_cpu :: "u32 \<Rightarrow> (u32 \<times> nat list) cpu" where
  "log_cpu p = (initial_cpu 1 0x94 (p, []))
     \<lparr>alt_irq := map (\<lambda>i. \<lparr>handler = if i \<in> {2, 4, 7} then 4 else 0, irq_context = of_nat i\<rparr>) [0..<32]\<rparr>"

theorem interrupts_in_order_witness:
  "\<exists>s'. alt_irq_handler fst log_isrs (log_cpu 0x1C) = Ret s' \<and> snd (system s') = [2, 4]"
proof -
  have lines: "filter (bit (0x94 :: u32)) [0..<32] = [2, 4, 7]"
    by (simp add: upt_rec bit_numeral_word_iff)
  have enabled: "i \<in> {2, 4, 7}" if "bit (0x94 :: u32) i" "i < 32" for i
  proof -
    have "i \<in> set (filter (bit (0x94 :: u32)) [0..<32])" using that by simp
    then show ?thesis unfolding lines by simp
  qed
  have "serves fst log_isrs snd (ienable (log_cpu 0x1C)) (alt_irq (log_cpu 0x1C))"
    unfolding serves_def
  proof (intro conjI allI impI)
    show "length (alt_irq (log_cpu 0x1C)) = ALT_NIRQ"
      by (simp add: log_cpu_def ALT_NIRQ_def NIOS2_NIRQ_def)
    fix i assume i: "i < ALT_NIRQ" and bit: "bit (ienable (log_cpu 0x1C)) i"
    then have lt: "i < 32" by (simp add: ALT_NIRQ_def NIOS2_NIRQ_def)
    have T: "alt_irq (log_cpu 0x1C) ! i = \<lparr>handler = 4, irq_context = of_nat i\<rparr>"
      using enabled [OF _ lt] bit lt by (simp add: log_cpu_def initial_cpu_def)
    then show "handler (alt_irq (log_cpu 0x1C) ! i) \<noteq> 0" by simp
    fix t :: "(u32 \<times> nat list) cpu"
    assume t: "alt_irq t = alt_irq (log_cpu 0x1C) \<and> ienable t = ienable (log_cpu 0x1C)
      \<and> bit (alt_irq_pending fst t) i"
    let ?t = "t\<lparr>system := (fst (system t) AND NOT (push_bit i 1), snd (system t) @ [i])\<rparr>"
    have "unat (of_nat i :: u32) = i" using lt by (simp add: unat_of_nat)
    then have "log_isrs 4 (of_nat i) t = Ret ?t" by (simp add: log_isrs_def)
    moreover have "alt_irq_pending fst ?t = alt_irq_pending fst t AND NOT (push_bit i 1)"
      by (simp add: alt_irq_pending_def ac_simps)
    ultimately show "\<exists>t'. log_isrs (handler (alt_irq (log_cpu 0x1C) ! i)) (irq_context (alt_irq (log_cpu 0x1C) ! i)) t = Ret t'
        \<and> alt_irq_pending fst t' = alt_irq_pending fst t AND NOT (push_bit i 1)
        \<and> ienable t' = ienable (log_cpu 0x1C) \<and> alt_irq t' = alt_irq (log_cpu 0x1C)
        \<and> snd (system t') = snd (system t) @ [i]"
      using t T by simp
  qed
  moreover have "alt_irq_pending fst (log_cpu 0x1C) = 0x14" "snd (system (log_cpu 0x1C)) = []"
    by (simp_all add: alt_irq_pending_def log_cpu_def initial_cpu_def)
  moreover have "filter (bit (0x14 :: u32)) [0..<32] = [2, 4]"
    by (simp add: upt_rec bit_numeral_word_iff)
  ultimately show ?thesis
    using interrupts_in_order [of fst log_isrs snd "log_cpu 0x1C"] by auto
qed

text \<open>
  The enhanced registration compares the interrupt number signed: a number with its top bit set
  passes the check and indexes before the table, where the older function refuses it.
\<close>

lemma registration_signed:
  "sint irq < 0 \<Longrightarrow> alt_ic_isr_register irq isr ctx s = Undef \<and> alt_irq_register irq ctx isr s = Ret (- 22, s)"
proof -
  assume neg: "sint irq < 0"
  have "\<not> unat irq < 32"
  proof
    assume "unat irq < 32"
    then have "sint irq = int (unat irq)" by (intro sint_small) simp
    with neg show False by linarith
  qed
  with neg show ?thesis
    by (simp add: alt_ic_isr_register_def alt_iic_isr_register_def alt_irq_register_def Let_def
        alt_irq_disable_all_def set_handler_def ALT_NIRQ_def NIOS2_NIRQ_def)
qed

lemma registration:
  assumes "i < 32" and "length (alt_irq s) = 32" and "isr \<noteq> 0"
  shows "\<exists>s'. alt_ic_isr_register (of_nat i) isr ctx s = Ret (0, s')
    \<and> alt_irq s' = (alt_irq s)[i := \<lparr>handler = isr, irq_context = ctx\<rparr>]
    \<and> alt_ic_irq_enabled i s' = 1 \<and> status s' = status s"
proof -
  have sint: "sint (of_nat i :: u32) = int i"
    using assms(1) by (simp add: signed_of_nat signed_take_bit_int_eq_self)
  then show ?thesis
    using assms enabled_after(1) [OF assms(1)]
    by (simp add: alt_ic_isr_register_def alt_iic_isr_register_def Let_def alt_irq_disable_all_def
        set_handler_def ALT_NIRQ_def NIOS2_NIRQ_def alt_ic_irq_enable_def alt_irq_enable_def
        alt_irq_enable_all_def alt_ic_irq_enabled_def)
qed

end
