(* ===== verification/Alarms.thy ===== *)
theory Alarms
  imports Devices Irq
begin

text \<open>
  The system clock of the HAL (\<open>alt_tick.c\<close>, \<open>alt_alarm_start.c\<close>, \<open>sys/alt_alarm.h\<close>,
  \<open>priv/alt_alarm.h\<close>): a tick counter and a list of alarms, each with a callback that runs in the
  interrupt of the timer when its time has come.

  The state is the processor of \<open>Irq\<close> whose \<open>system\<close> is a \<open>'w clock\<close>: the tick rate and counter, the links of
  the alarm list, the alarms themselves, and the rest of the system as \<open>'w\<close>.  A callback is an address, 0 the null
  pointer; the parameter \<open>calls\<close> gives the code at an address.  The HAL's \<open>ALT_OS_TIME_TICK\<close> is empty.
\<close>

section \<open>State\<close>

datatype alarm_ref = alt_alarm_list | Alarm nat

record alarm =
  alarm_time :: u32
  callback :: u32
  rollover :: u8
  alarm_context :: u32

record 'w clock =
  tick_rate :: u32
  nticks :: u32
  alarm_links :: "alarm_ref llist"
  alarms :: "alarm_ref \<Rightarrow> alarm"
  world :: 'w

type_synonym 'w ticking = "'w clock cpu"
type_synonym 'w calls = "u32 \<Rightarrow> u32 \<Rightarrow> 'w ticking \<Rightarrow> (u32 \<times> 'w ticking) outcome"

definition initial_clock :: "(alarm_ref \<Rightarrow> alarm) \<Rightarrow> 'w \<Rightarrow> 'w clock" where
  "initial_clock al w = \<lparr>tick_rate = 0, nticks = 0,
     alarm_links = ALT_LLIST_HEAD alt_alarm_list
       \<lparr>next_ptr = \<lambda>_. alt_alarm_list, previous_ptr = \<lambda>_. alt_alarm_list\<rparr>,
     alarms = al, world = w\<rparr>"

abbreviation the_alarm :: "alarm_ref \<Rightarrow> 'w ticking \<Rightarrow> alarm" where
  "the_alarm a s \<equiv> alarms (system s) a"

definition set_links :: "(alarm_ref llist \<Rightarrow> alarm_ref llist) \<Rightarrow> 'w ticking \<Rightarrow> 'w ticking" where
  "set_links f s = s\<lparr>system := (system s)\<lparr>alarm_links := f (alarm_links (system s))\<rparr>\<rparr>"

definition set_alarm :: "alarm_ref \<Rightarrow> (alarm \<Rightarrow> alarm) \<Rightarrow> 'w ticking \<Rightarrow> 'w ticking" where
  "set_alarm a f s = s\<lparr>system := (system s)\<lparr>alarms := (alarms (system s))(a := f (the_alarm a s))\<rparr>\<rparr>"

section \<open>Operations\<close>

definition alt_ticks_per_second :: "'w ticking \<Rightarrow> u32" where
  "alt_ticks_per_second s = tick_rate (system s)"

definition alt_sysclk_init :: "u32 \<Rightarrow> 'w ticking \<Rightarrow> int \<times> 'w ticking" where
  "alt_sysclk_init n s =
     (if tick_rate (system s) = 0 then (0, s\<lparr>system := (system s)\<lparr>tick_rate := n\<rparr>\<rparr>) else (- 1, s))"

definition alt_nticks :: "'w ticking \<Rightarrow> u32" where
  "alt_nticks s = nticks (system s)"

definition alt_alarm_start ::
    "alarm_ref option \<Rightarrow> u32 \<Rightarrow> u32 \<Rightarrow> u32 \<Rightarrow> 'w ticking \<Rightarrow> int \<times> 'w ticking" where
  "alt_alarm_start alarm n call ctx s =
     (if alt_ticks_per_second s \<noteq> 0 then
        (case alarm of
           Some a \<Rightarrow>
             let s = set_alarm a (\<lambda>al. al\<lparr>callback := call\<rparr>) s;
                 s = set_alarm a (\<lambda>al. al\<lparr>alarm_context := ctx\<rparr>) s;
                 (irq_ctx, s) = alt_irq_disable_all s;
                 current_nticks = alt_nticks s;
                 s = set_alarm a (\<lambda>al. al\<lparr>alarm_time := n + current_nticks + 1\<rparr>) s;
                 s = (if alarm_time (the_alarm a s) < current_nticks
                      then set_alarm a (\<lambda>al. al\<lparr>rollover := 1\<rparr>) s
                      else set_alarm a (\<lambda>al. al\<lparr>rollover := 0\<rparr>) s);
                 s = set_links (alt_llist_insert alt_alarm_list a) s
             in (0, alt_irq_enable_all irq_ctx s)
         | None \<Rightarrow> (- EINVAL, s))
      else (- ENOTSUP, s))"

definition alt_alarm_stop :: "alarm_ref \<Rightarrow> 'w ticking \<Rightarrow> 'w ticking" where
  "alt_alarm_stop a s =
     (let (irq_ctx, s) = alt_irq_disable_all s;
          s = set_links (alt_llist_remove a) s
      in alt_irq_enable_all irq_ctx s)"

definition call_back :: "'w calls \<Rightarrow> alarm_ref \<Rightarrow> 'w ticking \<Rightarrow> (u32 \<times> 'w ticking) outcome" where
  "call_back calls a s =
     (if callback (the_alarm a s) = 0 then Undef
      else calls (callback (the_alarm a s)) (alarm_context (the_alarm a s)) s)"

text \<open>One turn of the loop of \<open>alt_tick\<close>: the pointer to the next alarm is read before the callback runs.\<close>

definition tick_turn ::
    "'w calls \<Rightarrow> alarm_ref \<times> 'w ticking \<Rightarrow> (alarm_ref \<times> 'w ticking, 'w ticking) turn outcome" where
  "tick_turn calls x =
     (let (a, s) = x in
      if a = alt_alarm_list then Ret (Break s)
      else
        let nxt = next_ptr (alarm_links (system s)) a;
            s = (if rollover (the_alarm a s) \<noteq> 0 \<and> nticks (system s) = 0
                 then set_alarm a (\<lambda>al. al\<lparr>rollover := 0\<rparr>) s else s)
        in
        if alarm_time (the_alarm a s) \<le> nticks (system s) \<and> rollover (the_alarm a s) = 0 then
          seq (call_back calls a s) (\<lambda>(next_callback, s).
          if next_callback = 0 then Ret (Again (nxt, alt_alarm_stop a s))
          else
            let s = set_alarm a (\<lambda>al. al\<lparr>alarm_time := alarm_time al + next_callback\<rparr>) s;
                s = (if alarm_time (the_alarm a s) < nticks (system s)
                     then set_alarm a (\<lambda>al. al\<lparr>rollover := 1\<rparr>) s else s)
            in Ret (Again (nxt, s)))
        else Ret (Again (nxt, s)))"

definition alt_tick :: "'w calls \<Rightarrow> 'w ticking \<Rightarrow> 'w ticking outcome" where
  "alt_tick calls s =
     (let a = next_ptr (alarm_links (system s)) alt_alarm_list;
          s = s\<lparr>system := (system s)\<lparr>nticks := nticks (system s) + 1\<rparr>\<rparr>
      in loop (tick_turn calls) (a, s))"

section \<open>Alarms count down\<close>

text \<open>
  The promise of the clock: a list of alarms, each with the ticks that remain; a tick takes one from every alarm
  and runs those that reach zero, in the order of the list.  \<open>g\<close> is what the callback of an alarm does to the rest of the
  system, and the interval it returns.
\<close>

fun countdown ::
    "(alarm_ref \<Rightarrow> 'w \<Rightarrow> u32 \<times> 'w) \<Rightarrow> (alarm_ref \<times> nat) list \<Rightarrow> 'w \<Rightarrow> (alarm_ref \<times> nat) list \<times> 'w" where
  "countdown g [] w = ([], w)"
| "countdown g ((a, k) # ks) w =
     (if k \<le> 1 then
        let (n, w) = g a w; (ks, w) = countdown g ks w
        in (if n = 0 then ks else (a, unat n) # ks, w)
      else let (ks, w) = countdown g ks w in ((a, k - 1) # ks, w))"

definition due :: "u32 \<Rightarrow> alarm \<Rightarrow> nat \<Rightarrow> bool" where
  "due now al k = (1 \<le> k \<and> k < 2 ^ 32 \<and> alarm_time al = now + of_nat k
     \<and> (rollover al \<noteq> 0 \<longleftrightarrow> 2 ^ 32 \<le> unat now + k) \<and> callback al \<noteq> 0)"

definition waiting :: "'w ticking \<Rightarrow> (alarm_ref \<times> nat) list \<Rightarrow> bool" where
  "waiting s ks = (is_list (alarm_links (system s)) alt_alarm_list (map fst ks)
     \<and> (\<forall>(a, k) \<in> set ks. due (nticks (system s)) (the_alarm a s) k))"

text \<open>A callback that leaves the clock and the interrupts alone.\<close>

definition plain :: "'w calls \<Rightarrow> (u32 \<Rightarrow> u32 \<Rightarrow> 'w \<Rightarrow> u32 \<times> 'w) \<Rightarrow> bool" where
  "plain calls g = (\<forall>f c s. calls f c s =
     (let (n, w) = g f c (world (system s)) in Ret (n, s\<lparr>system := (system s)\<lparr>world := w\<rparr>\<rparr>)))"

definition of_alarm :: "(u32 \<Rightarrow> u32 \<Rightarrow> 'w \<Rightarrow> u32 \<times> 'w) \<Rightarrow> 'w ticking \<Rightarrow> alarm_ref \<Rightarrow> 'w \<Rightarrow> u32 \<times> 'w" where
  "of_alarm g s a = g (callback (the_alarm a s)) (alarm_context (the_alarm a s))"

text \<open>What a turn of the loop leaves alone.\<close>

definition same_clock :: "'w ticking \<Rightarrow> 'w ticking \<Rightarrow> bool" where
  "same_clock s t = (t = s\<lparr>system := system t\<rparr> \<and> nticks (system t) = nticks (system s)
     \<and> tick_rate (system t) = tick_rate (system s)
     \<and> (\<forall>a. callback (the_alarm a t) = callback (the_alarm a s))
     \<and> (\<forall>a. alarm_context (the_alarm a t) = alarm_context (the_alarm a s)))"

lemma same_clock_refl [simp]: "same_clock s s"
  by (simp add: same_clock_def)

lemma same_clock_trans: "same_clock s t \<Longrightarrow> same_clock t u \<Longrightarrow> same_clock s u"
  unfolding same_clock_def by (metis cpu.update_convs(6) cpu.fold_congs(6) cpu.surjective)

lemma same_clock_of_alarm: "same_clock s t \<Longrightarrow> of_alarm g t = of_alarm g s"
  by (auto simp: same_clock_def of_alarm_def)

lemma alarm_stop_system:
  "alt_alarm_stop a s = s\<lparr>system := (system s)\<lparr>alarm_links := alt_llist_remove a (alarm_links (system s))\<rparr>\<rparr>"
  by (simp add: alt_alarm_stop_def alt_irq_disable_all_def alt_irq_enable_all_def set_links_def)

lemma unat_u32_less: "unat (w :: u32) < 2 ^ 32"
  using unsigned_less [of w, where 'a = nat] by simp

lemma unat_add_of_nat:
  "unat (w :: u32) + j < 2 ^ 32 \<Longrightarrow> unat (w + of_nat j) = unat w + j"
  by (simp add: unat_word_ariths(1) unat_of_nat)

lemma wraps_iff: "w + n < w \<longleftrightarrow> 2 ^ 32 \<le> unat w + unat (n :: u32)"
  using no_olen_add_nat [of w n] by (simp add: linorder_not_le [symmetric] word_le_def [symmetric])

lemma le_plus_one: "w \<noteq> - 1 \<Longrightarrow> w \<le> w + (1 :: u32)"
  using wraps_iff [of w 1] word_order.not_eq_extremum [of w] unat_u32_less [of "- 1"]
  by (simp add: linorder_not_less [symmetric] word_less_nat_alt)

lemma due_tick:
  assumes "due (now - 1) al k" and "al' = (if rollover al \<noteq> 0 \<and> now = 0 then al\<lparr>rollover := 0\<rparr> else al)"
  shows "alarm_time al' \<le> now \<and> rollover al' = 0 \<longleftrightarrow> k \<le> 1"
    and "1 < k \<Longrightarrow> due now al' (k - 1)" and "k \<le> 1 \<Longrightarrow> alarm_time al' = now"
proof -
  have k: "1 \<le> k" "k < 2 ^ 32" and time: "alarm_time al' = now + of_nat k - 1" and call: "callback al' \<noteq> 0"
    and roll: "rollover al \<noteq> 0 \<longleftrightarrow> 2 ^ 32 \<le> unat (now - 1) + k"
    using assms by (auto simp: due_def algebra_simps)
  have roll': "rollover al' \<noteq> 0 \<longleftrightarrow> 2 ^ 32 \<le> unat now + (k - 1)"
  proof (cases "now = 0")
    case True
    then show ?thesis using assms(2) k by auto
  next
    case False
    then have "unat (now - 1) = unat now - 1" "1 \<le> unat now"
      by (simp_all add: unat_minus_one Suc_leI unat_gt_0)
    then show ?thesis using roll assms(2) False k by auto
  qed
  have time': "alarm_time al' = now + of_nat (k - 1)"
    using time k by (simp add: of_nat_diff algebra_simps)
  show "alarm_time al' \<le> now \<and> rollover al' = 0 \<longleftrightarrow> k \<le> 1"
  proof (cases "unat now + (k - 1) < 2 ^ 32")
    case True
    then have "unat (now + of_nat (k - 1)) = unat now + (k - 1)"
      using k unat_add_of_nat [of now "k - 1"] by simp
    then show ?thesis using True roll' k by (auto simp: time' word_le_nat_alt)
  next
    case False
    then show ?thesis using roll' unat_u32_less [of now] by auto
  qed
  show "due now al' (k - 1)" if "1 < k"
    unfolding due_def using that k time' roll' call by (intro conjI) (simp_all del: One_nat_def)
  show "k \<le> 1 \<Longrightarrow> alarm_time al' = now" using time' k by simp
qed

lemma due_again:
  assumes "n \<noteq> 0" and "callback al \<noteq> 0" and "rollover al = 0" and "alarm_time al = now"
    and "al' = al\<lparr>alarm_time := alarm_time al + n\<rparr>"
    and "al'' = (if alarm_time al' < now then al'\<lparr>rollover := 1\<rparr> else al')"
  shows "due now al'' (unat n)"
proof -
  have "alarm_time al' < now \<longleftrightarrow> 2 ^ 32 \<le> unat now + unat n"
    using assms(4,5) by (simp add: wraps_iff)
  moreover have "1 \<le> unat n" using assms(1) by (simp add: Suc_leI unat_gt_0)
  ultimately show ?thesis using assms unat_u32_less [of n] by (auto simp: due_def)
qed

lemmas clock_updates = set_alarm_def set_links_def same_clock_def

text \<open>One turn of the loop does to its alarm what the countdown does.\<close>

lemma turn_waits:
  assumes "a \<noteq> alt_alarm_list" and "due (nticks (system s) - 1) (the_alarm a s) k" and "1 < k"
  shows "\<exists>t. tick_turn calls (a, s) = Ret (Again (next_ptr (alarm_links (system s)) a, t))
    \<and> same_clock s t \<and> (\<forall>b. b \<noteq> a \<longrightarrow> the_alarm b t = the_alarm b s)
    \<and> alarm_links (system t) = alarm_links (system s) \<and> world (system t) = world (system s)
    \<and> due (nticks (system s)) (the_alarm a t) (k - 1)"
proof -
  let ?t = "if rollover (the_alarm a s) \<noteq> 0 \<and> nticks (system s) = 0
    then set_alarm a (\<lambda>al. al\<lparr>rollover := 0\<rparr>) s else s"
  have t: "the_alarm a ?t = (if rollover (the_alarm a s) \<noteq> 0 \<and> nticks (system s) = 0
      then (the_alarm a s)\<lparr>rollover := 0\<rparr> else the_alarm a s)"
    by (simp add: set_alarm_def)
  note d = due_tick [OF assms(2) t]
  have same: "nticks (system ?t) = nticks (system s)" by (simp add: set_alarm_def)
  have "\<not> (alarm_time (the_alarm a ?t) \<le> nticks (system ?t) \<and> rollover (the_alarm a ?t) = 0)"
    using d(1) assms(3) same by auto
  then have "tick_turn calls (a, s) = Ret (Again (next_ptr (alarm_links (system s)) a, ?t))"
    unfolding tick_turn_def Let_def split_conv using assms(1) by (simp only: if_False simp_thms)
  moreover have "same_clock s ?t \<and> (\<forall>b. b \<noteq> a \<longrightarrow> the_alarm b ?t = the_alarm b s)
      \<and> alarm_links (system ?t) = alarm_links (system s) \<and> world (system ?t) = world (system s)"
    by (simp add: clock_updates)
  ultimately show ?thesis using d(2) assms(3) by blast
qed

lemma plain_call:
  assumes "plain calls g" and "callback (the_alarm a s) \<noteq> 0" and "of_alarm g s a (world (system s)) = (n, w)"
  shows "call_back calls a s = Ret (n, s\<lparr>system := (system s)\<lparr>world := w\<rparr>\<rparr>)"
  using assms by (simp add: call_back_def plain_def of_alarm_def)

lemma turn_fires:
  assumes "a \<noteq> alt_alarm_list" and "due (nticks (system s) - 1) (the_alarm a s) k" and "k \<le> 1"
    and "plain calls g" and "of_alarm g s a (world (system s)) = (n, w)"
  shows "\<exists>t. tick_turn calls (a, s) = Ret (Again (next_ptr (alarm_links (system s)) a, t))
    \<and> same_clock s t \<and> (\<forall>b. b \<noteq> a \<longrightarrow> the_alarm b t = the_alarm b s) \<and> world (system t) = w
    \<and> alarm_links (system t) = (if n = 0 then alt_llist_remove a else id) (alarm_links (system s))
    \<and> (n \<noteq> 0 \<longrightarrow> due (nticks (system s)) (the_alarm a t) (unat n))"
proof -
  let ?t = "if rollover (the_alarm a s) \<noteq> 0 \<and> nticks (system s) = 0
    then set_alarm a (\<lambda>al. al\<lparr>rollover := 0\<rparr>) s else s"
  have t: "the_alarm a ?t = (if rollover (the_alarm a s) \<noteq> 0 \<and> nticks (system s) = 0
      then (the_alarm a s)\<lparr>rollover := 0\<rparr> else the_alarm a s)"
    by (simp add: set_alarm_def)
  note d = due_tick [OF assms(2) t]
  have same: "same_clock s ?t" "alarm_links (system ?t) = alarm_links (system s)"
      "world (system ?t) = world (system s)" "\<forall>b. b \<noteq> a \<longrightarrow> the_alarm b ?t = the_alarm b s"
    by (simp_all add: clock_updates)
  then have now: "nticks (system ?t) = nticks (system s)" and "of_alarm g ?t = of_alarm g s"
    using same_clock_of_alarm [OF same(1)] by (simp_all only: same_clock_def)
  moreover have "callback (the_alarm a ?t) \<noteq> 0"
    using assms(2) by (simp add: set_alarm_def due_def)
  ultimately have call: "call_back calls a ?t = Ret (n, ?t\<lparr>system := (system ?t)\<lparr>world := w\<rparr>\<rparr>)"
    using assms(5) same(3) by (intro plain_call [OF assms(4)]) (simp_all only: not_False_eq_True)
  define u where "u = ?t\<lparr>system := (system ?t)\<lparr>world := w\<rparr>\<rparr>"
  have u: "same_clock s u" "alarm_links (system u) = alarm_links (system s)" "world (system u) = w"
      "\<forall>b. b \<noteq> a \<longrightarrow> the_alarm b u = the_alarm b s" "the_alarm a u = the_alarm a ?t" "nticks (system u) = nticks (system s)"
    unfolding u_def by (simp_all add: clock_updates)
  have fire: "alarm_time (the_alarm a ?t) \<le> nticks (system ?t) \<and> rollover (the_alarm a ?t) = 0"
    using d(1) assms(3) now by auto
  let ?v = "set_alarm a (\<lambda>al. al\<lparr>alarm_time := alarm_time al + n\<rparr>) u"
  let ?v = "if alarm_time (the_alarm a ?v) < nticks (system ?v) then set_alarm a (\<lambda>al. al\<lparr>rollover := 1\<rparr>) ?v else ?v"
  have turn: "tick_turn calls (a, s) = Ret (Again (next_ptr (alarm_links (system s)) a,
      if n = 0 then alt_alarm_stop a u else ?v))"
    unfolding tick_turn_def Let_def split_conv using assms(1) fire call
    by (cases "n = 0") (simp_all only: if_False if_True simp_thms same(2) seq.simps split_conv u_def [symmetric])
  show ?thesis
  proof (cases "n = 0")
    case True
    have "same_clock u (alt_alarm_stop a u)" by (simp add: alarm_stop_system same_clock_def)
    with same_clock_trans [OF u(1)] True turn u(2-4) show ?thesis
      by (intro exI [of _ "alt_alarm_stop a u"]) (simp add: alarm_stop_system)
  next
    case False
    have "due (nticks (system s)) (the_alarm a ?v) (unat n)"
    proof (rule due_again [OF False, where al = "the_alarm a u"
          and al' = "(the_alarm a u)\<lparr>alarm_time := alarm_time (the_alarm a u) + n\<rparr>"])
      show "callback (the_alarm a u) \<noteq> 0" "rollover (the_alarm a u) = 0"
        using \<open>callback (the_alarm a ?t) \<noteq> 0\<close> fire u(5) by simp_all
      show "alarm_time (the_alarm a u) = nticks (system s)" using d(3) assms(3) u(5) by simp
    qed (simp_all add: set_alarm_def u(6))
    moreover have "same_clock u ?v" "\<forall>b. b \<noteq> a \<longrightarrow> the_alarm b ?v = the_alarm b u"
        "alarm_links (system ?v) = alarm_links (system u)" "world (system ?v) = world (system u)"
      by (simp_all add: clock_updates)
    ultimately show ?thesis
      using turn False u same_clock_trans [OF u(1)] by (intro exI [of _ ?v]) simp
  qed
qed

lemma next_in_list:
  assumes "is_list h l (xs @ a # ys)"
  shows "next_ptr h a = hd (ys @ [l])"
proof -
  have "path h a ys l" using assms by (simp add: is_list_def path_append)
  from path_ends [OF this] show ?thesis by simp
qed

text \<open>The loop of \<open>alt_tick\<close>, with the alarms \<open>ds\<close> behind it and \<open>ps\<close> before it.\<close>

lemma tick_loop:
  assumes "is_list (alarm_links (system s)) alt_alarm_list (map fst (ds @ ps))"
    and "\<forall>(a, k) \<in> set ds. due (nticks (system s)) (the_alarm a s) k"
    and "\<forall>(a, k) \<in> set ps. due (nticks (system s) - 1) (the_alarm a s) k"
    and "plain calls g"
  shows "\<exists>t. loop (tick_turn calls) (hd (map fst ps @ [alt_alarm_list]), s) = Ret t \<and> same_clock s t
    \<and> waiting t (ds @ fst (countdown (of_alarm g s) ps (world (system s))))
    \<and> world (system t) = snd (countdown (of_alarm g s) ps (world (system s)))"
  using assms(1-3)
proof (induction ps arbitrary: ds s)
  case Nil
  then show ?case
    by (intro exI [of _ s], subst loop_unfold) (auto simp: tick_turn_def waiting_def)
next
  case (Cons p ps)
  obtain a k where p: "p = (a, k)" by (cases p)
  have nodup: "distinct (map fst (ds @ (a, k) # ps))" and a: "a \<noteq> alt_alarm_list"
    and d: "due (nticks (system s) - 1) (the_alarm a s) k"
    and nxt: "next_ptr (alarm_links (system s)) a = hd (map fst ps @ [alt_alarm_list])"
    using Cons.prems(1,3) next_in_list [of "alarm_links (system s)" _ "map fst ds" a] p by (auto simp: is_list_def)
  obtain n w where g: "of_alarm g s a (world (system s)) = (n, w)" by force
  have rest: "\<exists>t. loop (tick_turn calls) (hd (map fst ps @ [alt_alarm_list]), u) = Ret t \<and> same_clock s t
      \<and> waiting t (ds @ d' @ fst (countdown (of_alarm g s) ps (world (system u))))
      \<and> world (system t) = snd (countdown (of_alarm g s) ps (world (system u)))"
    if u: "same_clock s u" "\<forall>b. b \<noteq> a \<longrightarrow> the_alarm b u = the_alarm b s"
      and l: "is_list (alarm_links (system u)) alt_alarm_list (map fst (ds @ d' @ ps))"
      and d': "d' = [] \<or> (\<exists>j. d' = [(a, j)] \<and> due (nticks (system s)) (the_alarm a u) j)" for u d'
  proof -
    have now: "nticks (system u) = nticks (system s)" using u(1) by (simp add: same_clock_def)
    have other: "the_alarm b u = the_alarm b s" if "(b, j) \<in> set ds \<union> set ps" for b j
      using that nodup u(2) by (force simp: image_iff)
    have behind: "\<forall>(b, j) \<in> set (ds @ d'). due (nticks (system u)) (the_alarm b u) j"
      using Cons.prems(2) d' other now by fastforce
    have ahead: "\<forall>(b, j) \<in> set ps. due (nticks (system u) - 1) (the_alarm b u) j"
      using Cons.prems(3) other now by fastforce
    obtain t where "loop (tick_turn calls) (hd (map fst ps @ [alt_alarm_list]), u) = Ret t" "same_clock u t"
        "waiting t ((ds @ d') @ fst (countdown (of_alarm g u) ps (world (system u))))"
        "world (system t) = snd (countdown (of_alarm g u) ps (world (system u)))"
      using Cons.IH [of u "ds @ d'"] l behind ahead by auto
    then show ?thesis
      using same_clock_trans [OF u(1)] same_clock_of_alarm [OF u(1), of g] by auto
  qed
  show ?case
  proof (cases "k \<le> 1")
    case False
    then obtain u where u: "tick_turn calls (a, s) = Ret (Again (hd (map fst ps @ [alt_alarm_list]), u))"
        "same_clock s u" "\<forall>b. b \<noteq> a \<longrightarrow> the_alarm b u = the_alarm b s"
        "alarm_links (system u) = alarm_links (system s)" "world (system u) = world (system s)"
        "due (nticks (system s)) (the_alarm a u) (k - 1)"
      using turn_waits [OF a d, of calls] nxt by auto
    then show ?thesis
      using rest [OF u(2,3), of "[(a, k - 1)]"] Cons.prems(1) False p
      by (auto simp: loop_Again split_beta)
  next
    case True
    then obtain u where u: "tick_turn calls (a, s) = Ret (Again (hd (map fst ps @ [alt_alarm_list]), u))"
        "same_clock s u" "\<forall>b. b \<noteq> a \<longrightarrow> the_alarm b u = the_alarm b s" "world (system u) = w"
        "alarm_links (system u) = (if n = 0 then alt_llist_remove a else id) (alarm_links (system s))"
        "n \<noteq> 0 \<longrightarrow> due (nticks (system s)) (the_alarm a u) (unat n)"
      using turn_fires [OF a d True assms(4) g] nxt by auto
    define d' where "d' = (if n = 0 then [] else [(a, unat n)])"
    have "is_list (alarm_links (system u)) alt_alarm_list (map fst (ds @ d' @ ps))"
    proof (cases "n = 0")
      case True
      have "remove1 a (map fst (ds @ (a, k) # ps)) = map fst (ds @ ps)"
        using nodup by (auto simp: remove1_append)
      then show ?thesis
        using is_list_remove [OF Cons.prems(1), of a] u(5) True p by (simp add: d'_def)
    qed (use u(5) Cons.prems(1) p in \<open>simp add: d'_def\<close>)
    from rest [OF u(2,3) this] show ?thesis
      using u(1,4,6) True p g by (auto simp: loop_Again split_beta d'_def)
  qed
qed

lemma tick_waiting:
  assumes "waiting s ks" and "plain calls g"
  shows "\<exists>t. alt_tick calls s = Ret t \<and> waiting t (fst (countdown (of_alarm g s) ks (world (system s))))
    \<and> world (system t) = snd (countdown (of_alarm g s) ks (world (system s)))
    \<and> nticks (system t) = nticks (system s) + 1 \<and> of_alarm g t = of_alarm g s
    \<and> t = s\<lparr>system := system t\<rparr> \<and> tick_rate (system t) = tick_rate (system s)"
proof -
  let ?s = "s\<lparr>system := (system s)\<lparr>nticks := nticks (system s) + 1\<rparr>\<rparr>"
  have first: "next_ptr (alarm_links (system s)) alt_alarm_list = hd (map fst ks @ [alt_alarm_list])"
    using assms(1) path_ends by (fastforce simp: waiting_def is_list_def)
  have "of_alarm g ?s = of_alarm g s" by (auto simp: of_alarm_def)
  moreover have "\<exists>t. loop (tick_turn calls) (hd (map fst ks @ [alt_alarm_list]), ?s) = Ret t \<and> same_clock ?s t
      \<and> waiting t ([] @ fst (countdown (of_alarm g ?s) ks (world (system ?s))))
      \<and> world (system t) = snd (countdown (of_alarm g ?s) ks (world (system ?s)))"
    by (rule tick_loop [OF _ _ _ assms(2)]) (use assms(1) in \<open>auto simp: waiting_def\<close>)
  ultimately obtain t where t: "alt_tick calls s = Ret t" "same_clock ?s t"
      "waiting t (fst (countdown (of_alarm g s) ks (world (system s))))"
      "world (system t) = snd (countdown (of_alarm g s) ks (world (system s)))"
    unfolding alt_tick_def Let_def first by auto
  then show ?thesis
    using same_clock_of_alarm [OF t(2), of g] \<open>of_alarm g ?s = of_alarm g s\<close>
    by (intro exI [of _ t]) (simp_all add: same_clock_def)
qed

section \<open>Registration\<close>

lemma start_registers:
  assumes "waiting s ks" and "a \<notin> fst ` set ks" and "a \<noteq> alt_alarm_list" and "tick_rate (system s) \<noteq> 0"
    and "call \<noteq> 0" and "unat n + 1 < 2 ^ 32"
  shows "\<exists>t. alt_alarm_start (Some a) n call ctx s = (0, t) \<and> waiting t ((a, unat n + 1) # ks)
    \<and> (\<forall>g b. of_alarm g t b = (if b = a then g call ctx else of_alarm g s b)) \<and> t = s\<lparr>system := system t\<rparr>
    \<and> nticks (system t) = nticks (system s) \<and> world (system t) = world (system s)
    \<and> tick_rate (system t) = tick_rate (system s)"
proof -
  let ?now = "nticks (system s)" and ?time = "n + nticks (system s) + 1"
  let ?al = "\<lparr>alarm_time = ?time, callback = call, rollover = (if ?time < ?now then 1 else 0), alarm_context = ctx\<rparr>"
  let ?t = "s\<lparr>system := (system s)\<lparr>alarm_links := alt_llist_insert alt_alarm_list a (alarm_links (system s)),
     alarms := (alarms (system s))(a := (the_alarm a s)
       \<lparr>callback := call, alarm_context := ctx, alarm_time := ?time, rollover := (if ?time < ?now then 1 else 0)\<rparr>)\<rparr>\<rparr>"
  have start: "alt_alarm_start (Some a) n call ctx s = (0, ?t)"
    using assms(4) by (simp add: alt_alarm_start_def alt_ticks_per_second_def alt_irq_disable_all_def
      alt_irq_enable_all_def alt_nticks_def set_alarm_def set_links_def)
  have "?time = ?now + of_nat (unat n + 1)" by simp
  moreover have "?now + (n + 1) < ?now \<longleftrightarrow> 2 ^ 32 \<le> unat ?now + (unat n + 1)"
    using assms(6) by (simp only: wraps_iff) (simp add: unat_word_ariths(1))
  ultimately have "due ?now (the_alarm a ?t) (unat n + 1)"
    using assms(5,6) by (simp add: due_def algebra_simps)
  moreover have "is_list (alarm_links (system ?t)) alt_alarm_list (map fst ((a, unat n + 1) # ks))"
    using is_list_insert [of _ _ "map fst ks" a] assms(1-3) by (simp add: waiting_def)
  moreover have "\<forall>(b, k) \<in> set ks. due ?now (the_alarm b ?t) k"
    using assms(1,2) by (force simp: waiting_def)
  ultimately have "waiting ?t ((a, unat n + 1) # ks)" by (simp add: waiting_def)
  then show ?thesis unfolding start by (simp add: of_alarm_def fun_eq_iff)
qed

primrec ticks :: "'w calls \<Rightarrow> nat \<Rightarrow> 'w ticking \<Rightarrow> 'w ticking outcome" where
  "ticks calls 0 s = Ret s"
| "ticks calls (Suc j) s = seq (alt_tick calls s) (ticks calls j)"

lemma ticks_waiting:
  assumes "waiting s ((a, k) # ks)" and "plain calls g" and "j < k"
  shows "\<exists>t us. ticks calls j s = Ret t \<and> waiting t ((a, k - j) # us)
    \<and> of_alarm g t = of_alarm g s \<and> nticks (system t) = nticks (system s) + of_nat j"
  using assms(1,3)
proof (induction j arbitrary: s k ks)
  case (Suc j)
  then have "\<not> k \<le> 1" by simp
  with tick_waiting [OF Suc.prems(1) assms(2)] obtain t us where t: "alt_tick calls s = Ret t"
      "waiting t ((a, k - 1) # us)" "of_alarm g t = of_alarm g s" "nticks (system t) = nticks (system s) + 1"
    by (auto simp: split_beta)
  moreover have "j < k - 1" using Suc.prems(2) by simp
  ultimately show ?case using Suc.IH [OF t(2)] by (force simp: algebra_simps)
qed (use assms in auto)

section \<open>Early alarms and ticks that do not end\<close>

text \<open>The list \<open>[a]\<close>, with an alarm that is due and whose callback ends it.\<close>

lemma tick_single:
  assumes "is_list (alarm_links (system s)) alt_alarm_list [a]" and "plain calls g"
    and "callback (the_alarm a s) \<noteq> 0" and "rollover (the_alarm a s) = 0"
    and "alarm_time (the_alarm a s) \<le> nticks (system s) + 1"
    and "g (callback (the_alarm a s)) (alarm_context (the_alarm a s)) (world (system s)) = (0, w)"
  shows "\<exists>t. alt_tick calls s = Ret t \<and> world (system t) = w"
proof -
  let ?s = "s\<lparr>system := (system s)\<lparr>nticks := nticks (system s) + 1\<rparr>\<rparr>"
  let ?u = "?s\<lparr>system := (system ?s)\<lparr>world := w\<rparr>\<rparr>"
  have links: "next_ptr (alarm_links (system s)) alt_alarm_list = a" "a \<noteq> alt_alarm_list"
      "next_ptr (alarm_links (system s)) a = alt_alarm_list"
    using assms(1) by (auto simp: is_list_def)
  have "call_back calls a ?s = Ret (0, ?u)"
    by (rule plain_call [OF assms(2)]) (use assms(3,6) in \<open>simp_all add: of_alarm_def\<close>)
  then have "tick_turn calls (a, ?s) = Ret (Again (alt_alarm_list, alt_alarm_stop a ?u))"
    using assms(4,5) links by (simp add: tick_turn_def)
  moreover have "tick_turn calls (alt_alarm_list, t) = Ret (Break t)" for t
    by (simp add: tick_turn_def)
  ultimately show ?thesis
    by (simp add: alt_tick_def links loop_Again loop_Break alarm_stop_system)
qed

text \<open>An alarm whose link leads back to itself, and which is not due.\<close>

lemma tick_stuck:
  fixes s :: "'w ticking"
  assumes "b \<noteq> alt_alarm_list" and "next_ptr (alarm_links (system s)) b = b"
    and "nticks (system s) < alarm_time (the_alarm b s)"
  shows "loop (tick_turn calls) (b, s) = Hang"
proof (rule loop_hangs [where I = "\<lambda>(c, t). c = b \<and> next_ptr (alarm_links (system t)) b = b
    \<and> nticks (system t) < alarm_time (the_alarm b t)"])
  show "case (b, s) of (c, t) \<Rightarrow> c = b \<and> next_ptr (alarm_links (system t)) b = b
    \<and> nticks (system t) < alarm_time (the_alarm b t)"
    using assms by simp
next
  fix x :: "alarm_ref \<times> 'w ticking" assume "case x of (c, t) \<Rightarrow> c = b \<and> next_ptr (alarm_links (system t)) b = b
    \<and> nticks (system t) < alarm_time (the_alarm b t)"
  then obtain t where "x = (b, t)" "next_ptr (alarm_links (system t)) b = b"
      "nticks (system t) < alarm_time (the_alarm b t)" by auto
  then show "\<exists>y. tick_turn calls x = Ret (Again y) \<and> (case y of (c, t) \<Rightarrow> c = b
      \<and> next_ptr (alarm_links (system t)) b = b \<and> nticks (system t) < alarm_time (the_alarm b t))"
    using assms(1) by (auto simp: tick_turn_def set_alarm_def linorder_not_le [symmetric])
qed

section \<open>Properties\<close>

text \<open>A clock at a given time without alarms, and a callback that counts its calls and returns its context.\<close>

definition clock_at :: "u32 \<Rightarrow> nat ticking" where
  "clock_at now = initial_cpu 1 0 ((initial_clock (\<lambda>_. \<lparr>alarm_time = 0, callback = 0, rollover = 0, alarm_context = 0\<rparr>) 0)
     \<lparr>tick_rate := 100, nticks := now\<rparr>)"

definition count :: "u32 \<Rightarrow> u32 \<Rightarrow> nat \<Rightarrow> u32 \<times> nat" where
  "count f c w = (c, Suc w)"

definition count_calls :: "nat calls" where
  "count_calls f c s =
     (let (n, w) = count f c (world (system s)) in Ret (n, s\<lparr>system := (system s)\<lparr>world := w\<rparr>\<rparr>))"

lemma clock_at_waiting: "waiting (clock_at now) []" "tick_rate (system (clock_at now)) = 100"
    "nticks (system (clock_at now)) = now" "world (system (clock_at now)) = 0"
  using is_list_empty by (simp_all add: waiting_def clock_at_def initial_cpu_def initial_clock_def)

lemma count_plain: "plain count_calls count"
  by (simp add: plain_def count_calls_def)

text \<open>Property C27. A tick implements the countdown: it returns, every alarm has one tick less to wait, those that had one left are
  called in the order of the list, and wait for the interval they return or are removed when it is zero, across the wrap of the counter.\<close>

theorem alarms_count_down:
  assumes "waiting s ks" and "plain calls g"
  shows "\<exists>t. alt_tick calls s = Ret t \<and> waiting t (fst (countdown (of_alarm g s) ks (world (system s))))
    \<and> world (system t) = snd (countdown (of_alarm g s) ks (world (system s)))
    \<and> nticks (system t) = nticks (system s) + 1 \<and> status t = status s"
  using tick_waiting [OF assms] by (metis cpu.select_convs(1) cpu.surjective cpu.update_convs(6))

theorem alarms_count_down_witness:
  "\<exists>s t. alt_alarm_start (Some (Alarm 0)) 0 4 7 (clock_at (- 1)) = (0, s) \<and> alt_tick count_calls s = Ret t
    \<and> waiting t [(Alarm 0, 7)] \<and> world (system t) = 1"
proof -
  obtain s where s: "alt_alarm_start (Some (Alarm 0)) 0 4 7 (clock_at (- 1)) = (0, s)" "waiting s [(Alarm 0, 1)]"
      "of_alarm count s (Alarm 0) = count 4 7" "world (system s) = 0"
    using start_registers [OF clock_at_waiting(1) [of "- 1"], of "Alarm 0" 4 0 7] clock_at_waiting by auto
  then show ?thesis using alarms_count_down [OF s(2) count_plain] by (auto simp: count_def)
qed

text \<open>An alarm started with an interval below the maximum is called by the tick that follows that many ticks, not
  before: after fewer ticks it waits, first in the list, for the rest of its interval, with its callback and context.\<close>

lemma alarm_on_time:
  assumes "waiting s ks" and "a \<notin> fst ` set ks" and "a \<noteq> alt_alarm_list" and "tick_rate (system s) \<noteq> 0"
    and "call \<noteq> 0" and "unat n + 1 < 2 ^ 32" and "plain calls g" and "j \<le> unat n"
  shows "\<exists>s0 t us. alt_alarm_start (Some a) n call ctx s = (0, s0) \<and> ticks calls j s0 = Ret t
    \<and> waiting t ((a, unat n - j + 1) # us) \<and> of_alarm g t a = g call ctx
    \<and> nticks (system t) = nticks (system s) + of_nat j"
proof -
  obtain s0 where s0: "alt_alarm_start (Some a) n call ctx s = (0, s0)" "waiting s0 ((a, unat n + 1) # ks)"
      "of_alarm g s0 a = g call ctx" "nticks (system s0) = nticks (system s)"
    using start_registers [OF assms(1-6), of ctx] by auto
  then show ?thesis
    using ticks_waiting [OF s0(2) assms(7), of j] assms(8) by (auto simp: Suc_diff_le)
qed

lemma alarm_on_time_witness:
  "\<exists>s0 t us. alt_alarm_start (Some (Alarm 3)) 5 4 7 (clock_at (- 1)) = (0, s0) \<and> ticks count_calls 5 s0 = Ret t
    \<and> waiting t ((Alarm 3, 1) # us) \<and> of_alarm count t (Alarm 3) = count 4 7 \<and> nticks (system t) = 4"
  using alarm_on_time [OF clock_at_waiting(1) [of "- 1"] _ _ _ _ _ count_plain,
      where a = "Alarm 3" and call = 4 and n = 5 and j = 5 and ctx = 7] by (simp add: clock_at_waiting)

text \<open>With the maximal interval the sum in \<open>alt_alarm_start\<close> comes round to the current time without looking as if it
  had: the rollover flag stays clear, and the next tick calls the alarm, 4294967295 ticks early.\<close>

lemma longest_alarm_is_early:
  assumes "waiting s []" and "a \<noteq> alt_alarm_list" and "tick_rate (system s) \<noteq> 0" and "call \<noteq> 0"
    and "nticks (system s) \<noteq> - 1" and "plain calls g" and "g call ctx (world (system s)) = (0, w)"
  shows "\<exists>s0 t. alt_alarm_start (Some a) (- 1) call ctx s = (0, s0) \<and> alt_tick calls s0 = Ret t
    \<and> world (system t) = w"
proof -
  let ?t = "s\<lparr>system := (system s)\<lparr>alarm_links := alt_llist_insert alt_alarm_list a (alarm_links (system s)),
     alarms := (alarms (system s))(a := (the_alarm a s)
       \<lparr>callback := call, alarm_context := ctx, alarm_time := nticks (system s), rollover := 0\<rparr>)\<rparr>\<rparr>"
  have "alt_alarm_start (Some a) (- 1) call ctx s = (0, ?t)"
    using assms(3) by (simp add: alt_alarm_start_def alt_ticks_per_second_def alt_irq_disable_all_def
      alt_irq_enable_all_def alt_nticks_def set_alarm_def set_links_def)
  moreover have "is_list (alarm_links (system ?t)) alt_alarm_list [a]"
    using is_list_insert [of _ alt_alarm_list "[]" a] assms(1,2) by (simp add: waiting_def)
  moreover have "nticks (system s) \<le> nticks (system s) + 1"
    using assms(5) by (rule le_plus_one)
  ultimately show ?thesis
    using tick_single [of ?t a calls g w] assms(4,6,7) by simp
qed

lemma longest_alarm_is_early_witness:
  "\<exists>s0 t. alt_alarm_start (Some (Alarm 0)) (- 1) 4 0 (clock_at 9) = (0, s0)
    \<and> alt_tick count_calls s0 = Ret t \<and> world (system t) = 1"
  using longest_alarm_is_early [OF clock_at_waiting(1) [of 9] _ _ _ _ count_plain,
      where a = "Alarm 0" and call = 4 and ctx = 0] by (simp add: clock_at_waiting count_def)

text \<open>Property C28. A callback that stops the alarm after its own makes the tick never end: the loop has read the address of that alarm,
  whose link \<open>alt_llist_remove\<close> has pointed at itself.\<close>

theorem stopping_next_alarm_hangs:
  assumes "waiting s [(a, 1), (b, k)]" and "1 < k" and "unat (nticks (system s)) + k < 2 ^ 32"
    and "\<forall>t. calls (callback (the_alarm a s)) (alarm_context (the_alarm a s)) t = Ret (n, alt_alarm_stop b t)"
  shows "alt_tick calls s = Hang"
proof -
  let ?s = "s\<lparr>system := (system s)\<lparr>nticks := nticks (system s) + 1\<rparr>\<rparr>"
  have l: "next_ptr (alarm_links (system s)) alt_alarm_list = a" "next_ptr (alarm_links (system s)) a = b"
      "next_ptr (alarm_links (system s)) b = alt_alarm_list" "previous_ptr (alarm_links (system s)) b = a"
      "previous_ptr (alarm_links (system s)) a = alt_alarm_list"
      "a \<noteq> alt_alarm_list" "b \<noteq> alt_alarm_list" "a \<noteq> b"
    and d: "due (nticks (system s)) (the_alarm a s) 1" "due (nticks (system s)) (the_alarm b s) k"
    using assms(1) by (auto simp: waiting_def is_list_def)
  have now: "unat (nticks (system s) + 1) = unat (nticks (system s)) + 1"
    using unat_add_of_nat [of "nticks (system s)" 1] assms(2,3) by simp
  then have later: "nticks (system s) + 1 < alarm_time (the_alarm b s)"
    using d(2) assms(2) unat_add_of_nat [OF assms(3)] by (simp add: due_def word_less_nat_alt)
  have call: "call_back calls a ?s = Ret (n, alt_alarm_stop b ?s)"
    using d(1) assms(4) by (simp add: call_back_def due_def)
  have "rollover (the_alarm a s) = 0" "alarm_time (the_alarm a s) = nticks (system s) + 1"
    using d(1) assms(2,3) by (auto simp: due_def)
  then have "\<exists>t. tick_turn calls (a, ?s) = Ret (Again (b, t)) \<and> next_ptr (alarm_links (system t)) b = b
      \<and> nticks (system t) = nticks (system s) + 1 \<and> the_alarm b t = the_alarm b s"
    using l call by (cases "n = 0") (simp_all add: tick_turn_def alarm_stop_system set_alarm_def llist_ops)
  then obtain t where "tick_turn calls (a, ?s) = Ret (Again (b, t))"
      "next_ptr (alarm_links (system t)) b = b" "nticks (system t) = nticks (system s) + 1"
      "the_alarm b t = the_alarm b s"
    by blast
  with tick_stuck [of b t calls] l later show ?thesis
    by (simp add: alt_tick_def loop_Again)
qed

definition stop_calls :: "nat calls" where
  "stop_calls f c s = Ret (0, alt_alarm_stop (Alarm 1) s)"

theorem stopping_next_alarm_hangs_witness:
  "\<exists>s t. alt_alarm_start (Some (Alarm 1)) 8 4 0 (clock_at 9) = (0, s)
    \<and> alt_alarm_start (Some (Alarm 0)) 0 4 0 s = (0, t) \<and> alt_tick stop_calls t = Hang"
proof -
  obtain s where s: "alt_alarm_start (Some (Alarm 1)) 8 4 0 (clock_at 9) = (0, s)" "waiting s [(Alarm 1, 9)]"
      "nticks (system s) = 9" "tick_rate (system s) = 100"
    using start_registers [OF clock_at_waiting(1) [of 9], of "Alarm 1" 4 8 0] clock_at_waiting by auto
  obtain t where t: "alt_alarm_start (Some (Alarm 0)) 0 4 0 s = (0, t)" "waiting t [(Alarm 0, 1), (Alarm 1, 9)]"
      "nticks (system t) = 9"
    using start_registers [OF s(2), of "Alarm 0" 4 0 0] s by auto
  show ?thesis using stopping_next_alarm_hangs [OF t(2), of stop_calls 0] s t by (auto simp: stop_calls_def)
qed

end
