(* ===== verification/Wall_Clock.thy ===== *)
theory Wall_Clock
  imports Alarms
begin

text \<open>
  Time system calls of the HAL on the tick counter: \<open>settimeofday\<close> (\<open>alt_settod.c\<close>), \<open>gettimeofday\<close>
  (\<open>alt_gettod.c\<close>) and \<open>times\<close> (\<open>alt_times.c\<close>).  The rest of the system of the clock is a record \<open>wall\<close> of the globals
  \<open>alt_resettime\<close> and \<open>alt_timezone\<close> and \<open>errno\<close>.  \<open>time_t\<close>, \<open>suseconds_t\<close> and \<open>clock_t\<close> are the 32-bit \<open>long\<close> types
  of newlib on this processor: words, read with \<open>sint\<close> where the C type is signed.  The structures a call fills in are arguments and results; a
  null pointer is \<open>None\<close>.
\<close>

section \<open>State\<close>

record timeval =
  tv_sec :: u32
  tv_usec :: u32

record timezone =
  tz_minuteswest :: u32
  tz_dsttime :: u32

record tms =
  tms_utime :: u32
  tms_stime :: u32
  tms_cutime :: u32
  tms_cstime :: u32

record wall =
  alt_timezone :: timezone
  alt_resettime :: timeval
  wall_errno :: int

definition ALT_US :: u32 where "ALT_US = 1000000"

definition initial_wall :: wall where
  "initial_wall = \<lparr>alt_timezone = \<lparr>tz_minuteswest = 0, tz_dsttime = 0\<rparr>,
     alt_resettime = \<lparr>tv_sec = 0, tv_usec = 0\<rparr>, wall_errno = 0\<rparr>"

definition set_world :: "'w \<Rightarrow> 'w ticking \<Rightarrow> 'w ticking" where
  "set_world w s = s\<lparr>system := (system s)\<lparr>world := w\<rparr>\<rparr>"

section \<open>System calls\<close>

text \<open>In \<open>alt_settod.c\<close> the product of the ticks and their length has 32 bits, and neither pointer is checked.\<close>

definition ALT_SETTIMEOFDAY ::
    "timeval option \<Rightarrow> timezone option \<Rightarrow> wall ticking \<Rightarrow> (int \<times> wall ticking) outcome" where
  "ALT_SETTIMEOFDAY t tz s =
     (let nt = alt_nticks s; rate = alt_ticks_per_second s; w = world (system s) in
      if rate \<noteq> 0 then
        (case (t, tz) of
           (Some t, Some tz) \<Rightarrow>
             let w = w\<lparr>alt_resettime := (alt_resettime w)\<lparr>tv_sec := tv_sec t - nt div rate\<rparr>\<rparr>;
                 w = w\<lparr>alt_resettime := (alt_resettime w)\<lparr>tv_usec :=
                       tv_usec t - (nt * (ALT_US div rate)) mod ALT_US\<rparr>\<rparr>;
                 w = w\<lparr>alt_timezone := (alt_timezone w)\<lparr>tz_minuteswest := tz_minuteswest tz\<rparr>\<rparr>;
                 w = w\<lparr>alt_timezone := (alt_timezone w)\<lparr>tz_dsttime := tz_dsttime tz\<rparr>\<rparr>
             in Ret (0, set_world w s)
         | _ \<Rightarrow> Undef)
      else Ret (- 1, set_world (w\<lparr>wall_errno := ENOSYS\<rparr>) s))"

text \<open>The two loops of \<open>alt_gettod.c\<close>; the increment of the signed \<open>tv_sec\<close> is undefined at its maximum.\<close>

definition borrow :: "timeval \<Rightarrow> timeval outcome" where
  "borrow tv = loop (\<lambda>tv. if sint (tv_usec tv) < 0 then
       if sint (tv_sec tv) \<le> 0 then Ret (Break (tv\<lparr>tv_sec := 0, tv_usec := 0\<rparr>))
       else Ret (Again (tv\<lparr>tv_sec := tv_sec tv - 1, tv_usec := tv_usec tv + ALT_US\<rparr>))
     else Ret (Break tv)) tv"

definition carry :: "timeval \<Rightarrow> timeval outcome" where
  "carry tv = loop (\<lambda>tv. if sint ALT_US \<le> sint (tv_usec tv) then
       if sint (tv_sec tv) = 2147483647 then Undef
       else Ret (Again (tv\<lparr>tv_sec := tv_sec tv + 1, tv_usec := tv_usec tv - ALT_US\<rparr>))
     else Ret (Break tv)) tv"

definition ALT_GETTIMEOFDAY ::
    "timeval option \<Rightarrow> timezone option \<Rightarrow> wall ticking \<Rightarrow> (int \<times> timeval option \<times> timezone option) outcome" where
  "ALT_GETTIMEOFDAY ptimeval ptimezone s =
     (let nt = alt_nticks s; rate = alt_ticks_per_second s; w = world (system s) in
      if rate \<noteq> 0 then
        (case ptimeval of
           Some tv \<Rightarrow>
             let tv = tv\<lparr>tv_sec := tv_sec (alt_resettime w) + nt div rate\<rparr>;
                 tv = tv\<lparr>tv_usec := tv_usec (alt_resettime w)
                   + ucast ((ucast nt * ucast (ALT_US div rate)) mod (ucast ALT_US :: u64))\<rparr>
             in seq (borrow tv) (\<lambda>tv. seq (carry tv) (\<lambda>tv.
                Ret (0, Some tv, map_option (\<lambda>tz. tz\<lparr>tz_minuteswest := tz_minuteswest (alt_timezone w),
                  tz_dsttime := tz_dsttime (alt_timezone w)\<rparr>) ptimezone)))
         | None \<Rightarrow> Undef)
      else Ret (- ENOTSUP, ptimeval, ptimezone))"

definition ALT_TIMES :: "tms option \<Rightarrow> wall ticking \<Rightarrow> (u32 \<times> tms option \<times> wall ticking) outcome" where
  "ALT_TIMES buf s =
     (let tks = alt_nticks s in
      if alt_ticks_per_second s = 0 then
        Ret (0, buf, set_world ((world (system s))\<lparr>wall_errno := ENOSYS\<rparr>) s)
      else
        (case buf of
           Some b \<Rightarrow> Ret (tks, Some (b\<lparr>tms_utime := 0, tms_stime := tks, tms_cutime := 0, tms_cstime := 0\<rparr>), s)
         | None \<Rightarrow> Undef))"

section \<open>The loops normalise\<close>

lemma fields_filled [simp]:
  "(tv :: timeval)\<lparr>tv_sec := a, tv_usec := b\<rparr> = \<lparr>tv_sec = a, tv_usec = b\<rparr>"
  "(tz :: timezone)\<lparr>tz_minuteswest := c, tz_dsttime := d\<rparr> = \<lparr>tz_minuteswest = c, tz_dsttime = d\<rparr>"
  by (cases tv, simp, cases tz, simp)

definition normal :: "int \<Rightarrow> timeval" where
  "normal t = \<lparr>tv_sec = word_of_int (t div 1000000), tv_usec = word_of_int (t mod 1000000)\<rparr>"

lemma normal_eq:
  "0 \<le> r \<Longrightarrow> r < 1000000 \<Longrightarrow> t = q * 1000000 + r \<Longrightarrow>
    normal t = \<lparr>tv_sec = word_of_int q, tv_usec = word_of_int r\<rparr>"
  by (simp add: normal_def)

text \<open>What the loops make of \<open>S\<close> seconds and \<open>U\<close> microseconds: zero when the microseconds are negative
  with no second to borrow from, and otherwise the same time normalised; it may be negative.\<close>

definition wall_time :: "int \<Rightarrow> int \<Rightarrow> timeval" where
  "wall_time S U =
     (if U < 0 \<and> S \<le> 0 then \<lparr>tv_sec = 0, tv_usec = 0\<rparr> else normal (S * 1000000 + U))"

lemma borrow_carry:
  assumes "- 2147483648 \<le> S" and "S < 2147483647" and "- 1000000 \<le> U" and "U < 2000000"
  shows "seq (borrow \<lparr>tv_sec = word_of_int S, tv_usec = word_of_int U\<rparr>) carry = Ret (wall_time S U)"
proof -
  let ?tv = "\<lambda>S U. \<lparr>tv_sec = word_of_int S :: u32, tv_usec = word_of_int U :: u32\<rparr>"
  have us: "sint ALT_US = 1000000" "ALT_US = word_of_int 1000000"
    by (simp_all add: ALT_US_def)
  have end_carry: "carry (?tv S U) = Ret (?tv S U)" if "- 1000000 \<le> U" "U < 1000000" for S U
    using that by (simp add: carry_def loop_Break us(1) sint_word_of_int)
  have stop: "seq (borrow (?tv S U)) carry = Ret (?tv S U)" if "0 \<le> U" "U < 1000000" for S U
    using that by (simp add: borrow_def carry_def loop_Break us(1) sint_word_of_int)
  consider "U < 0" "S \<le> 0" | "U < 0" "0 < S" | "0 \<le> U" "U < 1000000" | "1000000 \<le> U"
    by linarith
  then show ?thesis
  proof cases
    case 1
    then show ?thesis
      using assms by (simp add: borrow_def carry_def loop_Break us(1) sint_word_of_int wall_time_def)
  next
    case 2
    then have "borrow (?tv S U) = borrow (?tv (S - 1) (U + 1000000))"
      using assms by (simp add: borrow_def loop_Again us(1) sint_word_of_int) (simp add: us(2))
    then show ?thesis
      using stop [of "U + 1000000" "S - 1"] 2 assms normal_eq [of "U + 1000000" _ "S - 1"]
      by (simp add: wall_time_def)
  next
    case 3
    then show ?thesis using stop [of U S] normal_eq [of U _ S] by (simp add: wall_time_def)
  next
    case 4
    then have "borrow (?tv S U) = Ret (?tv S U)" "carry (?tv S U) = carry (?tv (S + 1) (U - 1000000))"
      using assms by (simp_all add: borrow_def carry_def loop_Break loop_Again us(1) sint_word_of_int)
        (simp_all add: us(2))
    then show ?thesis
      using 4 assms end_carry [of "U - 1000000" "S + 1"] normal_eq [of "U - 1000000" _ "S + 1"]
      by (simp add: wall_time_def)
  qed
qed

lemma ticks_of_us: "unat (ALT_US div rate) = 1000000 div unat rate"
  by (simp add: ALT_US_def unat_div)

lemma unat_wide: "unat (ucast (x :: u32) :: u64) = unat x"
  using unat_u32_less [of x] by (simp add: unsigned_ucast_eq take_bit_nat_eq_self)

lemma usec_part:
  "ucast ((ucast (nt :: u32) * ucast (ALT_US div rate)) mod (ucast ALT_US :: u64)) =
     (word_of_int (int (unat nt * (1000000 div unat rate) mod 1000000)) :: u32)"
proof -
  have "unat nt * (1000000 div unat rate) < 2 ^ 64"
  proof -
    have "unat nt * (1000000 div unat rate) \<le> 2 ^ 32 * 1000000"
      using unat_u32_less [of nt] by (intro mult_mono) (simp_all add: div_le_dividend)
    then show ?thesis by simp
  qed
  then have "unat (ucast nt * ucast (ALT_US div rate) :: u64) = unat nt * (1000000 div unat rate)"
    using unat_u32_less [of nt] unat_u32_less [of "ALT_US div rate"]
    by (simp add: unat_word_ariths(2) unat_wide ticks_of_us)
  then have "unat (ucast nt * ucast (ALT_US div rate) mod ucast ALT_US :: u64)
      = unat nt * (1000000 div unat rate) mod 1000000"
    by (simp add: unat_mod ALT_US_def)
  moreover have "ucast w = (word_of_int (int (unat w)) :: u32)" for w :: u64 by simp
  ultimately show ?thesis by (simp only:)
qed

lemma word_of_sint: "word_of_int (sint (w :: u32)) = w"
  by simp

lemma word_of_unat: "w = (word_of_int (int (unat (w :: u32))) :: u32)"
  by simp

text \<open>What \<open>gettimeofday\<close> returns for a reset time of \<open>S\<close> seconds and \<open>U\<close> microseconds.\<close>

lemma gettimeofday_value:
  assumes "tick_rate (system s) \<noteq> 0"
    and "alt_resettime (world (system s)) = \<lparr>tv_sec = word_of_int S, tv_usec = word_of_int U\<rparr>"
    and "sec = S + int (unat (nticks (system s)) div unat (tick_rate (system s)))"
    and "usec = U + int (unat (nticks (system s)) * (1000000 div unat (tick_rate (system s))) mod 1000000)"
    and "- 2147483648 \<le> sec" and "sec < 2147483647" and "- 1000000 \<le> usec" and "usec < 2000000"
  shows "ALT_GETTIMEOFDAY (Some tv) ptz s = Ret (0, Some (wall_time sec usec),
    map_option (\<lambda>_. alt_timezone (world (system s))) ptz)"
proof -
  have "word_of_int S + nticks (system s) div tick_rate (system s) = (word_of_int sec :: u32)"
    by (subst word_of_unat [of "nticks (system s) div _"]) (simp only: assms(3) unat_div of_int_add)
  moreover have "word_of_int U + ucast ((ucast (nticks (system s)) * ucast (ALT_US div tick_rate (system s)))
      mod (ucast ALT_US :: u64)) = (word_of_int usec :: u32)"
    by (simp only: usec_part assms(4) of_int_add)
  moreover have "map_option (\<lambda>tz. tz\<lparr>tz_minuteswest := tz_minuteswest (alt_timezone (world (system s))),
      tz_dsttime := tz_dsttime (alt_timezone (world (system s)))\<rparr>) ptz
    = map_option (\<lambda>_. alt_timezone (world (system s))) ptz"
    by (cases ptz) simp_all
  ultimately have "ALT_GETTIMEOFDAY (Some tv) ptz s =
      seq (seq (borrow \<lparr>tv_sec = word_of_int sec, tv_usec = word_of_int usec\<rparr>) carry)
        (\<lambda>tv. Ret (0, Some tv, map_option (\<lambda>_. alt_timezone (world (system s))) ptz))"
    using assms(1,2) by (simp add: ALT_GETTIMEOFDAY_def alt_nticks_def alt_ticks_per_second_def seq_assoc)
  then show ?thesis using borrow_carry [OF assms(5-8)] by simp
qed

lemma whole_ticks:
  assumes "r * u = (1000000 :: nat)"
  shows "(n div r) * 1000000 + (n * u) mod 1000000 = n * u"
proof -
  have "0 < r" "0 < u" using assms by (auto intro: Nat.gr0I)
  then have "(n * u) div 1000000 = n div r" using assms by (metis div_mult_mult2 not_less_zero)
  then show ?thesis by (metis div_mult_mod_eq)
qed

definition set_clock :: "wall \<Rightarrow> timeval \<Rightarrow> timezone \<Rightarrow> u32 \<Rightarrow> u32 \<Rightarrow> wall" where
  "set_clock w t tz nt rate = w\<lparr>alt_resettime := \<lparr>tv_sec = tv_sec t - nt div rate,
      tv_usec = tv_usec t - (nt * (ALT_US div rate)) mod ALT_US\<rparr>, alt_timezone := tz\<rparr>"

lemma settimeofday_value:
  "tick_rate (system s) \<noteq> 0 \<Longrightarrow> ALT_SETTIMEOFDAY (Some t) (Some tz) s =
    Ret (0, set_world (set_clock (world (system s)) t tz (nticks (system s)) (tick_rate (system s))) s)"
  by (cases tz) (simp add: ALT_SETTIMEOFDAY_def set_clock_def alt_nticks_def alt_ticks_per_second_def Let_def)

lemma us_at_set:
  "(nt * (ALT_US div rate)) mod ALT_US
    = (word_of_int (int (unat nt * (1000000 div unat rate) mod 2 ^ 32 mod 1000000)) :: u32)"
proof -
  have "unat ((nt * (ALT_US div rate)) mod ALT_US) = unat nt * (1000000 div unat rate) mod 2 ^ 32 mod 1000000"
    by (simp add: unat_mod unat_word_ariths(2) ticks_of_us) (simp add: ALT_US_def)
  then show ?thesis by (metis word_of_unat)
qed

text \<open>Without a system clock, which is how this board support package is built, every call reports its error.\<close>

lemma no_system_clock:
  assumes "tick_rate (system s) = 0"
  shows "ALT_GETTIMEOFDAY p q s = Ret (- ENOTSUP, p, q)"
    and "fst (alt_alarm_start a n call ctx s) = - ENOTSUP"
    and "ALT_SETTIMEOFDAY t tz s = Ret (- 1, set_world ((world (system s))\<lparr>wall_errno := ENOSYS\<rparr>) s)"
    and "ALT_TIMES b s = Ret (0, b, set_world ((world (system s))\<lparr>wall_errno := ENOSYS\<rparr>) s)"
  using assms by (simp_all add: ALT_GETTIMEOFDAY_def ALT_SETTIMEOFDAY_def ALT_TIMES_def alt_alarm_start_def
    alt_ticks_per_second_def)

section \<open>Properties\<close>

text \<open>Property C29. The time read is the reset time plus the whole seconds of the ticks and, modulo a
  second, their number times the length of a tick in whole microseconds; when the microseconds come
  out negative and the seconds not positive it is zero, and otherwise it is normalised to
  microseconds between 0 and 999999 (negative seconds are returned as such); the loops end.  When the
  rate divides a million, this is the reset time plus the ticks times their length.\<close>

theorem time_of_day:
  assumes "r = unat (tick_rate (system s))" and "r \<noteq> 0" and "n = unat (nticks (system s))"
    and "S = sint (tv_sec (alt_resettime (world (system s))))"
    and "U = sint (tv_usec (alt_resettime (world (system s))))" and "\<bar>U\<bar> < 1000000"
    and "sec = S + int (n div r)" and "usec = U + int (n * (1000000 div r) mod 1000000)"
    and "sec < 2147483647"
  shows "ALT_GETTIMEOFDAY (Some tv) ptz s =
      Ret (0, Some (if usec < 0 \<and> sec \<le> 0 then \<lparr>tv_sec = 0, tv_usec = 0\<rparr> else normal (sec * 1000000 + usec)),
        map_option (\<lambda>_. alt_timezone (world (system s))) ptz)
    \<and> (r * (1000000 div r) = 1000000 \<longrightarrow>
         sec * 1000000 + usec = S * 1000000 + U + int (n * (1000000 div r)))"
proof
  have rate: "tick_rate (system s) \<noteq> 0" using assms(1,2) by auto
  have reset: "alt_resettime (world (system s)) = \<lparr>tv_sec = word_of_int S, tv_usec = word_of_int U\<rparr>"
    using assms(4,5) by simp
  have "- 2147483648 \<le> S" unfolding assms(4) using sint_ge [of "tv_sec (alt_resettime (world (system s)))"] by simp
  moreover have "0 \<le> int (n * (1000000 div r) mod 1000000)" "int (n * (1000000 div r) mod 1000000) < 1000000"
    by simp_all
  ultimately have "- 2147483648 \<le> sec" "- 1000000 \<le> usec" "usec < 2000000"
    unfolding assms(7,8) using assms(6) by linarith+
  then show "ALT_GETTIMEOFDAY (Some tv) ptz s =
      Ret (0, Some (if usec < 0 \<and> sec \<le> 0 then \<lparr>tv_sec = 0, tv_usec = 0\<rparr> else normal (sec * 1000000 + usec)),
        map_option (\<lambda>_. alt_timezone (world (system s))) ptz)"
    using gettimeofday_value [OF rate reset assms(7,8) [unfolded assms(1,3)]] assms(9)
    by (simp add: wall_time_def)
  show "r * (1000000 div r) = 1000000 \<longrightarrow> sec * 1000000 + usec = S * 1000000 + U + int (n * (1000000 div r))"
  proof
    assume "r * (1000000 div r) = 1000000"
    from arg_cong [where f = int, OF whole_ticks [OF this, of n]]
    show "sec * 1000000 + usec = S * 1000000 + U + int (n * (1000000 div r))"
      unfolding assms(7,8) by (simp only: of_nat_add of_nat_mult of_nat_numeral) (simp add: algebra_simps)
  qed
qed

text \<open>A clock of a given rate at a given count, set to \<open>S\<close> seconds at reset.\<close>

definition wall_rate :: "u32 \<Rightarrow> u32 \<Rightarrow> u32 \<Rightarrow> wall ticking" where
  "wall_rate rate now S = initial_cpu 1 0
     ((initial_clock (\<lambda>_. \<lparr>alarm_time = 0, callback = 0, rollover = 0, alarm_context = 0\<rparr>)
       (initial_wall\<lparr>alt_resettime := \<lparr>tv_sec = S, tv_usec = 0\<rparr>\<rparr>))\<lparr>tick_rate := rate, nticks := now\<rparr>)"

lemma wall_rate_simps [simp]:
  "tick_rate (system (wall_rate rate now S)) = rate" "nticks (system (wall_rate rate now S)) = now"
  "alt_resettime (world (system (wall_rate rate now S))) = \<lparr>tv_sec = S, tv_usec = 0\<rparr>"
  by (simp_all add: wall_rate_def initial_cpu_def initial_clock_def)

definition wall_at :: "u32 \<Rightarrow> wall ticking" where
  "wall_at now = wall_rate 1000 now 0"

lemma wall_at_simps [simp]: "tick_rate (system (wall_at now)) = 1000" "nticks (system (wall_at now)) = now"
    "alt_resettime (world (system (wall_at now))) = \<lparr>tv_sec = 0, tv_usec = 0\<rparr>"
  by (simp_all add: wall_at_def)

theorem time_of_day_witness:
  "ALT_GETTIMEOFDAY (Some \<lparr>tv_sec = 7, tv_usec = 7\<rparr>) None (wall_at 61002)
      = Ret (0, Some \<lparr>tv_sec = 61, tv_usec = 2000\<rparr>, None)
   \<and> ALT_GETTIMEOFDAY (Some \<lparr>tv_sec = 7, tv_usec = 7\<rparr>) None (wall_rate 1000 3002 (- 10))
      = Ret (0, Some \<lparr>tv_sec = - 7, tv_usec = 2000\<rparr>, None)"
  using time_of_day [of 1000 "wall_at 61002" 61002 0 0 61 2000 "\<lparr>tv_sec = 7, tv_usec = 7\<rparr>" None]
    time_of_day [of 1000 "wall_rate 1000 3002 (- 10)" 3002 "- 10" 0 "- 7" 2000
      "\<lparr>tv_sec = 7, tv_usec = 7\<rparr>" None]
  by (simp add: normal_def)

text \<open>With a rate that does not divide a million the time runs backwards: at 300 ticks per second it
  reads 1.9999 s at tick 300 and 1.003233 s at tick 301.\<close>

lemma time_runs_backwards:
  "ALT_GETTIMEOFDAY (Some tv) None (wall_rate 300 300 0) = Ret (0, Some \<lparr>tv_sec = 1, tv_usec = 999900\<rparr>, None)"
  "ALT_GETTIMEOFDAY (Some tv) None (wall_rate 300 301 0) = Ret (0, Some \<lparr>tv_sec = 1, tv_usec = 3233\<rparr>, None)"
  using gettimeofday_value [of "wall_rate 300 300 0" 0 0 1 999900 tv None]
    gettimeofday_value [of "wall_rate 300 301 0" 0 0 1 3233 tv None]
  by (simp_all add: wall_time_def normal_def)

text \<open>What \<open>settimeofday\<close> sets, an immediate \<open>gettimeofday\<close> returns, time and zone, while the microseconds of the counter
  fit 32 bits.\<close>

lemma set_then_get:
  assumes "tick_rate (system s) \<noteq> 0" and "0 \<le> sint (tv_usec t)" and "sint (tv_usec t) < 1000000"
    and "unat (nticks (system s)) * (1000000 div unat (tick_rate (system s))) < 2 ^ 32"
  shows "\<exists>s'. ALT_SETTIMEOFDAY (Some t) (Some tz) s = Ret (0, s')
    \<and> ALT_GETTIMEOFDAY (Some tv) (Some ptz) s' = Ret (0, Some t, Some tz)"
proof -
  let ?s = "set_world (set_clock (world (system s)) t tz (nticks (system s)) (tick_rate (system s))) s"
  have "borrow t = Ret t" "carry t = Ret t"
    using assms(2,3) by (simp_all add: borrow_def carry_def loop_Break ALT_US_def)
  moreover have "(nticks (system s) * (ALT_US div tick_rate (system s))) mod ALT_US =
      ucast ((ucast (nticks (system s)) * ucast (ALT_US div tick_rate (system s))) mod (ucast ALT_US :: u64))"
    using assms(4) by (simp only: us_at_set usec_part mod_less)
  ultimately have "ALT_GETTIMEOFDAY (Some tv) (Some ptz) ?s = Ret (0, Some t, Some tz)"
    using assms(1) by (cases t; cases tz) (simp add: ALT_GETTIMEOFDAY_def alt_nticks_def alt_ticks_per_second_def
      set_world_def set_clock_def)
  then show ?thesis using settimeofday_value [OF assms(1), of t tz] by blast
qed

lemma set_then_get_witness:
  "\<exists>s'. ALT_SETTIMEOFDAY (Some \<lparr>tv_sec = 5, tv_usec = 6\<rparr>) (Some \<lparr>tz_minuteswest = 60, tz_dsttime = 1\<rparr>) (wall_at 4000000)
      = Ret (0, s')
    \<and> ALT_GETTIMEOFDAY (Some \<lparr>tv_sec = 0, tv_usec = 0\<rparr>) (Some \<lparr>tz_minuteswest = 0, tz_dsttime = 0\<rparr>) s'
      = Ret (0, Some \<lparr>tv_sec = 5, tv_usec = 6\<rparr>, Some \<lparr>tz_minuteswest = 60, tz_dsttime = 1\<rparr>)"
  by (rule set_then_get) simp_all

text \<open>In general the time read back is off by the difference of the microseconds computed with 64 bits and with 32.\<close>

lemma set_then_get_error:
  assumes "p = unat (nticks (system s)) * (1000000 div unat (tick_rate (system s)))"
    and "tick_rate (system s) \<noteq> 0" and "0 \<le> sint (tv_usec t)" and "sint (tv_usec t) < 1000000"
    and "0 \<le> sint (tv_sec t)" and "sint (tv_sec t) < 2147483647"
  shows "\<exists>s'. ALT_SETTIMEOFDAY (Some t) (Some tz) s = Ret (0, s')
    \<and> ALT_GETTIMEOFDAY (Some tv) None s' = Ret (0, Some (wall_time (sint (tv_sec t))
        (sint (tv_usec t) + (int (p mod 1000000) - int (p mod 2 ^ 32 mod 1000000)))), None)"
proof -
  let ?s = "set_world (set_clock (world (system s)) t tz (nticks (system s)) (tick_rate (system s))) s"
  let ?q = "int (unat (nticks (system s)) div unat (tick_rate (system s)))"
    and ?d = "int (p mod 2 ^ 32 mod 1000000)" and ?m = "int (p mod 1000000)"
  have clock: "tick_rate (system ?s) = tick_rate (system s)" "nticks (system ?s) = nticks (system s)"
    by (simp_all add: set_world_def)
  have "nticks (system s) div tick_rate (system s) = word_of_int ?q"
    by (subst word_of_unat) (simp only: unat_div)
  then have reset: "alt_resettime (world (system ?s)) =
      \<lparr>tv_sec = word_of_int (sint (tv_sec t) - ?q), tv_usec = word_of_int (sint (tv_usec t) - ?d)\<rparr>"
    by (simp add: set_world_def set_clock_def us_at_set assms(1))
  have "0 \<le> ?m" "?m < 1000000" "0 \<le> ?d" "?d < 1000000" by simp_all
  then have "ALT_GETTIMEOFDAY (Some tv) None ?s = Ret (0, Some (wall_time (sint (tv_sec t))
      (sint (tv_usec t) - ?d + ?m)), None)"
    using gettimeofday_value [OF _ reset, of "sint (tv_sec t)" "sint (tv_usec t) - ?d + ?m" tv None] assms clock
    by simp
  then show ?thesis using settimeofday_value [OF assms(2), of t tz] by (auto simp: algebra_simps)
qed

text \<open>After 71 minutes and 34.968 seconds at 1000 ticks per second, setting the clock to 5 s puts it at 5.967296 s.\<close>

lemma set_then_get_error_witness:
  "\<exists>s'. ALT_SETTIMEOFDAY (Some \<lparr>tv_sec = 5, tv_usec = 0\<rparr>) (Some \<lparr>tz_minuteswest = 0, tz_dsttime = 0\<rparr>) (wall_at 4294968)
      = Ret (0, s')
    \<and> ALT_GETTIMEOFDAY (Some \<lparr>tv_sec = 0, tv_usec = 0\<rparr>) None s' = Ret (0, Some \<lparr>tv_sec = 5, tv_usec = 967296\<rparr>, None)"
  using set_then_get_error [of 4294968000 "wall_at 4294968" "\<lparr>tv_sec = 5, tv_usec = 0\<rparr>"
      "\<lparr>tz_minuteswest = 0, tz_dsttime = 0\<rparr>" "\<lparr>tv_sec = 0, tv_usec = 0\<rparr>"]
  by (simp add: normal_def wall_time_def)

end
