(* ===== verification/Heap.thy ===== *)
theory Heap
  imports Irq
begin

text \<open>
  The data segment of the HAL (\<open>alt_sbrk.c\<close>): \<open>heap_end\<close>, kept behind disabled interrupts in the processor
  state of \<open>Irq\<close>.  The address \<open>limit\<close> is the linker's \<open>__alt_heap_limit\<close>; an increment is the word of a C \<open>int\<close>.
  The build defines neither \<open>ALT_MAX_HEAP_BYTES\<close> nor \<open>ALT_STACK_CHECK\<close>;
  the theory Stack_Check has \<open>sbrk\<close> with these options.
\<close>

record heap =
  heap_end :: u32

definition ALT_SBRK :: "u32 \<Rightarrow> u32 \<Rightarrow> 'z heap_scheme cpu \<Rightarrow> u32 \<times> 'z heap_scheme cpu" where
  "ALT_SBRK limit incr s =
     (let (ctx, s) = alt_irq_disable_all s;
          s = s\<lparr>system := (system s)\<lparr>heap_end := (heap_end (system s) + 3) AND NOT 3\<rparr>\<rparr>
      in if limit < heap_end (system s) + incr then (- 1, alt_irq_enable_all ctx s)
         else
           let prev_heap_end = heap_end (system s);
               s = s\<lparr>system := (system s)\<lparr>heap_end := heap_end (system s) + incr\<rparr>\<rparr>
           in (prev_heap_end, alt_irq_enable_all ctx s))"

text \<open>The blocks, as address and size, that a series of requests is given.\<close>

fun blocks :: "u32 \<Rightarrow> u32 list \<Rightarrow> 'z heap_scheme cpu \<Rightarrow> (nat \<times> nat) list" where
  "blocks limit [] s = []"
| "blocks limit (n # ns) s =
     (let (p, s) = ALT_SBRK limit n s
      in (if p = - 1 then [] else [(unat p, unat n)]) @ blocks limit ns s)"

section \<open>Alignment\<close>

lemma sbrk_value:
  "ALT_SBRK limit n s =
     (let e = (heap_end (system s) + 3) AND NOT 3 in
      if limit < e + n then (- 1, s\<lparr>system := (system s)\<lparr>heap_end := e\<rparr>\<rparr>)
      else (e, s\<lparr>system := (system s)\<lparr>heap_end := e + n\<rparr>\<rparr>))"
  by (simp add: ALT_SBRK_def alt_irq_disable_all_def alt_irq_enable_all_def Let_def)

lemma align_value:
  assumes "unat e + 3 < 2 ^ 32"
  shows "unat ((e + 3 :: u32) AND NOT 3) = (unat e + 3) div 4 * 4"
proof -
  have "(e + 3) AND NOT 3 = (e + 3) AND NOT (take_bit 2 (e + 3))"
  proof -
    have "(3 :: u32) = Bit_Operations.mask 2" by (simp add: mask_eq_exp_minus_1)
    then show ?thesis by (simp only:) (auto simp: bit_eq_iff bit_simps)
  qed
  also have "\<dots> = (e + 3) - take_bit 2 (e + 3)"
    by (rule disjunctive_diff [symmetric]) (simp add: bit_simps)
  also have "unat \<dots> = unat (e + 3) - unat (e + 3) mod 4"
  proof -
    have t: "unat (take_bit 2 (e + 3)) = unat (e + 3) mod 4"
      by (simp add: take_bit_eq_mod unat_mod)
    then have "take_bit 2 (e + 3) \<le> e + 3" by (simp add: word_le_nat_alt)
    then show ?thesis using t by (simp add: unat_sub)
  qed
  also have "unat (e + 3) = unat e + 3" using assms by (simp add: unat_word_ariths(1))
  finally show ?thesis by (simp add: minus_mod_eq_div_mult)
qed

section \<open>Blocks are apart\<close>

definition room :: "u32 \<Rightarrow> nat \<Rightarrow> 'z heap_scheme cpu \<Rightarrow> bool" where
  "room limit a s = (a \<le> unat (heap_end (system s)) \<and> unat (heap_end (system s)) \<le> (unat limit + 3) div 4 * 4)"

text \<open>One request moves \<open>heap_end\<close> forward, past the block it returns.\<close>

lemma sbrk_step:
  assumes "ALT_SBRK limit n s = (p, s')" and "room limit a s" and "unat limit \<le> 2 ^ 31" and "unat n < 2 ^ 31"
  obtains b where "room limit b s'" and "a \<le> b"
    and "p \<noteq> - 1 \<longrightarrow> 4 dvd unat p \<and> a \<le> unat p \<and> unat p + unat n = b \<and> b \<le> unat limit"
proof -
  define e where "e = (heap_end (system s) + 3) AND NOT 3"
  let ?e = "unat (heap_end (system s))"
  have "(unat limit + 3) div 4 * 4 \<le> unat limit + 3" by simp
  then have "?e \<le> unat limit + 3" using assms(2) unfolding room_def by linarith
  then have small: "?e + 3 < 2 ^ 32" using assms(3) by simp
  have e: "unat e = (?e + 3) div 4 * 4"
    unfolding e_def by (rule align_value [OF small])
  have val: "(p, s') = (if limit < e + n then (- 1, s\<lparr>system := (system s)\<lparr>heap_end := e\<rparr>\<rparr>)
      else (e, s\<lparr>system := (system s)\<lparr>heap_end := e + n\<rparr>\<rparr>))"
    unfolding assms(1) [symmetric] by (simp add: sbrk_value e_def Let_def)
  have up: "?e \<le> unat e" "unat e \<le> (unat limit + 3) div 4 * 4" "4 dvd unat e"
    using assms(2) unfolding e room_def by (linarith, presburger, simp)
  have sum: "unat (e + n) = unat e + unat n"
  proof -
    have "(unat limit + 3) div 4 \<le> (2147483648 + 3) div 4"
      using assms(3) by (intro div_le_mono) simp
    then have "unat e + unat n < 2 ^ 32" using up(2) assms(4) by simp
    then show ?thesis by (simp add: unat_word_ariths(1))
  qed
  show thesis
  proof (cases "limit < e + n")
    case True
    then have "room limit (unat e) s'" "p = - 1"
      using val up(2) by (auto simp: room_def)
    then show thesis using that [of "unat e"] up(1) assms(2) by (simp add: room_def)
  next
    case False
    then have "unat e + unat n \<le> unat limit" using sum by (simp add: word_less_nat_alt linorder_not_less)
    moreover from False have "s' = s\<lparr>system := (system s)\<lparr>heap_end := e + n\<rparr>\<rparr>" "p = e"
      using val by auto
    ultimately show thesis
      using that [of "unat e + unat n"] sum up assms(2) by (simp add: room_def)
  qed
qed

lemma blocks_from:
  assumes "room limit a s" and "unat limit \<le> 2 ^ 31" and "\<forall>n \<in> set ns. unat n < 2 ^ 31"
  shows "sorted_wrt (\<lambda>(p, n) (q, m). p + n \<le> q) (blocks limit ns s)
    \<and> (\<forall>(p, n) \<in> set (blocks limit ns s). 4 dvd p \<and> a \<le> p \<and> p + n \<le> unat limit)"
  using assms(1,3)
proof (induction ns arbitrary: s a)
  case (Cons n ns)
  obtain p s' where c: "ALT_SBRK limit n s = (p, s')" by force
  obtain b where b: "room limit b s'" "a \<le> b"
      "p \<noteq> - 1 \<longrightarrow> 4 dvd unat p \<and> a \<le> unat p \<and> unat p + unat n = b \<and> b \<le> unat limit"
    using sbrk_step [OF c Cons.prems(1) assms(2)] Cons.prems(2) by auto
  from Cons.IH [OF b(1)] Cons.prems(2) b(2,3) show ?case
    by (cases "p = - 1") (fastforce simp: c)+
qed simp

section \<open>Properties\<close>

text \<open>Property C30. However often the heap is extended, by requests that are not negative, the blocks are word-aligned, lie between the
  start of the heap and its limit, and do not overlap; later ones lie above.\<close>

theorem heap_blocks_are_apart:
  assumes "a = unat (heap_end (system s))" and "a \<le> unat limit" and "unat limit \<le> 2 ^ 31"
    and "\<forall>n \<in> set ns. unat n < 2 ^ 31"
  shows "sorted_wrt (\<lambda>(p, n) (q, m). p + n \<le> q) (blocks limit ns s)
    \<and> (\<forall>(p, n) \<in> set (blocks limit ns s). 4 dvd p \<and> a \<le> p \<and> p + n \<le> unat limit)"
proof -
  have "room limit a s" using assms(1,2) unfolding room_def by presburger
  then show ?thesis using blocks_from assms(3,4) by blast
qed

theorem heap_blocks_are_apart_witness:
  "blocks 0x10000 [10, 0x10000, 8] (initial_cpu 1 0 \<lparr>heap_end = 0x8001\<rparr>) = [(0x8004, 10), (0x8010, 8)]
    \<and> sorted_wrt (\<lambda>(p, n) (q, m). p + n \<le> q) (blocks 0x10000 [10, 0x10000, 8] (initial_cpu 1 0 \<lparr>heap_end = 0x8001\<rparr>))"
proof -
  let ?s = "initial_cpu 1 0 \<lparr>heap_end = 0x8001\<rparr> :: heap cpu"
  have "sorted_wrt (\<lambda>(p, n) (q, m). p + n \<le> q) (blocks 0x10000 [10, 0x10000, 8] ?s)"
    by (rule heap_blocks_are_apart [where a = "0x8001", THEN conjunct1]) (simp_all add: initial_cpu_def)
  moreover have "blocks 0x10000 [10, 0x10000, 8] ?s = [(0x8004, 10), (0x8010, 8)]"
    by (simp add: sbrk_value initial_cpu_def)
  ultimately show ?thesis by blast
qed

text \<open>A negative request is not checked against the start of the heap.\<close>

lemma sbrk_below_start:
  "ALT_SBRK 0x10000 (- 0x9000) (initial_cpu 1 0 \<lparr>heap_end = 0x8000\<rparr>) = (- 1, initial_cpu 1 0 \<lparr>heap_end = 0x8000\<rparr>)
    \<and> ALT_SBRK 0x10000 (- 0x7000) (initial_cpu 1 0 \<lparr>heap_end = 0x8000\<rparr>) = (0x8000, initial_cpu 1 0 \<lparr>heap_end = 0x1000\<rparr>)"
  by (simp add: sbrk_value initial_cpu_def)

end
