(* ===== verification/Stack_Check.thy ===== *)
theory Stack_Check
  imports Heap
begin

text \<open>
  \<open>alt_sbrk.c\<close> in the builds that this one is not: with a maximum size of the heap (\<open>ALT_MAX_HEAP_BYTES\<close>), with stack checking
  (\<open>ALT_STACK_CHECK\<close>) and with a separate exception stack, and the functions of \<open>alt_stack.h\<close> it uses.  The limit of the stack is in
  the register \<open>et\<close>; reaching it executes \<open>break 3\<close>, which is counted here.  With none of the options it is \<open>ALT_SBRK\<close> of \<open>Heap\<close>.
\<close>

section \<open>Registers and options\<close>

record stack = heap +
  et :: u32
  sp :: u32
  alt_stack_limit_value :: u32
  alt_exception_old_stack_limit :: u32
  stack_overflows :: nat

record sbrk_options =
  max_heap_bytes :: "int option"
  stack_check :: bool
  exception_stack :: bool

type_synonym 'z stack_cpu = "'z stack_scheme cpu"

definition NIOS2_READ_ET :: "'z stack_cpu \<Rightarrow> u32" where "NIOS2_READ_ET s = et (system s)"
definition NIOS2_READ_SP :: "'z stack_cpu \<Rightarrow> u32" where "NIOS2_READ_SP s = sp (system s)"

definition NIOS2_WRITE_ET :: "u32 \<Rightarrow> 'z stack_cpu \<Rightarrow> 'z stack_cpu" where
  "NIOS2_WRITE_ET v s = s\<lparr>system := (system s)\<lparr>et := v\<rparr>\<rparr>"

definition NIOS2_REPORT_STACK_OVERFLOW :: "'z stack_cpu \<Rightarrow> 'z stack_cpu" where
  "NIOS2_REPORT_STACK_OVERFLOW s = s\<lparr>system := (system s)\<lparr>stack_overflows := Suc (stack_overflows (system s))\<rparr>\<rparr>"

definition alt_stack_limit :: "'z stack_cpu \<Rightarrow> u32" where "alt_stack_limit s = NIOS2_READ_ET s"
definition alt_stack_pointer :: "'z stack_cpu \<Rightarrow> u32" where "alt_stack_pointer s = NIOS2_READ_SP s"

definition alt_set_stack_limit :: "u32 \<Rightarrow> 'z stack_cpu \<Rightarrow> 'z stack_cpu" where
  "alt_set_stack_limit limit s =
     NIOS2_WRITE_ET limit (s\<lparr>system := (system s)\<lparr>alt_stack_limit_value := limit\<rparr>\<rparr>)"

definition alt_report_stack_overflow :: "'z stack_cpu \<Rightarrow> 'z stack_cpu" where
  "alt_report_stack_overflow s = NIOS2_REPORT_STACK_OVERFLOW s"

lemmas stack_defs = NIOS2_READ_ET_def NIOS2_READ_SP_def NIOS2_WRITE_ET_def NIOS2_REPORT_STACK_OVERFLOW_def
  alt_stack_limit_def alt_stack_pointer_def alt_set_stack_limit_def alt_report_stack_overflow_def

section \<open>The system call\<close>

text \<open>Is a request refused, once \<open>heap_end\<close> is aligned?  The difference of two pointers is signed.\<close>

definition sbrk_refused :: "sbrk_options \<Rightarrow> u32 \<Rightarrow> u32 \<Rightarrow> u32 \<Rightarrow> u32 \<Rightarrow> bool" where
  "sbrk_refused cfg start limit e incr =
     (case max_heap_bytes cfg of Some m \<Rightarrow> m < sint (e + incr - start) | None \<Rightarrow> limit < e + incr)"

definition check_stack :: "u32 \<Rightarrow> 'z stack_cpu \<Rightarrow> 'z stack_cpu" where
  "check_stack prev_heap_end s =
     (let e = heap_end (system s)
      in if alt_stack_limit s = prev_heap_end
         then alt_set_stack_limit e
                (if alt_stack_pointer s \<le> e then alt_report_stack_overflow s else s)
         else s)"

definition check_old_stack :: "u32 \<Rightarrow> 'z stack_cpu \<Rightarrow> 'z stack_cpu" where
  "check_old_stack prev_heap_end s =
     (let e = heap_end (system s);
          old = alt_exception_old_stack_limit (system s)
      in if old = prev_heap_end
         then let s = (if old \<le> e then alt_report_stack_overflow s else s)
              in s\<lparr>system := (system s)\<lparr>alt_exception_old_stack_limit := e\<rparr>\<rparr>
         else s)"

definition sbrk_with ::
    "sbrk_options \<Rightarrow> u32 \<Rightarrow> u32 \<Rightarrow> u32 \<Rightarrow> 'z stack_cpu \<Rightarrow> u32 \<times> 'z stack_cpu" where
  "sbrk_with cfg start limit incr s =
     (let (ctx, s) = alt_irq_disable_all s;
          s = s\<lparr>system := (system s)\<lparr>heap_end := (heap_end (system s) + 3) AND NOT 3\<rparr>\<rparr>
      in if sbrk_refused cfg start limit (heap_end (system s)) incr then (- 1, alt_irq_enable_all ctx s)
         else
           let prev_heap_end = heap_end (system s);
               s = s\<lparr>system := (system s)\<lparr>heap_end := heap_end (system s) + incr\<rparr>\<rparr>;
               s = (if stack_check cfg then check_stack prev_heap_end s else s);
               s = (if stack_check cfg \<and> exception_stack cfg then check_old_stack prev_heap_end s else s)
           in (prev_heap_end, alt_irq_enable_all ctx s))"

text \<open>The options of this board's build.\<close>

definition lms_ctr_options :: sbrk_options where
  "lms_ctr_options = \<lparr>max_heap_bytes = None, stack_check = False, exception_stack = False\<rparr>"

lemma checks_keep [simp]:
  "heap_end (system (check_stack p s)) = heap_end (system s)"
  "heap_end (system (check_old_stack p s)) = heap_end (system s)"
  "status (check_stack p s) = status s" "status (check_old_stack p s) = status s"
  "sp (system (check_stack p s)) = sp (system s)"
  by (simp_all add: check_stack_def check_old_stack_def stack_defs Let_def)

lemma checks_status:
  "check_stack p (s\<lparr>status := x\<rparr>) = (check_stack p s)\<lparr>status := x\<rparr>"
  "check_old_stack p (s\<lparr>status := x\<rparr>) = (check_old_stack p s)\<lparr>status := x\<rparr>"
  by (simp_all add: check_stack_def check_old_stack_def stack_defs Let_def)

text \<open>What is left once interrupts have been disabled and enabled again.\<close>

definition checked :: "sbrk_options \<Rightarrow> u32 \<Rightarrow> 'z stack_cpu \<Rightarrow> 'z stack_cpu" where
  "checked cfg e s =
     (let s = (if stack_check cfg then check_stack e s else s)
      in if stack_check cfg \<and> exception_stack cfg then check_old_stack e s else s)"

lemma checked_keep [simp]:
  "heap_end (system (checked cfg e s)) = heap_end (system s)" "status (checked cfg e s) = status s"
  by (simp_all add: checked_def Let_def)

lemma checked_status: "checked cfg e (s\<lparr>status := x\<rparr>) = (checked cfg e s)\<lparr>status := x\<rparr>"
  by (simp add: checked_def checks_status Let_def)

lemma sbrk_with_value:
  "sbrk_with cfg start limit n s =
     (let e = (heap_end (system s) + 3) AND NOT 3 in
      if sbrk_refused cfg start limit e n then (- 1, s\<lparr>system := (system s)\<lparr>heap_end := e\<rparr>\<rparr>)
      else (e, checked cfg e (s\<lparr>system := (system s)\<lparr>heap_end := e + n\<rparr>\<rparr>)))"
proof -
  have same: "u\<lparr>status := status u\<rparr> = u" for u :: "'z stack_cpu" by simp
  have "(checked cfg e (s\<lparr>status := x, system := w\<rparr>))\<lparr>status := status s\<rparr> = checked cfg e (s\<lparr>system := w\<rparr>)" for e x w
  proof -
    have "s\<lparr>status := x, system := w\<rparr> = s\<lparr>system := w\<rparr>\<lparr>status := x\<rparr>" by simp
    then have "(checked cfg e (s\<lparr>status := x, system := w\<rparr>))\<lparr>status := status s\<rparr>
        = (checked cfg e (s\<lparr>system := w\<rparr>))\<lparr>status := status (checked cfg e (s\<lparr>system := w\<rparr>))\<rparr>"
      by (simp only: checked_status) simp
    then show ?thesis by (simp only: same)
  qed
  from this [of _ _ "status s AND NOT NIOS2_STATUS_PIE_MSK"] show ?thesis
    by (simp add: sbrk_with_def checked_def alt_irq_disable_all_def alt_irq_enable_all_def Let_def)
qed

lemma sbrk_with_none: "sbrk_with lms_ctr_options start limit = ALT_SBRK limit"
  by (intro ext) (simp add: sbrk_with_value sbrk_value lms_ctr_options_def sbrk_refused_def checked_def Let_def)

text \<open>The checks change only the registers of the stack: the same block is granted, and the heap is the same.\<close>

lemma sbrk_checks_apart:
  assumes "sbrk_with cfg start limit n s = (p, s')"
    and "sbrk_with (cfg\<lparr>stack_check := False\<rparr>) start limit n s = (q, t)"
  shows "p = q" and "heap_end (system s') = heap_end (system t)" and "status s' = status s"
  using assms by (auto simp: sbrk_with_value Let_def sbrk_refused_def split: if_splits)

lemma and_3: "(w :: u32) AND 3 = take_bit 2 w"
proof -
  have "(3 :: u32) = Bit_Operations.mask 2" by (simp add: mask_eq_exp_minus_1)
  then show ?thesis by (simp add: take_bit_eq_mask)
qed

section \<open>Following the heap\<close>

definition word_aligned :: "u32 \<Rightarrow> bool" where "word_aligned e = (e AND 3 = 0)"

lemma word_aligned_up:
  assumes "word_aligned e"
  shows "(e + 3) AND NOT 3 = e"
proof -
  have m: "(3 :: u32) = Bit_Operations.mask 2" by (simp add: mask_eq_exp_minus_1)
  have low: "\<not> bit e n" if "n < 2" for n
  proof -
    have "bit e n = bit (take_bit 2 e) n" using that by (simp add: bit_take_bit_iff)
    then show ?thesis using assms by (simp add: word_aligned_def and_3)
  qed
  have "e + 3 = e OR 3" using assms by (simp add: word_aligned_def disjunctive_add_eq_or)
  moreover have "(e OR 3) AND NOT 3 = e"
    unfolding m
  proof (rule bit_word_eqI)
    fix n
    assume "n < LENGTH(32)"
    then show "bit ((e OR Bit_Operations.mask 2) AND NOT (Bit_Operations.mask 2)) n = bit e n"
      using low [of n] by (auto simp: bit_or_iff bit_and_iff bit_not_iff bit_mask_iff)
  qed
  ultimately show ?thesis by simp
qed

lemma word_aligned_unat: "word_aligned e = (unat e mod 4 = 0)"
proof -
  have "unat (take_bit 2 e) = unat e mod 4" by (simp add: take_bit_eq_mod unat_mod)
  then show ?thesis by (simp add: word_aligned_def and_3 flip: unat_eq_0)
qed

lemma word_aligned_add: "word_aligned e \<Longrightarrow> word_aligned (e + n) = word_aligned n"
proof -
  assume "word_aligned e"
  moreover have "unat (e + n) mod 4 = (unat e + unat n) mod 4"
    by (simp add: unat_word_ariths(1) mod_mod_cancel)
  ultimately show ?thesis by (auto simp: word_aligned_unat mod_add_eq [symmetric, of "unat e"])
qed

lemma aligned_result: "word_aligned ((e + 3) AND NOT 3)"
  by (simp add: word_aligned_def and.assoc)

text \<open>The limit of the stack is the end of the heap, as start-up sets it when the stack grows down towards the heap.\<close>

definition follows_heap :: "'z stack_cpu \<Rightarrow> bool" where
  "follows_heap s = (et (system s) = heap_end (system s) \<and> word_aligned (heap_end (system s)))"

text \<open>A series of requests; their results, and the state after them.\<close>

fun sbrk_all ::
    "sbrk_options \<Rightarrow> u32 \<Rightarrow> u32 \<Rightarrow> u32 list \<Rightarrow> 'z stack_cpu \<Rightarrow> u32 list \<times> 'z stack_cpu" where
  "sbrk_all cfg start limit [] s = ([], s)"
| "sbrk_all cfg start limit (n # ns) s =
     (let (p, s) = sbrk_with cfg start limit n s; (ps, s) = sbrk_all cfg start limit ns s in (p # ps, s))"

text \<open>The ends of the heap that the granted ones of these requests lead to.\<close>

fun heap_ends :: "sbrk_options \<Rightarrow> u32 \<Rightarrow> u32 \<Rightarrow> u32 list \<Rightarrow> u32 \<Rightarrow> u32 list" where
  "heap_ends cfg start limit [] e = []"
| "heap_ends cfg start limit (n # ns) e =
     (if sbrk_refused cfg start limit e n then heap_ends cfg start limit ns e
      else (e + n) # heap_ends cfg start limit ns (e + n))"

lemma sbrk_aligned:
  assumes "word_aligned (heap_end (system s))"
  shows "sbrk_with cfg start limit n s =
     (let e = heap_end (system s) in
      if sbrk_refused cfg start limit e n then (- 1, s)
      else (e, checked cfg e (s\<lparr>system := (system s)\<lparr>heap_end := e + n\<rparr>\<rparr>)))"
  unfolding sbrk_with_value word_aligned_up [OF assms] by (simp add: Let_def)

lemma sbrk_follows:
  assumes "sbrk_with cfg start limit n s = (p, s')" and "stack_check cfg" and "\<not> exception_stack cfg"
    and "follows_heap s" and "word_aligned n"
  shows "follows_heap s' \<and> sp (system s') = sp (system s)
    \<and> (if sbrk_refused cfg start limit (heap_end (system s)) n
        then heap_end (system s') = heap_end (system s) \<and> stack_overflows (system s') = stack_overflows (system s)
        else heap_end (system s') = heap_end (system s) + n
          \<and> stack_overflows (system s') = stack_overflows (system s)
              + (if sp (system s) \<le> heap_end (system s) + n then 1 else 0))"
  using assms
  by (auto simp: sbrk_aligned Let_def follows_heap_def word_aligned_add checked_def check_stack_def
      stack_defs split: if_splits)

lemma sbrk_all_follows:
  assumes "sbrk_all cfg start limit ns s = (ps, s')" and "stack_check cfg" and "\<not> exception_stack cfg"
    and "follows_heap s" and "list_all word_aligned ns"
  shows "follows_heap s' \<and> stack_overflows (system s') = stack_overflows (system s)
     + length (filter (\<lambda>e. sp (system s) \<le> e) (heap_ends cfg start limit ns (heap_end (system s))))"
  using assms
proof (induction ns arbitrary: s ps)
  case (Cons n ns)
  obtain p t where t: "sbrk_with cfg start limit n s = (p, t)" by force
  obtain qs where qs: "sbrk_all cfg start limit ns t = (qs, s')"
    using Cons.prems(1) t by (auto simp: Let_def split: prod.splits)
  from sbrk_follows [OF t Cons.prems(2-4)] Cons.prems(5) Cons.IH [OF qs Cons.prems(2,3)] show ?case
    by (auto simp: Let_def)
qed simp

lemma heap_end_follows:
  assumes "sbrk_all cfg start limit ns s = (ps, s')" and "follows_heap s" and "list_all word_aligned ns"
    and "stack_check cfg" and "\<not> exception_stack cfg"
  shows "heap_end (system s') = last (heap_end (system s) # heap_ends cfg start limit ns (heap_end (system s)))
    \<and> sp (system s') = sp (system s)"
  using assms
proof (induction ns arbitrary: s ps)
  case (Cons n ns)
  obtain p t where t: "sbrk_with cfg start limit n s = (p, t)" by force
  obtain qs where qs: "sbrk_all cfg start limit ns t = (qs, s')"
    using Cons.prems(1) t by (auto simp: Let_def split: prod.splits)
  from sbrk_follows [OF t Cons.prems(4,5,2)] Cons.prems(3) Cons.IH [OF qs _ _ Cons.prems(4,5)] show ?case
    by (auto simp: Let_def)
qed simp

text \<open>A limit that is not aligned is never the end of the heap again, which every request aligns first.\<close>

lemma unaligned_limit:
  assumes "sbrk_all cfg start limit ns s = (ps, s')" and "\<not> exception_stack cfg"
    and "\<not> word_aligned (et (system s))"
  shows "et (system s') = et (system s) \<and> stack_overflows (system s') = stack_overflows (system s)"
  using assms
proof (induction ns arbitrary: s ps)
  case (Cons n ns)
  obtain p t where t: "sbrk_with cfg start limit n s = (p, t)" by force
  obtain qs where qs: "sbrk_all cfg start limit ns t = (qs, s')"
    using Cons.prems(1) t by (auto simp: Let_def split: prod.splits)
  have "et (system s) \<noteq> (heap_end (system s) + 3) AND NOT 3"
    using aligned_result Cons.prems(3) by metis
  then have "et (system t) = et (system s) \<and> stack_overflows (system t) = stack_overflows (system s)"
    using t Cons.prems(2)
    by (auto simp: sbrk_with_value Let_def checked_def check_stack_def stack_defs split: if_splits)
  then show ?case using Cons.IH [OF qs Cons.prems(2)] Cons.prems(3) by simp
qed simp

lemma sbrk_all_append:
  "sbrk_all cfg start limit (ns @ ms) s =
     (let (ps, s) = sbrk_all cfg start limit ns s; (qs, s) = sbrk_all cfg start limit ms s in (ps @ qs, s))"
  by (induction ns arbitrary: s) (simp_all add: Let_def split_beta)

text \<open>With an exception stack, the limit of the stack that was left is compared with the end of the heap in place of its stack pointer:
  every granted request that is not negative reports an overflow, wherever that stack pointer is.\<close>

lemma old_stack_always_reported:
  assumes "stack_check cfg" and "exception_stack cfg" and "word_aligned (heap_end (system s))"
    and "alt_exception_old_stack_limit (system s) = heap_end (system s)"
    and "\<not> sbrk_refused cfg start limit (heap_end (system s)) n" and "heap_end (system s) \<le> heap_end (system s) + n"
  shows "stack_overflows (system s) < stack_overflows (system (snd (sbrk_with cfg start limit n s)))"
  using assms by (simp add: sbrk_aligned Let_def checked_def check_stack_def check_old_stack_def stack_defs)

text \<open>A maximum size refuses what would make the heap larger, as long as the size is below two gigabytes.\<close>

lemma heap_stays_below_maximum:
  assumes "max_heap_bytes cfg = Some m" and "0 \<le> m"
    and "unat start \<le> unat (heap_end (system s))" and "word_aligned (heap_end (system s))"
    and "unat (heap_end (system s)) + unat n - unat start < 2 ^ 31" and "unat (heap_end (system s)) + unat n < 2 ^ 32"
    and "sbrk_with cfg start limit n s = (p, s')" and "p \<noteq> - 1"
  shows "int (unat (heap_end (system s'))) \<le> int (unat start) + m"
proof -
  let ?e = "heap_end (system s)"
  have sum: "unat (?e + n) = unat ?e + unat n" using assms(6) by (simp add: unat_word_ariths(1))
  have "unat (?e + n - start) = unat ?e + unat n - unat start"
    using assms(3) sum by (simp add: unat_sub word_le_nat_alt)
  then have "sint (?e + n - start) = int (unat ?e + unat n) - int (unat start)"
    using assms(3,5) by (subst sint_small) (simp_all add: word_less_nat_alt of_nat_diff)
  moreover have "uint (?e + n) = uint ?e + uint n" using arg_cong [OF sum, of int] by simp
  ultimately show ?thesis
    using assms(1,4,7,8) by (auto simp: sbrk_aligned Let_def sbrk_refused_def split: if_splits)
qed

section \<open>Properties\<close>

text \<open>Property C40. With stack checking, as long as the requests are multiples of a word, the limit of the stack is the end of the heap and
  exactly the granted requests that reach the stack pointer are reported. The first granted request that is no multiple of a word
  is checked too, but after it none ever is: the limit stays where that request put it, however far the heap grows into the stack.\<close>

theorem stack_checked_until_unaligned:
  assumes cfg: "stack_check cfg" "\<not> exception_stack cfg" and s: "follows_heap s" and ns: "list_all word_aligned ns"
    and t: "sbrk_all cfg start limit ns s = (ps, t)"
    and n: "\<not> word_aligned n" "\<not> sbrk_refused cfg start limit (heap_end (system t)) n"
    and s': "sbrk_all cfg start limit (ns @ n # ms) s = (qs, s')"
  shows "et (system t) = heap_end (system t)
    \<and> stack_overflows (system t) = stack_overflows (system s)
        + length (filter (\<lambda>e. sp (system s) \<le> e) (heap_ends cfg start limit ns (heap_end (system s))))
    \<and> et (system s') = heap_end (system t) + n
    \<and> stack_overflows (system s') = stack_overflows (system t)
        + (if sp (system s) \<le> heap_end (system t) + n then 1 else 0)"
proof -
  have t': "follows_heap t" "sp (system t) = sp (system s)"
    using sbrk_all_follows [OF t cfg s ns] heap_end_follows [OF t s ns cfg] by simp_all
  obtain p u where u: "sbrk_with cfg start limit n t = (p, u)" by force
  obtain rs where rs: "sbrk_all cfg start limit ms u = (rs, s')"
    using s' t u by (auto simp: sbrk_all_append Let_def split: prod.splits)
  have "et (system u) = heap_end (system t) + n
      \<and> stack_overflows (system u) = stack_overflows (system t)
          + (if sp (system s) \<le> heap_end (system t) + n then 1 else 0)"
    using u cfg t' n(2)
    by (auto simp: sbrk_aligned Let_def follows_heap_def checked_def check_stack_def stack_defs split: if_splits)
  moreover from this have "\<not> word_aligned (et (system u))"
    using t'(1) n(1) by (simp add: follows_heap_def word_aligned_add)
  ultimately show ?thesis
    using unaligned_limit [OF rs cfg(2)] sbrk_all_follows [OF t cfg s ns] by (simp add: follows_heap_def)
qed

definition checked_board :: "stack cpu" where
  "checked_board = initial_cpu 1 0 \<lparr>heap_end = 0x8000, et = 0x8000, sp = 0x8100, alt_stack_limit_value = 0x8000,
     alt_exception_old_stack_limit = 0, stack_overflows = 0\<rparr>"

text \<open>Two bytes are asked for after 64, and then 512, which reach past the stack pointer unnoticed.\<close>

lemma stack_checked_until_unaligned_witness:
  "let s = snd (sbrk_all \<lparr>max_heap_bytes = None, stack_check = True, exception_stack = False\<rparr> 0x8000 0x9000
       [0x40, 2, 0x200] checked_board)
   in et (system s) = 0x8042 \<and> heap_end (system s) = 0x8244 \<and> sp (system s) = 0x8100
     \<and> stack_overflows (system s) = 0"
proof -
  let ?cfg = "\<lparr>max_heap_bytes = None, stack_check = True, exception_stack = False\<rparr>"
  let ?all = "sbrk_all ?cfg 0x8000 0x9000"
  have s: "follows_heap checked_board" by (simp add: follows_heap_def checked_board_def initial_cpu_def word_aligned_def)
  have t: "heap_end (system (snd (?all [0x40] checked_board))) = 0x8040"
    and later: "heap_end (system (snd (?all [0x40, 2, 0x200] checked_board))) = 0x8244"
      "sp (system (snd (?all [0x40, 2, 0x200] checked_board))) = 0x8100"
    by (simp_all add: sbrk_with_value sbrk_refused_def checked_def check_stack_def stack_defs checked_board_def
        initial_cpu_def Let_def)
  have board: "heap_end (system checked_board) = 0x8000" "sp (system checked_board) = 0x8100"
    "stack_overflows (system checked_board) = 0"
    by (simp_all add: checked_board_def initial_cpu_def)
  have "\<not> sbrk_refused ?cfg 0x8000 0x9000 0x8040 2" "list_all word_aligned [0x40]" "\<not> word_aligned 2"
    by (simp_all add: sbrk_refused_def word_aligned_def)
  with stack_checked_until_unaligned [where cfg = ?cfg and s = checked_board and ns = "[0x40]" and n = 2 and ms = "[0x200]",
      OF _ _ s _ surjective_pairing _ _ surjective_pairing, of "0x8000" "0x9000"]
  show ?thesis
    by (simp add: Let_def t later board sbrk_refused_def del: sbrk_all.simps)
qed

end
