(* ===== verification/Printing.thy ===== *)
theory Printing
  imports Prelude
begin

text \<open>
  The small \<open>printf\<close> of the HAL (\<open>alt_printf.c\<close>), on the \<open>putchar\<close> of newlib to which \<open>alt_putchar\<close>
  passes a character in this build: the parameter \<open>put\<close>.  A C string is a HOL string without a NUL.  The variable arguments are a list of
  \<open>arg\<close>; an argument that is missing or of the wrong kind is undefined.  \<open>rendered\<close> is the text a format
  stands for, and \<open>hex\<close> the digits of a number.
\<close>

section \<open>Definitions\<close>

datatype arg = Int_arg u32 | Str_arg string

definition alt_putchar :: "(char \<Rightarrow> 'w \<Rightarrow> 'w) \<Rightarrow> char \<Rightarrow> 'w \<Rightarrow> 'w" where
  "alt_putchar put c w = put c w"

text \<open>\<open>putchar\<close> converts its \<open>int\<close> argument to an unsigned character.\<close>

definition to_char :: "u32 \<Rightarrow> char" where
  "to_char v = char_of (unat v mod 256)"

text \<open>\<open>digit_shift = 28; while (!(v & (0xF << digit_shift))) digit_shift -= 4\<close>; a negative shift is undefined.\<close>

definition nibble_mask :: "int \<Rightarrow> u32" where
  "nibble_mask sh = push_bit (nat sh) 0xF"

definition find_shift :: "u32 \<Rightarrow> int \<Rightarrow> int outcome" where
  "find_shift v sh = loop (\<lambda>sh. if sh < 0 then Undef
     else if v AND nibble_mask sh = 0 then Ret (Again (sh - 4)) else Ret (Break sh)) sh"

text \<open>\<open>for (; digit_shift >= 0; digit_shift -= 4)\<close>.\<close>

definition digit_char :: "u32 \<Rightarrow> char" where
  "digit_char digit = (if digit \<le> 9 then to_char (of_char (CHR ''0'') + digit)
     else to_char (of_char (CHR ''a'') + digit - 10))"

definition print_digits :: "(char \<Rightarrow> 'w \<Rightarrow> 'w) \<Rightarrow> u32 \<Rightarrow> int \<Rightarrow> 'w \<Rightarrow> 'w outcome" where
  "print_digits put v sh w = loop (\<lambda>(sh, w). if sh < 0 then Ret (Break w)
     else
       let digit = drop_bit (nat sh) (v AND nibble_mask sh)
       in Ret (Again (sh - 4, alt_putchar put (digit_char digit) w))) (sh, w)"

definition print_hex :: "(char \<Rightarrow> 'w \<Rightarrow> 'w) \<Rightarrow> u32 \<Rightarrow> 'w \<Rightarrow> 'w outcome" where
  "print_hex put v w =
     (if v = 0 then Ret (alt_putchar put (CHR ''0'') w)
      else seq (find_shift v 28) (\<lambda>sh. print_digits put v sh w))"

primrec print_string :: "(char \<Rightarrow> 'w \<Rightarrow> 'w) \<Rightarrow> string \<Rightarrow> 'w \<Rightarrow> 'w" where
  "print_string put [] w = w"
| "print_string put (c # s) w = print_string put s (alt_putchar put c w)"

fun alt_printf :: "(char \<Rightarrow> 'w \<Rightarrow> 'w) \<Rightarrow> string \<Rightarrow> arg list \<Rightarrow> 'w \<Rightarrow> 'w outcome" where
  "alt_printf put [] args w = Ret w"
| "alt_printf put [c] args w = (if c \<noteq> CHR ''%'' then Ret (alt_putchar put c w) else Ret w)"
| "alt_printf put (c # d # fmt) args w =
     (if c \<noteq> CHR ''%'' then alt_printf put (d # fmt) args (alt_putchar put c w)
      else if d = CHR ''%'' then alt_printf put fmt args (alt_putchar put d w)
      else if d = CHR ''c'' then
        (case args of
           Int_arg v # args \<Rightarrow> alt_printf put fmt args (alt_putchar put (to_char v) w)
         | _ \<Rightarrow> Undef)
      else if d = CHR ''x'' then
        (case args of
           Int_arg v # args \<Rightarrow> seq (print_hex put v w) (alt_printf put fmt args)
         | _ \<Rightarrow> Undef)
      else if d = CHR ''s'' then
        (case args of
           Str_arg s # args \<Rightarrow> alt_printf put fmt args (print_string put s w)
         | _ \<Rightarrow> Undef)
      else alt_printf put fmt args w)"

section \<open>The digits of a number\<close>

definition hex_digit :: "nat \<Rightarrow> char" where
  "hex_digit n = ''0123456789abcdef'' ! n"

text \<open>The digits of a number in base \<open>b\<close>, most significant first.\<close>

fun radix :: "nat \<Rightarrow> nat \<Rightarrow> nat list" where
  "radix b n = (if n < b \<or> b < 2 then [n] else radix b (n div b) @ [n mod b])"

declare radix.simps [simp del]

definition hex :: "nat \<Rightarrow> string" where
  "hex n = map hex_digit (radix 16 n)"

definition digit_value :: "char \<Rightarrow> nat" where
  "digit_value c = (if of_char c \<le> (57 :: nat) then of_char c - 48 else of_char c - 87)"

definition read_hex :: "string \<Rightarrow> nat" where
  "read_hex ds = foldl (\<lambda>n c. n * 16 + digit_value c) 0 ds"

lemma below_16: "n < 16 \<Longrightarrow> n \<in> {0, 1, 2, 3, 4, 5, 6, 7, 8, 9, 10, 11, 12, 13, 14, 15 :: nat}"
  by (simp, presburger)

lemma digit_value_hex: "n < 16 \<Longrightarrow> digit_value (hex_digit n) = n"
  by (drule below_16) (auto simp: digit_value_def hex_digit_def)

lemma digit_char_hex:
  assumes "n < 16"
  shows "digit_char (word_of_nat n) = hex_digit n"
  using below_16 [OF assms] by (auto simp: digit_char_def hex_digit_def to_char_def char_of_def bit_iff_odd)

lemma radix_value: "2 \<le> b \<Longrightarrow> foldl (\<lambda>a d. a * b + d) 0 (radix b n) = n"
proof (induction b n rule: radix.induct)
  case (1 b n)
  then show ?case by (subst radix.simps) auto
qed

lemma radix_below: "2 \<le> b \<Longrightarrow> d \<in> set (radix b n) \<Longrightarrow> d < b"
proof (induction b n rule: radix.induct)
  case (1 b n)
  from "1.prems" show ?case
    by (subst (asm) radix.simps) (use "1.IH" in \<open>auto split: if_splits\<close>)
qed

lemma radix_digits:
  assumes "2 \<le> b" and "b ^ j \<le> n \<or> j = 0" and "n < b ^ Suc j"
  shows "radix b n = map (\<lambda>i. n div b ^ i mod b) (rev [0..<Suc j])"
  using assms(2,3)
proof (induction j arbitrary: n)
  case 0
  then show ?case by (simp add: radix.simps)
next
  case (Suc j)
  have "b \<le> b ^ Suc j" using assms(1) power_increasing [of 1 "Suc j" b] by (simp only: power_one_right)
  also have "\<dots> \<le> n" using Suc.prems(1) by blast
  finally have big: "\<not> n < b" by (simp only: not_less)
  have "b ^ j \<le> n div b" using Suc.prems(1) assms(1) by (simp add: less_eq_div_iff_mult_less_eq mult.commute)
  moreover have "n div b < b ^ Suc j" using Suc.prems(2) by (simp add: less_mult_imp_div_less mult.commute)
  ultimately have "radix b (n div b) = map (\<lambda>i. n div b div b ^ i mod b) (rev [0..<Suc j])"
    using Suc.IH by blast
  also have "\<dots> = map (\<lambda>i. n div b ^ i mod b) (rev [Suc 0..<Suc (Suc j)])"
    unfolding map_Suc_upt [symmetric] rev_map map_map by (simp add: div_mult2_eq o_def)
  finally show ?case
    using big assms(1) by (simp add: radix.simps [of b n] upt_rec [of 0])
qed

text \<open>The place of the first digit.\<close>

lemma radix_place:
  assumes "2 \<le> b" and "0 < n"
  obtains j where "b ^ j \<le> n" and "n < b ^ Suc j" and "length (radix b n) = Suc j"
proof -
  obtain j where j: "b ^ j \<le> n" "n < b ^ Suc j" using ex_power_ivl1 [of b n] assms by auto
  moreover have "length (radix b n) = Suc j" using radix_digits [of b j n] j assms(1) by simp
  ultimately show thesis using that by blast
qed

lemma read_hex_hex: "read_hex (hex n) = n"
proof -
  have "foldl (\<lambda>a c. a * 16 + digit_value c) m (map hex_digit ds) = foldl (\<lambda>a d. a * 16 + d) m ds"
    if "\<forall>d \<in> set ds. d < 16" for m ds
    using that by (induction ds arbitrary: m) (simp_all add: digit_value_hex)
  then show ?thesis using radix_below [of 16] radix_value [of 16 n] by (simp add: read_hex_def hex_def)
qed

lemma hex_digits:
  assumes "16 ^ j \<le> n \<or> j = 0" and "n < 16 ^ Suc j"
  shows "hex n = map (\<lambda>i. hex_digit (n div 16 ^ i mod 16)) (rev [0..<Suc j])"
  using radix_digits [of 16 j n] assms by (simp add: hex_def)

section \<open>The loops print the digits\<close>

lemma nibble:
  "drop_bit (nat (4 * int j)) (v AND nibble_mask (4 * int j)) = word_of_nat (unat v div 16 ^ j mod 16)"
proof -
  have m: "(0xF :: u32) = Bit_Operations.mask 4" by (simp add: mask_eq_exp_minus_1)
  have "drop_bit (4 * j) (v AND push_bit (4 * j) (Bit_Operations.mask 4)) = take_bit 4 (drop_bit (4 * j) v)"
    by (rule bit_word_eqI) (auto simp: bit_simps dest: bit_imp_le_length)
  also have "\<dots> = word_of_nat (unat (take_bit 4 (drop_bit (4 * j) v)))" by simp
  also have "unat (take_bit 4 (drop_bit (4 * j) v)) = unat v div 16 ^ j mod 16"
    using unsigned_less [of v, where 'a = nat]
    by (simp only: unsigned_take_bit_eq unsigned_drop_bit_eq)
      (simp add: take_bit_eq_mod drop_bit_eq_div power_mult)
  finally show ?thesis by (simp add: nibble_mask_def m nat_mult_distrib)
qed

lemma nibble_zero:
  "v AND nibble_mask (4 * int j) = 0 \<longleftrightarrow> unat v div 16 ^ j mod 16 = 0"
proof -
  have small: "word_of_nat m = (0 :: u32) \<longleftrightarrow> m = 0" if "m < 16" for m
    using that by (auto simp: word_of_nat_eq_0_iff dest!: dvd_imp_le)
  have "v AND nibble_mask (4 * int j) = 0 \<longleftrightarrow> drop_bit (nat (4 * int j)) (v AND nibble_mask (4 * int j)) = 0"
    by (auto simp: bit_eq_iff bit_simps nibble_mask_def)
  also have "\<dots> \<longleftrightarrow> unat v div 16 ^ j mod 16 = 0"
    unfolding nibble by (rule small) simp
  finally show ?thesis .
qed

lemma find_shift_top:
  assumes "16 ^ j \<le> unat v" and "unat v < 16 ^ Suc j"
  shows "find_shift v (4 * int (j + d)) = Ret (4 * int j)"
proof (induction d)
  case 0
  have "0 < unat v div 16 ^ j" "unat v div 16 ^ j < 16"
    using assms by (simp_all add: div_greater_zero_iff less_mult_imp_div_less mult.commute)
  then have "v AND nibble_mask (4 * int j) \<noteq> 0" by (simp add: nibble_zero)
  then show ?case by (simp add: find_shift_def loop_Break)
next
  case (Suc d)
  have "(16 :: nat) ^ Suc j \<le> 16 ^ (j + Suc d)" by (rule power_increasing) simp_all
  with assms(2) have "unat v < 16 ^ (j + Suc d)" by (rule less_le_trans)
  then have "unat v div 16 ^ (j + Suc d) = 0" by (rule div_less)
  then have "v AND nibble_mask (4 * int (j + Suc d)) = 0" unfolding nibble_zero by simp
  moreover have "4 * int (j + Suc d) - 4 = 4 * int (j + d)" by simp
  ultimately have "find_shift v (4 * int (j + Suc d)) = find_shift v (4 * int (j + d))"
    unfolding find_shift_def by (subst loop_Again) simp_all
  with Suc.IH show ?case by simp
qed

lemma print_digits_run:
  "print_digits put v (4 * int j) w
    = Ret (fold put (map (\<lambda>i. hex_digit (unat v div 16 ^ i mod 16)) (rev [0..<Suc j])) w)"
proof (induction j arbitrary: w)
  case 0
  then show ?case
    using nibble [of 0 v] digit_char_hex [of "unat v mod 16"]
    by (simp add: print_digits_def loop_Again loop_Break alt_putchar_def)
next
  case (Suc j)
  have "print_digits put v (4 * int (Suc j)) w
      = print_digits put v (4 * int j) (put (hex_digit (unat v div 16 ^ Suc j mod 16)) w)"
    using nibble [of "Suc j" v] digit_char_hex [of "unat v div 16 ^ Suc j mod 16"]
    unfolding print_digits_def by (subst loop_Again) (simp_all add: alt_putchar_def)
  with Suc.IH show ?case by simp
qed

lemma top_digit:
  assumes "(v :: u32) \<noteq> 0"
  obtains j where "j < 8" and "16 ^ j \<le> unat v" and "unat v < 16 ^ Suc j"
proof -
  have pos: "0 < unat v" using assms by (simp add: unat_gt_0)
  obtain j where j: "16 ^ j \<le> unat v" "unat v < 16 ^ Suc j"
    using ex_power_ivl1 [of 16 "unat v"] pos by auto
  have "j < 8"
  proof (rule ccontr)
    assume "\<not> j < 8"
    then have "(16 :: nat) ^ 8 \<le> 16 ^ j" by (intro power_increasing) simp_all
    with j(1) show False using unsigned_less [of v, where 'a = nat] by simp
  qed
  with j show thesis using that by blast
qed

lemma print_hex_prints: "print_hex put v w = Ret (fold put (hex (unat v)) w)"
proof (cases "v = 0")
  case True
  then show ?thesis by (simp add: print_hex_def alt_putchar_def hex_def radix.simps hex_digit_def)
next
  case False
  then obtain j where j: "j < 8" "16 ^ j \<le> unat v" "unat v < 16 ^ Suc j" by (rule top_digit)
  then have "find_shift v 28 = Ret (4 * int j)"
    using find_shift_top [OF j(2,3), of "7 - j"] by simp
  then show ?thesis
    using False hex_digits [OF _ j(3)] j(2) by (simp only: print_hex_def if_False seq.simps print_digits_run simp_thms)
qed

lemma print_string_prints: "print_string put s w = fold put s w"
  by (induction s arbitrary: w) (simp_all add: alt_putchar_def)

section \<open>The text of a format\<close>

datatype directive = Literal char | Character | Hexadecimal | Text

definition directive_of :: "char \<Rightarrow> directive list" where
  "directive_of d = (if d = CHR ''%'' then [Literal d] else if d = CHR ''c'' then [Character]
     else if d = CHR ''x'' then [Hexadecimal] else if d = CHR ''s'' then [Text] else [])"

fun directives :: "string \<Rightarrow> directive list" where
  "directives [] = []"
| "directives [c] = (if c = CHR ''%'' then [] else [Literal c])"
| "directives (c # d # fmt) =
     (if c = CHR ''%'' then directive_of d @ directives fmt else Literal c # directives (d # fmt))"

fun rendered :: "directive list \<Rightarrow> arg list \<Rightarrow> string option" where
  "rendered [] args = Some []"
| "rendered (Literal c # ds) args = map_option (Cons c) (rendered ds args)"
| "rendered (Character # ds) (Int_arg v # args) = map_option (Cons (to_char v)) (rendered ds args)"
| "rendered (Hexadecimal # ds) (Int_arg v # args) = map_option ((@) (hex (unat v))) (rendered ds args)"
| "rendered (Text # ds) (Str_arg s # args) = map_option ((@) s) (rendered ds args)"
| "rendered (_ # ds) _ = None"

definition printed :: "(char \<Rightarrow> 'w \<Rightarrow> 'w) \<Rightarrow> string option \<Rightarrow> 'w \<Rightarrow> 'w outcome" where
  "printed put out w = (case out of None \<Rightarrow> Undef | Some cs \<Rightarrow> Ret (fold put cs w))"

lemma printed_simps [simp]:
  "printed put (Some cs) w = Ret (fold put cs w)"
  "printed put None w = Undef"
  "printed put (map_option (Cons c) r) w = printed put r (put c w)"
  "printed put (map_option ((@) cs) r) w = printed put r (fold put cs w)"
  by (cases r; simp add: printed_def)+

lemma alt_printf_text:
  "alt_printf put fmt args w = printed put (rendered (directives fmt) args) w"
proof (induction put fmt args w rule: alt_printf.induct)
  case (3 put c d fmt args w)
  then show ?case
    by (cases args; cases "hd args")
      (auto simp: directive_of_def alt_putchar_def print_hex_prints print_string_prints)
qed (simp_all add: alt_putchar_def)

section \<open>Properties\<close>

text \<open>Property C31. \<open>alt_printf\<close> puts out exactly the text that its format and arguments stand for, and is undefined when an
  argument is missing or of the wrong kind; unknown directives are skipped.\<close>

theorem printf_prints:
  "alt_printf put fmt args w = printed put (rendered (directives fmt) args) w"
  by (rule alt_printf_text)

text \<open>Property C32. A number printed with \<open>%x\<close> reads back as itself, from at most eight digits without leading zeros.\<close>

theorem hex_roundtrip:
  "\<exists>ds. alt_printf (\<lambda>c out. out @ [c]) ''%x'' [Int_arg v] [] = Ret ds \<and> read_hex ds = unat v
    \<and> length ds \<le> 8 \<and> (hd ds = CHR ''0'') = (v = 0)"
proof -
  have out: "fold (\<lambda>c out. out @ [c]) ds acc = acc @ ds" for ds acc :: string
    by (induction ds arbitrary: acc) simp_all
  have "length (hex (unat v)) \<le> 8 \<and> (hd (hex (unat v)) = CHR ''0'') = (v = 0)"
  proof (cases "v = 0")
    case False
    then obtain j where j: "j < 8" "16 ^ j \<le> unat v" "unat v < 16 ^ Suc j" by (rule top_digit)
    let ?d = "unat v div 16 ^ j"
    have d: "0 < ?d" "?d < 16"
      using j by (simp_all add: div_greater_zero_iff less_mult_imp_div_less mult.commute)
    then have "hex_digit ?d \<noteq> CHR ''0''" using digit_value_hex [of ?d] by (auto simp: digit_value_def)
    moreover have "hex (unat v) = hex_digit ?d # map (\<lambda>i. hex_digit (unat v div 16 ^ i mod 16)) (rev [0..<j])"
      using hex_digits [OF _ j(3)] j(2) d by simp
    ultimately show ?thesis using j(1) False by simp
  qed (simp add: hex_def radix.simps hex_digit_def)
  moreover have "alt_printf (\<lambda>c out. out @ [c]) ''%x'' [Int_arg v] [] = Ret (hex (unat v))"
    by (simp add: print_hex_prints out)
  ultimately show ?thesis by (auto simp: read_hex_hex)
qed

end
