(* ===== verification/Log_Printf.thy ===== *)
theory Log_Printf
  imports Hardware Printing
begin

text \<open>
  The boot log of the HAL (\<open>alt_log_printf.c\<close>, compiled with \<open>ALT_LOG_ENABLE\<close>): a \<open>printf\<close> that writes each
  character to a UART by polling.  The formatter is a state machine over the format string; it is generic in the
  output \<open>tx\<close>, of which \<open>alt_log_txchar\<close> on a UART is the instance.  A character is sent as the C \<open>int\<close> it is converted to.
  \<open>layout\<close> states what a number looks like.  The theory Log_Text has the text
  of whole formats, and the log of a JTAG UART.
\<close>

section \<open>Output\<close>

type_synonym 'w tx = "u32 \<Rightarrow> 'w \<Rightarrow> 'w outcome"

definition LOG_STATUS_TRDY_MSK :: u32 where "LOG_STATUS_TRDY_MSK = 0x40"

definition alt_log_txchar :: "device \<Rightarrow> u32 \<Rightarrow> trace tx" where
  "alt_log_txchar dev base c t = loop (\<lambda>t.
     let (st, t) = IORD dev base 2 t in
     if st AND LOG_STATUS_TRDY_MSK = 0 then Ret (Again t) else Ret (Break (IOWR base 1 c t))) t"

definition alt_log_repchar :: "'w tx \<Rightarrow> u32 \<Rightarrow> int \<Rightarrow> 'w \<Rightarrow> 'w outcome" where
  "alt_log_repchar tx c r w = loop (\<lambda>(r, w). if 0 < r then seq (tx c w) (\<lambda>w. Ret (Again (r - 1, w)))
     else Ret (Break w)) (r, w)"

text \<open>A \<open>char\<close> as an \<open>int\<close>: plain characters are signed.\<close>

definition char_int :: "char \<Rightarrow> u32" where
  "char_int c = scast (of_char c :: u8)"

section \<open>The formatter\<close>

datatype pf_state = pfState_chars | pfState_firstFmtChar | pfState_otherFmtChar

record fmt_flags =
  fmtLeadingZero :: bool
  fmtLong :: bool
  fmtBeforeDecimal :: int
  fmtAfterDecimal :: int
  fmtBase :: u32
  fmtSigned :: bool
  fmtCase :: bool

definition fmt_reset :: fmt_flags where
  "fmt_reset = \<lparr>fmtLeadingZero = False, fmtLong = False, fmtBeforeDecimal = - 1, fmtAfterDecimal = - 1,
     fmtBase = 10, fmtSigned = True, fmtCase = False\<rparr>"

text \<open>Arithmetic on a C \<open>int\<close>.\<close>

definition int_value :: "int \<Rightarrow> int outcome" where
  "int_value x = (if - 2147483648 \<le> x \<and> x < 2147483648 then Ret x else Undef)"

definition count_digits :: "u32 \<Rightarrow> u32 \<Rightarrow> (u32 \<times> int) outcome" where
  "count_digits b v = loop (\<lambda>(vShrink, p, digitCount).
     let vShrink = vShrink div b in
     if 0 < vShrink then Ret (Again (vShrink, p * b, digitCount + 1)) else Ret (Break (p, digitCount))) (v, 1, 1)"

definition log_digit :: "bool \<Rightarrow> u32 \<Rightarrow> u32" where
  "log_digit up q =
     (let d = (ucast q :: u8); d = d + of_char (CHR ''0'');
          d = (if of_char (CHR ''9'') < d
               then d + ((if up then of_char (CHR ''A'') else of_char (CHR ''a'')) - of_char (CHR ''0'') - 10) else d)
      in ucast d)"

definition print_number :: "'w tx \<Rightarrow> bool \<Rightarrow> u32 \<Rightarrow> u32 \<Rightarrow> u32 \<Rightarrow> 'w \<Rightarrow> 'w outcome" where
  "print_number tx up b v p w = loop (\<lambda>(v, p, w).
     if p = 0 then Ret (Break w)
     else seq (tx (log_digit up (v div p)) w) (\<lambda>w. Ret (Again (v mod p, p div b, w)))) (v, p, w)"

definition doIntegerPrint :: "'w tx \<Rightarrow> fmt_flags \<Rightarrow> u32 \<Rightarrow> 'w \<Rightarrow> (fmt_flags \<times> 'w) outcome" where
  "doIntegerPrint tx f v w =
     (let sign = (fmtSigned f \<and> v AND 0x80000000 \<noteq> 0);
          v = (if sign then NOT v + 1 else v) in
      seq (count_digits (fmtBase f) v) (\<lambda>(p, digitCount).
      seq (int_value (fmtBeforeDecimal f - digitCount)) (\<lambda>before.
      seq (if sign then int_value (before - 1) else Ret before) (\<lambda>before.
      seq (if fmtLeadingZero f
           then seq (if sign then tx (char_int (CHR ''-'')) w else Ret w) (alt_log_repchar tx (char_int (CHR ''0'')) before)
           else seq (alt_log_repchar tx (char_int (CHR '' '')) before w)
                  (\<lambda>w. if sign then tx (char_int (CHR ''-'')) w else Ret w)) (\<lambda>w.
      seq (print_number tx (fmtCase f) (fmtBase f) v p w) (\<lambda>w.
      Ret (f\<lparr>fmtBeforeDecimal := before\<rparr>, w)))))))"

primrec log_string :: "'w tx \<Rightarrow> string \<Rightarrow> 'w \<Rightarrow> 'w outcome" where
  "log_string tx [] w = Ret w"
| "log_string tx (c # s) w = seq (tx (char_int c) w) (log_string tx s)"

type_synonym 'w pf = "pf_state \<times> fmt_flags \<times> arg list \<times> 'w"

text \<open>The letter that determines the type of an argument; after it the state is \<open>pfState_chars\<close>.\<close>

definition log_letter :: "'w tx \<Rightarrow> char \<Rightarrow> fmt_flags \<Rightarrow> arg list \<Rightarrow> 'w \<Rightarrow> 'w pf outcome" where
  "log_letter tx c f args w =
     (if c \<in> set ''diuoxX'' then
        let f = (if c = CHR ''u'' then f\<lparr>fmtSigned := False\<rparr>
                 else if c = CHR ''o'' then f\<lparr>fmtSigned := False, fmtBase := 8\<rparr>
                 else if c = CHR ''x'' then f\<lparr>fmtSigned := False, fmtBase := 16\<rparr>
                 else if c = CHR ''X'' then f\<lparr>fmtSigned := False, fmtBase := 16, fmtCase := True\<rparr> else f) in
        (case args of
           Int_arg v # args \<Rightarrow> seq (doIntegerPrint tx f v w) (\<lambda>(f, w). Ret (pfState_chars, f, args, w))
         | _ \<Rightarrow> Undef)
      else if c = CHR ''c'' then
        seq (int_value (fmtBeforeDecimal f - 1)) (\<lambda>r.
        seq (alt_log_repchar tx (char_int (CHR '' '')) r w) (\<lambda>w.
        case args of
           Int_arg v # args \<Rightarrow> seq (tx v w) (\<lambda>w. Ret (pfState_chars, f, args, w))
         | _ \<Rightarrow> Undef))
      else if c = CHR ''s'' then
        (case args of
           Str_arg s # args \<Rightarrow>
             seq (alt_log_repchar tx (char_int (CHR '' ''))
                  (sint (word_of_int (fmtBeforeDecimal f) - word_of_nat (length s) :: u32)) w) (\<lambda>w.
             seq (log_string tx s w) (\<lambda>w. Ret (pfState_chars, f, args, w)))
         | _ \<Rightarrow> Undef)
      else Ret (pfState_chars, f, args, w))"

definition otherFmtChar :: "'w tx \<Rightarrow> char \<Rightarrow> fmt_flags \<Rightarrow> arg list \<Rightarrow> 'w \<Rightarrow> 'w pf outcome" where
  "otherFmtChar tx c f args w =
     (if c = CHR ''.'' then Ret (pfState_otherFmtChar, f\<lparr>fmtAfterDecimal := 0\<rparr>, args, w)
      else if c \<in> set ''0123456789'' then
        let d = of_char c - 48 in
        if fmtAfterDecimal f < 0 then
          seq (if fmtBeforeDecimal f < 0 then Ret 0 else int_value (fmtBeforeDecimal f * 10)) (\<lambda>before.
          seq (int_value (before + d)) (\<lambda>before.
          Ret (pfState_otherFmtChar, f\<lparr>fmtBeforeDecimal := before\<rparr>, args, w)))
        else
          seq (int_value (fmtAfterDecimal f * 10 + d)) (\<lambda>after.
          Ret (pfState_otherFmtChar, f\<lparr>fmtAfterDecimal := after\<rparr>, args, w))
      else if c = CHR ''l'' then Ret (pfState_otherFmtChar, f\<lparr>fmtLong := True\<rparr>, args, w)
      else log_letter tx c f args w)"

definition log_step :: "'w tx \<Rightarrow> char \<Rightarrow> 'w pf \<Rightarrow> 'w pf outcome" where
  "log_step tx c x =
     (let (st, f, args, w) = x in
      case st of
        pfState_chars \<Rightarrow>
          if c = CHR ''%'' then Ret (pfState_firstFmtChar, fmt_reset, args, w)
          else seq (tx (char_int c) w) (\<lambda>w. Ret (pfState_chars, f, args, w))
      | pfState_firstFmtChar \<Rightarrow>
          if c = CHR ''0'' then Ret (pfState_otherFmtChar, f\<lparr>fmtLeadingZero := True\<rparr>, args, w)
          else if c = CHR ''%'' then seq (tx (char_int c) w) (\<lambda>w. Ret (pfState_chars, f, args, w))
          else otherFmtChar tx c f args w
      | pfState_otherFmtChar \<Rightarrow> otherFmtChar tx c f args w)"

primrec log_run :: "'w tx \<Rightarrow> string \<Rightarrow> 'w pf \<Rightarrow> 'w pf outcome" where
  "log_run tx [] x = Ret x"
| "log_run tx (c # cs) x = seq (log_step tx c x) (log_run tx cs)"

definition alt_log_private_printf :: "'w tx \<Rightarrow> string \<Rightarrow> arg list \<Rightarrow> 'w \<Rightarrow> 'w outcome" where
  "alt_log_private_printf tx fmt args w =
     seq (log_run tx fmt (pfState_chars, fmt_reset, args, w)) (\<lambda>(st, f, args, w). Ret w)"

definition alt_log_printf_proc :: "'w tx \<Rightarrow> string \<Rightarrow> arg list \<Rightarrow> 'w \<Rightarrow> (int \<times> 'w) outcome" where
  "alt_log_printf_proc tx fmt args w = seq (alt_log_private_printf tx fmt args w) (\<lambda>w. Ret (0, w))"

section \<open>The echo of a write\<close>

definition c_strncpy :: "nat \<Rightarrow> string \<Rightarrow> string" where
  "c_strncpy n s = take n (takeWhile (\<lambda>c. c \<noteq> CHR 0x00) s @ replicate n (CHR 0x00))"

text \<open>\<open>alt_log_write_buf\<close>, of \<open>echo_len + 2\<close> characters, after \<open>alt_log_write\<close> has filled it.\<close>

definition echo_buffer :: "string \<Rightarrow> nat \<Rightarrow> string \<Rightarrow> string" where
  "echo_buffer buf n ptr =
     (let buf = c_strncpy n ptr @ drop n buf;
          buf = buf[n - 1 := CHR 0x0A];
          buf = buf[n := CHR 0x0D];
          buf = buf[n + 1 := CHR 0x00]
      in map (\<lambda>c. if c = CHR 0x04 then CHR ''D'' else c) (take n buf) @ drop n buf)"

definition alt_log_write :: "'w tx \<Rightarrow> nat \<Rightarrow> bool \<Rightarrow> string \<Rightarrow> nat \<Rightarrow> string \<times> 'w \<Rightarrow> (string \<times> 'w) outcome" where
  "alt_log_write tx echo_len on_flag ptr len x =
     (let (buf, w) = x in
      if on_flag then
        let n = (if echo_len > len then len else echo_len) in
        if n < 2 then Ret (buf, w)
        else if length ptr < n \<and> CHR 0x00 \<notin> set ptr then Undef
        else
          let buf = echo_buffer buf n ptr in
          seq (alt_log_printf_proc tx ''Write Echo: %s'' [Str_arg (takeWhile (\<lambda>c. c \<noteq> CHR 0x00) buf)] w)
            (\<lambda>(rc, w). Ret (buf, w))
      else Ret (buf, w))"

section \<open>The heartbeat of the system clock\<close>

text \<open>The counter of ticks and that of seconds; the interval is the number of ticks in a second, and the comparison is unsigned.\<close>

definition alt_log_system_clock :: "'w tx \<Rightarrow> u32 \<Rightarrow> bool \<Rightarrow> int \<times> int \<times> 'w \<Rightarrow> (int \<times> int \<times> 'w) outcome" where
  "alt_log_system_clock tx interval on_flag x =
     (let (alt_log_sys_clk_count, alt_system_clock_in_sec, w) = x in
      if on_flag then
        seq (int_value (alt_log_sys_clk_count + 1)) (\<lambda>alt_log_sys_clk_count.
        if interval < word_of_int alt_log_sys_clk_count then
          seq (int_value (alt_system_clock_in_sec + 1)) (\<lambda>next_sec.
          seq (alt_log_printf_proc tx (''System Clock On %u'' @ [CHR 0x0D, CHR 0x0A])
                 [Int_arg (word_of_int alt_system_clock_in_sec)] w) (\<lambda>(rc, w).
          Ret (0, next_sec, w)))
        else Ret (alt_log_sys_clk_count, alt_system_clock_in_sec, w))
      else Ret x)"

text \<open>The last of the characters that are copied gives way to the end of the line.\<close>

lemma echo_text:
  assumes "2 \<le> n" and "n \<le> length ptr" and "CHR 0x00 \<notin> set ptr" and "n + 2 \<le> length buf"
  shows "takeWhile (\<lambda>c. c \<noteq> CHR 0x00) (echo_buffer buf n ptr)
    = map (\<lambda>c. if c = CHR 0x04 then CHR ''D'' else c) (take (n - 1) ptr) @ [CHR 0x0A, CHR 0x0D]"
proof -
  let ?esc = "map (\<lambda>c. if c = CHR 0x04 then CHR ''D'' else c)"
  obtain xs y where ptr: "take n ptr = xs @ [y]" "xs = take (n - 1) ptr" "length xs = n - 1"
    using assms(1,2) by (cases n) (simp_all add: take_Suc_conv_app_nth)
  obtain a b rest where buf: "drop n buf = a # b # rest"
    using assms(4) by (cases "drop n buf"; cases "tl (drop n buf)") (auto simp: drop_eq_Nil2 dest!: arg_cong [of _ _ length])
  have whole: "takeWhile (\<lambda>c. c \<noteq> CHR 0x00) ptr = ptr" using assms(3) by auto
  have copy: "c_strncpy n ptr = xs @ [y]" unfolding c_strncpy_def whole using assms(2) ptr(1) by simp
  have n: "n = Suc (length xs)" using ptr(3) assms(1) by simp
  have echoed: "echo_buffer buf n ptr = ?esc (xs @ [CHR 0x0A]) @ CHR 0x0D # CHR 0x00 # rest"
    unfolding echo_buffer_def Let_def copy buf by (simp add: n list_update_append)
  have "\<And>c. c \<in> set (?esc xs) \<Longrightarrow> c \<noteq> CHR 0x00" using assms(3) ptr(2) by (auto dest: in_set_takeD)
  then have "takeWhile (\<lambda>c. c \<noteq> CHR 0x00) (?esc xs @ [CHR 0x0A, CHR 0x0D] @ CHR 0x00 # rest)
      = ?esc xs @ [CHR 0x0A, CHR 0x0D]"
    by (subst takeWhile_append2) simp_all
  then show ?thesis by (simp add: echoed ptr(2))
qed

section \<open>What a number looks like\<close>

primrec send :: "'w tx \<Rightarrow> u32 list \<Rightarrow> 'w \<Rightarrow> 'w outcome" where
  "send tx [] w = Ret w"
| "send tx (c # cs) w = seq (tx c w) (send tx cs)"

lemma seq_same: "(\<And>x. f x = g x) \<Longrightarrow> seq m f = seq m g"
  by (cases m) auto

lemma send_append: "send tx (cs @ ds) w = seq (send tx cs w) (send tx ds)"
  by (induction cs arbitrary: w) (auto simp: seq_assoc intro!: seq_same)

definition negative :: "fmt_flags \<Rightarrow> u32 \<Rightarrow> bool" where
  "negative f v = (fmtSigned f \<and> sint v < 0)"

definition magnitude :: "fmt_flags \<Rightarrow> u32 \<Rightarrow> nat" where
  "magnitude f v = (if negative f v then nat (- sint v) else unat v)"

definition digit_texts :: "bool \<Rightarrow> nat list \<Rightarrow> u32 list" where
  "digit_texts up ds = map (\<lambda>d. char_int (if up then ''0123456789ABCDEF'' ! d else ''0123456789abcdef'' ! d)) ds"

text \<open>Sign and digits, filled up to the width with blanks before the sign or zeros after it.\<close>

definition layout :: "fmt_flags \<Rightarrow> u32 \<Rightarrow> u32 list" where
  "layout f v =
     (let ds = digit_texts (fmtCase f) (radix (unat (fmtBase f)) (magnitude f v));
          sgn = (if negative f v then [char_int (CHR ''-'')] else []);
          pad = nat (fmtBeforeDecimal f) - length sgn - length ds
      in if fmtLeadingZero f then sgn @ replicate pad (char_int (CHR ''0'')) @ ds
         else replicate pad (char_int (CHR '' '')) @ sgn @ ds)"

section \<open>The loops\<close>

lemma repchar_sends: "alt_log_repchar tx c r w = send tx (replicate (nat r) c) w"
proof (induction "nat r" arbitrary: r w)
  case 0
  then show ?case by (simp add: alt_log_repchar_def loop_Break)
next
  case (Suc n)
  then have r: "0 < r" "nat (r - 1) = n" by simp_all
  have "alt_log_repchar tx c r w = seq (tx c w) (alt_log_repchar tx c (r - 1))"
    using r(1) unfolding alt_log_repchar_def by (subst loop_unfold) (cases "tx c w"; simp)
  also have "\<dots> = seq (tx c w) (send tx (replicate n c))"
    using Suc.hyps(1) [of "r - 1"] r(2) by (auto intro!: seq_same)
  finally show ?case using Suc.hyps(2) by (simp flip: Suc.hyps(2))
qed

lemma count_digits_loop:
  assumes "2 \<le> unat b"
  shows "loop (\<lambda>(vShrink, p, digitCount).
     let vShrink = vShrink div b in
     if 0 < vShrink then Ret (Again (vShrink, p * b, digitCount + 1)) else Ret (Break (p, digitCount))) (v, p, k)
   = Ret (p * b ^ (length (radix (unat b) (unat v)) - 1), k + int (length (radix (unat b) (unat v)) - 1))"
    (is "loop ?body _ = _")
proof (induction "unat v" arbitrary: v p k rule: less_induct)
  case less
  have d: "unat (v div b) = unat v div unat b" by (simp add: unat_div)
  show ?case
  proof (cases "unat v < unat b")
    case True
    then have "v div b = 0" using d by (simp add: unat_eq_zero flip: unat_0)
    then show ?thesis using True by (simp add: loop_Break radix.simps)
  next
    case False
    then have q: "0 < unat v div unat b" "unat v div unat b < unat v"
      using assms by (simp_all add: div_greater_zero_iff)
    then have "0 < v div b" using d by (simp add: word_less_nat_alt)
    then have "loop ?body (v, p, k) = loop ?body (v div b, p * b, k + 1)" by (simp add: loop_Again)
    moreover have "length (radix (unat b) (unat v)) - 1 = Suc (length (radix (unat b) (unat v div unat b)) - 1)"
      using False assms radix.simps [of "unat b" "unat v"] radix.simps [of "unat b" "unat v div unat b"]
      by (auto split: if_splits)
    ultimately show ?thesis
      using less.hyps [of "v div b" "p * b" "k + 1"] q(2) d by (simp add: ac_simps)
  qed
qed

lemma log_digit_text:
  assumes "d < 16"
  shows "log_digit up (word_of_nat d) = char_int (if up then ''0123456789ABCDEF'' ! d else ''0123456789abcdef'' ! d)"
  using below_16 [OF assms] by (cases up) (auto simp: log_digit_def char_int_def)

lemma print_number_step:
  "p \<noteq> 0 \<Longrightarrow> print_number tx up b v p w
    = seq (tx (log_digit up (v div p)) w) (print_number tx up b (v mod p) (p div b))"
  "print_number tx up b v 0 w = Ret w"
  unfolding print_number_def by (subst loop_unfold, cases "tx (log_digit up (v div p)) w"; simp) (simp add: loop_Break)

lemma word_of_nat_div:
  assumes "n < 2 ^ 32" and "m < 2 ^ 32"
  shows "word_of_nat n div word_of_nat m = (word_of_nat (n div m) :: u32)"
    and "word_of_nat n mod word_of_nat m = (word_of_nat (n mod m) :: u32)"
proof -
  have "n div m < 2 ^ 32" "n mod m < 2 ^ 32"
    using assms div_le_dividend [of n m] mod_less_eq_dividend [of n m] by linarith+
  then show "word_of_nat n div word_of_nat m = (word_of_nat (n div m) :: u32)"
      "word_of_nat n mod word_of_nat m = (word_of_nat (n mod m) :: u32)"
    using assms by (simp_all add: word_unat_eq_iff unat_div unat_mod unat_of_nat)
qed

lemma word_of_nat_nonzero: "0 < m \<Longrightarrow> m < 2 ^ 32 \<Longrightarrow> word_of_nat m \<noteq> (0 :: u32)"
  by (auto simp: word_of_nat_eq_0_iff dest: nat_dvd_not_less)

lemma lower_digits:
  assumes "i < j"
  shows "(n mod b ^ j) div b ^ i mod b = n div b ^ i mod (b :: nat)"
proof -
  have "n mod b ^ j = n mod (b ^ i * b ^ (j - i))" using assms by (simp flip: power_add)
  also have "\<dots> div b ^ i = n div b ^ i mod b ^ (j - i)"
    by (cases "b = 0") (use assms in \<open>auto simp: mod_mult2_eq power_0_left\<close>)
  finally show ?thesis using assms by (simp add: mod_mod_cancel)
qed

text \<open>\<open>print_number\<close> from the place value \<open>b ^ j\<close> down.\<close>

lemma print_number_sends:
  assumes "2 \<le> b" and "b \<le> 16" and "n < b ^ Suc j" and "b ^ j < 2 ^ 32" and "n < 2 ^ 32"
  shows "print_number tx up (word_of_nat b) (word_of_nat n) (word_of_nat (b ^ j)) w
    = send tx (digit_texts up (map (\<lambda>i. n div b ^ i mod b) (rev [0..<Suc j]))) w"
  using assms(3-5)
proof (induction j arbitrary: n w)
  case 0
  have "log_digit up (word_of_nat n) = char_int (if up then ''0123456789ABCDEF'' ! n else ''0123456789abcdef'' ! n)"
    using 0 assms(2) by (intro log_digit_text) simp
  moreover have "1 div word_of_nat b = (0 :: u32)"
    using word_of_nat_div(1) [of 1 b] assms(1,2) by simp
  ultimately show ?case
    using 0 by (auto simp: print_number_step digit_texts_def intro!: seq_same)
next
  case (Suc j)
  have pow: "b ^ j < 2 ^ 32" "b ^ Suc j div b = b ^ j" "0 < b ^ Suc j"
    using Suc.prems(2) assms(1) le_less_trans [of "b ^ j" "b ^ Suc j" "2 ^ 32"] by simp_all
  have top: "n div b ^ Suc j < b" using Suc.prems(1) by (simp add: less_mult_imp_div_less mult.commute)
  then have digit: "log_digit up (word_of_nat (n div b ^ Suc j)) = char_int (if up then
      ''0123456789ABCDEF'' ! (n div b ^ Suc j) else ''0123456789abcdef'' ! (n div b ^ Suc j))"
    using assms(2) by (intro log_digit_text) simp
  have "n mod b ^ Suc j < b ^ Suc j" "n mod b ^ Suc j < 2 ^ 32"
    using pow(3) Suc.prems(2) by (simp_all add: le_less_trans [OF mod_less_divisor [THEN less_imp_le]])
  note IH = Suc.IH [OF this(1) pow(1) this(2)]
  have "map (\<lambda>i. n mod b ^ Suc j div b ^ i mod b) (rev [0..<Suc j]) = map (\<lambda>i. n div b ^ i mod b) (rev [0..<Suc j])"
    by (rule map_cong) (auto simp: lower_digits simp del: power_Suc)
  then have rest: "print_number tx up (word_of_nat b) (word_of_nat (n mod b ^ Suc j)) (word_of_nat (b ^ j))
      = send tx (digit_texts up (map (\<lambda>i. n div b ^ i mod b) (rev [0..<Suc j])))"
    by (intro ext) (simp only: IH)
  have "word_of_nat (b ^ Suc j) \<noteq> (0 :: u32)"
    using pow(3) Suc.prems(2) by (rule word_of_nat_nonzero)
  then have "print_number tx up (word_of_nat b) (word_of_nat n) (word_of_nat (b ^ Suc j)) w =
      seq (tx (log_digit up (word_of_nat (n div b ^ Suc j))) w)
        (print_number tx up (word_of_nat b) (word_of_nat (n mod b ^ Suc j)) (word_of_nat (b ^ j)))"
    using word_of_nat_div [OF Suc.prems(3,2)] word_of_nat_div(1) [OF Suc.prems(2), of b] pow(2) assms(2)
    by (simp add: print_number_step del: power_Suc)
  moreover have "rev [0..<Suc (Suc j)] = Suc j # rev [0..<Suc j]" by simp
  ultimately show ?case
    using top by (simp only: digit rest digit_texts_def list.map send.simps mod_less)
qed

lemma sign_bit: "v AND 0x80000000 \<noteq> 0 \<longleftrightarrow> sint (v :: u32) < 0"
proof -
  have "(0x80000000 :: u32) = push_bit 31 1" by simp
  then show ?thesis
    using bit_iff_and_push_bit_not_eq_0 [of v 31] bit_last_iff [of v] by (simp only:) simp
qed

lemma unat_word_of_int: "0 \<le> x \<Longrightarrow> x < 2 ^ 32 \<Longrightarrow> unat (word_of_int x :: u32) = nat x"
  by (simp add: unsigned_of_int take_bit_int_eq_self)

lemma negated:
  assumes "sint (v :: u32) < 0"
  shows "unat (NOT v + 1) = nat (- sint v)"
proof -
  have "NOT v + 1 = - v" by (simp only: minus_eq_not_plus_1)
  also have "\<dots> = word_of_int (- sint v)" by simp
  finally have "NOT v + 1 = word_of_int (- sint v)" .
  moreover have "- sint v < 2 ^ 32" using sint_ge [of v] by simp
  ultimately show ?thesis using assms unat_word_of_int [of "- sint v"] by (simp only:)
qed

lemma magnitude_value:
  "unat (if fmtSigned f \<and> v AND 0x80000000 \<noteq> 0 then NOT v + 1 else v) = magnitude f v"
  "(fmtSigned f \<and> v AND 0x80000000 \<noteq> 0) = negative f v"
  by (auto simp: magnitude_def negative_def sign_bit negated)

lemma digit_texts_length [simp]: "length (digit_texts up ds) = length ds"
  by (simp add: digit_texts_def)

lemma doIntegerPrint_sends:
  assumes "2 \<le> unat (fmtBase f)" and "unat (fmtBase f) \<le> 16"
    and "- 1 \<le> fmtBeforeDecimal f" and "fmtBeforeDecimal f < 2147483648"
  shows "\<exists>g. doIntegerPrint tx f v w = seq (send tx (layout f v) w) (\<lambda>w. Ret (g, w))"
proof -
  define b where "b = unat (fmtBase f)"
  define n where "n = magnitude f v"
  define u where "u = (if fmtSigned f \<and> v AND 0x80000000 \<noteq> 0 then NOT v + 1 else v)"
  have un: "unat u = n" using magnitude_value(1) [of f v] by (simp only: u_def n_def)
  then have u: "u = word_of_nat n" "fmtBase f = word_of_nat b" "unat u = n"
    unfolding b_def by (simp flip: un, simp, simp)
  have n: "n < 2 ^ 32" using unsigned_less [of u, where 'a = nat] u(3) by simp
  obtain j where j: "b ^ j \<le> n \<or> j = 0" "n < b ^ Suc j" "b ^ j < 2 ^ 32" "length (radix b n) = Suc j"
  proof (cases "n = 0")
    case True
    then show thesis using that [of 0] assms(1) by (simp add: b_def radix.simps)
  next
    case False
    then obtain j where "b ^ j \<le> n" "n < b ^ Suc j" "length (radix b n) = Suc j"
      using radix_place [of b n] assms(1) b_def by auto
    then show thesis using that [of j] n by (meson le_less_trans)
  qed
  have "2 ^ j \<le> b ^ j" using assms(1) b_def by (intro power_mono) simp_all
  then have "(2 :: nat) ^ j < 2 ^ 32" using j(3) by (rule le_less_trans)
  then have small: "j < 32" by (rule power_less_imp_less_exp [rotated]) simp
  define before where "before = fmtBeforeDecimal f - int (Suc j) - (if negative f v then 1 else 0)"
  have radix_b: "radix b n = map (\<lambda>i. n div b ^ i mod b) (rev [0..<Suc j])"
    by (rule radix_digits) (use assms(1) j b_def in simp_all)
  have "count_digits (fmtBase f) u = Ret (fmtBase f ^ j, int (Suc j))"
    using count_digits_loop [OF assms(1), of u 1 1] j(4) unfolding count_digits_def b_def un by simp
  moreover have "fmtBase f ^ j = word_of_nat (b ^ j)" using u(2) by simp
  ultimately have count: "count_digits (fmtBase f) u = Ret (word_of_nat (b ^ j), int (Suc j))" by (simp only:)
  have digits: "print_number tx (fmtCase f) (fmtBase f) u (word_of_nat (b ^ j)) w
      = send tx (digit_texts (fmtCase f) (radix b n)) w" for w
    unfolding u(1,2) radix_b using assms(1,2) j n b_def by (intro print_number_sends) simp_all
  have pad: "nat (fmtBeforeDecimal f) - length (if negative f v then [char_int (CHR ''-'')] else [])
      - length (digit_texts (fmtCase f) (radix b n)) = nat before"
    using assms(3) j(4) by (cases "negative f v"; simp add: before_def; linarith)
  have signed: "(if negative f v then NOT v + 1 else v) = u" by (simp only: u_def magnitude_value(2))
  have checks: "int_value (fmtBeforeDecimal f - int (Suc j)) = Ret (fmtBeforeDecimal f - int (Suc j))"
      "int_value (fmtBeforeDecimal f - int (Suc j) - 1) = Ret (fmtBeforeDecimal f - int (Suc j) - 1)"
    using assms(3,4) small by (simp_all add: int_value_def)
  have "doIntegerPrint tx f v w = seq (send tx (layout f v) w) (\<lambda>w. Ret (f\<lparr>fmtBeforeDecimal := before\<rparr>, w))"
    unfolding doIntegerPrint_def Let_def magnitude_value(2) signed layout_def b_def [symmetric] n_def [symmetric] pad
    using checks by (cases "negative f v"; cases "fmtLeadingZero f")
      (simp_all add: count repchar_sends digits before_def send_append seq_assoc del: of_nat_power)
  then show ?thesis by blast
qed

section \<open>Reading the width\<close>

definition decimal :: "nat \<Rightarrow> char" where
  "decimal d = ''0123456789'' ! d"

lemma decimal_char: "d < 10 \<Longrightarrow> decimal d \<in> set ''0123456789'' \<and> of_char (decimal d) = (int d + 48)
    \<and> decimal d \<noteq> CHR ''.'' \<and> decimal d \<noteq> CHR ''%''"
proof -
  assume "d < 10"
  then have "d \<in> {0, 1, 2, 3, 4, 5, 6, 7, 8, 9}" by (simp, presburger)
  then show ?thesis by (auto simp: decimal_def)
qed

lemma value_grows: "a \<le> foldl (\<lambda>a d. a * 10 + d) (a :: nat) ds"
proof (induction ds arbitrary: a)
  case (Cons d ds)
  show ?case using Cons.IH [of "a * 10 + d"] by simp
qed simp

lemma width_run:
  assumes "\<forall>d \<in> set ds. d < 10" and "foldl (\<lambda>a d. a * 10 + d) a ds < 2147483648" and "fmtAfterDecimal f < 0"
  shows "log_run tx (map decimal ds) (pfState_otherFmtChar, f\<lparr>fmtBeforeDecimal := int a\<rparr>, args, w)
    = Ret (pfState_otherFmtChar, f\<lparr>fmtBeforeDecimal := int (foldl (\<lambda>a d. a * 10 + d) a ds)\<rparr>, args, w)"
  using assms(1,2)
proof (induction ds arbitrary: a)
  case (Cons d ds)
  have "a * 10 + d < 2147483648"
    using Cons.prems(2) value_grows [of "a * 10 + d" ds] by simp
  then have "int_value (int a * 10) = Ret (int a * 10)" "int_value (int a * 10 + int d) = Ret (int (a * 10 + d))"
    by (simp_all add: int_value_def)
  moreover have "d < 10" using Cons.prems(1) by simp
  ultimately have "log_step tx (decimal d) (pfState_otherFmtChar, f\<lparr>fmtBeforeDecimal := int a\<rparr>, args, w)
      = Ret (pfState_otherFmtChar, f\<lparr>fmtBeforeDecimal := int (a * 10 + d)\<rparr>, args, w)"
    using decimal_char [of d] assms(3) by (simp add: log_step_def otherFmtChar_def)
  then show ?case using Cons.IH [of "a * 10 + d"] Cons.prems by simp
qed simp

text \<open>The first digit of a width.\<close>

lemma width_start:
  assumes "d < 10" and "fmtBeforeDecimal f < 0" and "fmtAfterDecimal f < 0"
  shows "otherFmtChar tx (decimal d) f args w
    = Ret (pfState_otherFmtChar, f\<lparr>fmtBeforeDecimal := int d\<rparr>, args, w)"
  using assms decimal_char [OF assms(1)] by (simp add: otherFmtChar_def int_value_def)

text \<open>The flags of a directive, with the width \<open>-1\<close> when it has none.\<close>

definition fmt_with :: "bool \<Rightarrow> int \<Rightarrow> char \<Rightarrow> fmt_flags" where
  "fmt_with zero before c = \<lparr>fmtLeadingZero = zero, fmtLong = False, fmtBeforeDecimal = before, fmtAfterDecimal = - 1,
     fmtBase = (if c = CHR ''o'' then 8 else if c \<in> set ''xX'' then 16 else 10),
     fmtSigned = (c \<in> set ''di''), fmtCase = (c = CHR ''X'')\<rparr>"

definition fmt_of :: "bool \<Rightarrow> nat \<Rightarrow> char \<Rightarrow> fmt_flags" where
  "fmt_of zero n c = fmt_with zero (int n) c"

lemma first_digit:
  assumes "0 < n"
  obtains d ds where "radix 10 n = d # ds" and "0 < d" and "d < 10" and "\<forall>e \<in> set ds. e < 10"
    and "foldl (\<lambda>a d. a * 10 + d) d ds = n"
proof -
  obtain j where j: "10 ^ j \<le> n" "n < 10 ^ Suc j" using radix_place [of 10 n] assms by auto
  let ?ds = "map (\<lambda>i. n div 10 ^ i mod 10) (rev [0..<j])"
  have top: "n div 10 ^ j < 10" "0 < n div 10 ^ j"
    using j by (simp_all add: div_greater_zero_iff less_mult_imp_div_less mult.commute)
  then have r: "radix 10 n = n div 10 ^ j # ?ds" using radix_digits [of 10 j n] j by simp
  have "foldl (\<lambda>a d. a * 10 + d) 0 (radix 10 n) = n" by (rule radix_value) simp
  then have "foldl (\<lambda>a d. a * 10 + d) (n div 10 ^ j) ?ds = n" unfolding r by simp
  then show thesis using that [OF r top(2,1)] by simp
qed

lemma run_append: "log_run tx (cs @ ds) x = seq (log_run tx cs x) (log_run tx ds)"
  by (induction cs arbitrary: x) (auto simp: seq_assoc intro!: seq_same)

definition number_format :: "bool \<Rightarrow> nat \<Rightarrow> char \<Rightarrow> string" where
  "number_format zero n c = CHR ''%'' # (if zero then ''0'' else []) @ map decimal (radix 10 n) @ [c]"

lemma letter_prints:
  assumes "c \<in> set ''diuoxX''" and "- 1 \<le> before" and "before < 2147483648"
    and "f = fmt_reset\<lparr>fmtLeadingZero := zero, fmtBeforeDecimal := before\<rparr>"
  shows "\<exists>g. otherFmtChar tx c f (Int_arg v # args) w
    = seq (send tx (layout (fmt_with zero before c) v) w) (\<lambda>w. Ret (pfState_chars, g, args, w))"
proof -
  have "fmt_with zero before c = (if c = CHR ''u'' then f\<lparr>fmtSigned := False\<rparr>
       else if c = CHR ''o'' then f\<lparr>fmtSigned := False, fmtBase := 8\<rparr>
       else if c = CHR ''x'' then f\<lparr>fmtSigned := False, fmtBase := 16\<rparr>
       else if c = CHR ''X'' then f\<lparr>fmtSigned := False, fmtBase := 16, fmtCase := True\<rparr> else f)"
    using assms(1,4) by (auto simp: fmt_with_def fmt_reset_def)
  moreover obtain g where "doIntegerPrint tx (fmt_with zero before c) v w
      = seq (send tx (layout (fmt_with zero before c) v) w) (\<lambda>w. Ret (g, w))"
  proof -
    have "2 \<le> unat (fmtBase (fmt_with zero before c))" "unat (fmtBase (fmt_with zero before c)) \<le> 16"
        "- 1 \<le> fmtBeforeDecimal (fmt_with zero before c)" "fmtBeforeDecimal (fmt_with zero before c) < 2147483648"
      using assms(2,3) by (simp_all add: fmt_with_def)
    from doIntegerPrint_sends [OF this, of tx v w] that show thesis by blast
  qed
  ultimately show ?thesis
    using assms(1) by (intro exI [of _ g]) (auto simp: otherFmtChar_def log_letter_def seq_assoc)
qed

text \<open>What a number directive with a width puts out, whatever the output.\<close>

lemma number_run:
  assumes "c \<in> set ''diuoxX''" and "0 < n" and "n < 2147483648"
  shows "\<exists>g. log_run tx (number_format zero n c) (pfState_chars, f, Int_arg v # args, w)
    = seq (send tx (layout (fmt_of zero n c) v) w) (\<lambda>w. Ret (pfState_chars, g, args, w))"
proof -
  obtain d ds where r: "radix 10 n = d # ds" "0 < d" "d < 10" "\<forall>e \<in> set ds. e < 10"
      "foldl (\<lambda>a d. a * 10 + d) d ds = n"
    using first_digit [OF assms(2)] by blast
  let ?f = "fmt_reset\<lparr>fmtLeadingZero := zero\<rparr>" and ?args = "Int_arg v # args"
  have "decimal d \<noteq> CHR ''0''" using decimal_char [OF r(3)] r(2) by auto
  then have start: "log_run tx (CHR ''%'' # (if zero then ''0'' else []) @ [decimal d]) (pfState_chars, f, ?args, w)
      = Ret (pfState_otherFmtChar, ?f\<lparr>fmtBeforeDecimal := int d\<rparr>, ?args, w)"
    using decimal_char [OF r(3)] by (simp add: log_step_def fmt_reset_def width_start [OF r(3)])
  have width: "log_run tx (map decimal ds) (pfState_otherFmtChar, ?f\<lparr>fmtBeforeDecimal := int d\<rparr>, ?args, w)
      = Ret (pfState_otherFmtChar, ?f\<lparr>fmtBeforeDecimal := int n\<rparr>, ?args, w)"
    using width_run [of ds d ?f] r(4,5) assms(3) by (simp add: fmt_reset_def)
  obtain g where letter: "otherFmtChar tx c (?f\<lparr>fmtBeforeDecimal := int n\<rparr>) ?args w
    = seq (send tx (layout (fmt_of zero n c) v) w) (\<lambda>w. Ret (pfState_chars, g, args, w))"
    using letter_prints [OF assms(1) _ _ refl, of "int n" tx zero v args w] assms(3) unfolding fmt_of_def by auto
  have "number_format zero n c = (CHR ''%'' # (if zero then ''0'' else []) @ [decimal d]) @ map decimal ds @ [c]"
    by (simp add: number_format_def r(1))
  then show ?thesis
    by (intro exI [of _ g], simp only: run_append start width seq.simps)
      (simp add: log_step_def letter seq_assoc)
qed

lemma number_printed:
  assumes "c \<in> set ''diuoxX''" and "0 < n" and "n < 2147483648"
  shows "alt_log_private_printf tx (number_format zero n c) [Int_arg v] w
    = send tx (layout (fmt_of zero n c) v) w"
proof -
  obtain g where "log_run tx (number_format zero n c) (pfState_chars, fmt_reset, [Int_arg v], w)
    = seq (send tx (layout (fmt_of zero n c) v) w) (\<lambda>w. Ret (pfState_chars, g, [], w))"
    using number_run [OF assms, of tx zero fmt_reset v "[]" w] by blast
  then show ?thesis by (simp add: alt_log_private_printf_def seq_assoc)
qed

section \<open>Properties\<close>

text \<open>A UART that is always ready for a character.\<close>

definition log_uart_ready :: "device \<Rightarrow> u32 \<Rightarrow> bool" where
  "log_uart_ready dev base = (\<forall>t. dev t (reg_address base 2) AND LOG_STATUS_TRDY_MSK \<noteq> 0)"

lemma txchar_ready:
  assumes "log_uart_ready dev base"
  shows "\<exists>t'. send (alt_log_txchar dev base) cs t = Ret t'
    \<and> bus_writes base t' = bus_writes base t @ map (Pair 1) cs"
proof (induction cs arbitrary: t)
  case (Cons c cs)
  let ?t = "IOWR base 1 c (snd (IORD dev base 2 t))"
  have "alt_log_txchar dev base c t = Ret ?t"
    using assms unfolding alt_log_txchar_def log_uart_ready_def
    by (subst loop_unfold) (simp add: IORD_def Let_def)
  moreover have "bus_writes base ?t = bus_writes base t @ [(1, c)]" by (simp add: IORD_def Let_def)
  ultimately show ?case using Cons.IH [of ?t] by auto
qed simp

text \<open>With a UART that is ready, a number directive with a width writes to the transmit register, in order, the sign
  and digits of its argument in the base of its letter, filled up to the width.\<close>

lemma log_number_is_sent:
  assumes "log_uart_ready dev base" and "c \<in> set ''diuoxX''" and "0 < n" and "n < 2147483648"
  shows "\<exists>t'. alt_log_printf_proc (alt_log_txchar dev base) (number_format zero n c) [Int_arg v] t = Ret (0, t')
    \<and> bus_writes base t' = bus_writes base t @ map (Pair 1) (layout (fmt_of zero n c) v)"
  using txchar_ready [OF assms(1), of "layout (fmt_of zero n c) v" t]
  by (auto simp: alt_log_printf_proc_def number_printed [OF assms(2-4)])

lemma log_number_is_sent_witness:
  "\<exists>t'. alt_log_printf_proc (alt_log_txchar (\<lambda>t a. 0x60) 0x9000) ''%05d'' [Int_arg (- 42)] [] = Ret (0, t')
    \<and> bus_writes 0x9000 t' = map (\<lambda>c. (1, of_char c)) ''-0042''"
proof -
  have "number_format True 5 (CHR ''d'') = ''%05d''"
    by (simp add: number_format_def radix.simps decimal_def)
  moreover have "map (Pair (1 :: nat)) (layout (fmt_of True 5 (CHR ''d'')) (- 42)) = map (\<lambda>c. (1, of_char c)) ''-0042''"
    by (simp add: layout_def fmt_of_def fmt_with_def negative_def magnitude_def digit_texts_def radix.simps char_int_def)
      (simp add: numeral_2_eq_2)
  ultimately show ?thesis
    using log_number_is_sent [of "\<lambda>t a. 0x60" "0x9000" "CHR ''d''" 5 True "- 42" "[]"]
    by (simp add: log_uart_ready_def LOG_STATUS_TRDY_MSK_def)
qed

end
