(* ===== verification/Log_Text.thy ===== *)
theory Log_Text
  imports Log_Printf
begin

text \<open>
  What a whole format of the boot log stands for.  A format is put together from items, plain characters and directives;
  \<open>items_text\<close> is the text, as the characters sent, that they and the arguments stand for.  It applies to the reports on a JTAG
  UART (\<open>alt_log_printf.c\<close>), which are the boot log's longest formats, and to the levels of logging of \<open>alt_log_printf.h\<close>.
\<close>

section \<open>Formats\<close>

datatype log_item =
  Plain char
| Percent
| Number bool "nat option" char
| Char_item
| Text_item

fun item_format :: "log_item \<Rightarrow> string" where
  "item_format (Plain c) = [c]"
| "item_format Percent = ''%%''"
| "item_format (Number zero None c) = CHR ''%'' # (if zero then ''0'' else []) @ [c]"
| "item_format (Number zero (Some n) c) = number_format zero n c"
| "item_format Char_item = ''%c''"
| "item_format Text_item = ''%s''"

fun item_ok :: "log_item \<Rightarrow> bool" where
  "item_ok (Plain c) = (c \<noteq> CHR ''%'')"
| "item_ok (Number zero None c) = (c \<in> set ''diuoxX'')"
| "item_ok (Number zero (Some n) c) = (c \<in> set ''diuoxX'' \<and> 0 < n \<and> n < 2147483648)"
| "item_ok _ = True"

definition width :: "nat option \<Rightarrow> int" where
  "width n = (case n of None \<Rightarrow> - 1 | Some n \<Rightarrow> int n)"

text \<open>The characters of one item, and the arguments that are left.\<close>

fun item_text :: "log_item \<Rightarrow> arg list \<Rightarrow> (u32 list \<times> arg list) option" where
  "item_text (Plain c) args = Some ([char_int c], args)"
| "item_text Percent args = Some ([char_int (CHR ''%'')], args)"
| "item_text (Number zero n c) (Int_arg v # args) = Some (layout (fmt_with zero (width n) c) v, args)"
| "item_text Char_item (Int_arg v # args) = Some ([v], args)"
| "item_text Text_item (Str_arg s # args) = (if length s < 2147483647 then Some (map char_int s, args) else None)"
| "item_text _ _ = None"

fun items_text :: "log_item list \<Rightarrow> arg list \<Rightarrow> u32 list option" where
  "items_text [] args = Some []"
| "items_text (it # its) args =
     (case item_text it args of None \<Rightarrow> None | Some (cs, args) \<Rightarrow> map_option ((@) cs) (items_text its args))"

section \<open>The formatter sends them\<close>

lemma log_string_sends: "log_string tx s w = send tx (map char_int s) w"
  by (induction s arbitrary: w) (auto intro!: seq_same)

lemma repchar_none: "r \<le> 0 \<Longrightarrow> alt_log_repchar tx c r w = Ret w"
  by (simp add: repchar_sends)

lemma text_pad:
  assumes "n < 2147483647"
  shows "sint (word_of_int (- 1) - word_of_nat n :: u32) \<le> 0"
proof -
  have "word_of_int (- 1) - word_of_nat n = (word_of_int (- 1 - int n) :: u32)" by simp
  moreover have "sint (word_of_int (- 1 - int n) :: u32) = - 1 - int n"
    using assms by (intro sint_word_of_int) simp_all
  ultimately show ?thesis by simp
qed

lemma log_run_Nil: "log_run tx [] = Ret"
  by (rule ext) simp

text \<open>Every item goes from plain characters to plain characters.\<close>

lemma item_run:
  assumes "item_ok it" and "item_text it args = Some (cs, rest)"
  shows "\<exists>g. log_run tx (item_format it) (pfState_chars, f, args, w)
    = seq (send tx cs w) (\<lambda>w. Ret (pfState_chars, g, rest, w))"
proof (cases it)
  case (Plain c)
  then show ?thesis using assms by (auto simp: log_step_def seq_assoc)
next
  case Percent
  then show ?thesis using assms by (auto simp: log_step_def seq_assoc)
next
  case (Number zero n c)
  then obtain v where v: "args = Int_arg v # rest" "cs = layout (fmt_with zero (width n) c) v"
    using assms(2) by (cases args; cases "hd args") auto
  show ?thesis
  proof (cases n)
    case None
    let ?f = "fmt_reset\<lparr>fmtLeadingZero := zero, fmtBeforeDecimal := - 1\<rparr>"
    have c: "c \<in> set ''diuoxX''" using assms(1) Number None by simp
    have f: "fmt_reset\<lparr>fmtLeadingZero := zero\<rparr> = ?f" by (simp add: fmt_reset_def)
    obtain g where g: "otherFmtChar tx c ?f (Int_arg v # rest) w
        = seq (send tx (layout (fmt_with zero (- 1) c) v) w) (\<lambda>w. Ret (pfState_chars, g, rest, w))"
      using letter_prints [OF c _ _ refl, of "- 1" tx zero v rest w] by auto
    have "c \<noteq> CHR ''0''" "c \<noteq> CHR ''%''" using c by auto
    then have "log_run tx (item_format it) (pfState_chars, f, args, w) = otherFmtChar tx c ?f (Int_arg v # rest) w"
      using Number None v(1) f by (cases zero) (simp_all add: log_step_def fmt_reset_def log_run_Nil del: log_run.simps(1))
    then show ?thesis using g v(2) None by (auto simp: width_def)
  next
    case (Some k)
    then show ?thesis
      using number_run [of c k tx zero f v rest w] assms(1) Number v by (simp add: width_def fmt_of_def)
  qed
next
  case Char_item
  then obtain v where "args = Int_arg v # rest" "cs = [v]" using assms(2) by (cases args; cases "hd args") auto
  then show ?thesis
    using Char_item by (auto simp: log_step_def otherFmtChar_def log_letter_def fmt_reset_def int_value_def repchar_none
        seq_assoc)
next
  case Text_item
  then obtain s where s: "args = Str_arg s # rest" "cs = map char_int s" "length s < 2147483647"
    using assms(2) by (cases args; cases "hd args") (auto split: if_splits)
  then show ?thesis
    using Text_item text_pad [OF s(3)]
    by (auto simp: log_step_def otherFmtChar_def log_letter_def fmt_reset_def repchar_none log_string_sends seq_assoc)
qed

lemma items_run:
  assumes "list_all item_ok its" and "items_text its args = Some cs"
  shows "seq (log_run tx (concat (map item_format its)) (pfState_chars, f, args, w)) (\<lambda>(st, f, args, w). Ret w)
    = send tx cs w"
  using assms
proof (induction its arbitrary: f args cs w)
  case (Cons it its)
  then obtain ds rest es where it: "item_text it args = Some (ds, rest)" "items_text its rest = Some es" "cs = ds @ es"
    by (auto split: option.splits prod.splits)
  obtain g where g: "log_run tx (item_format it) (pfState_chars, f, args, w)
      = seq (send tx ds w) (\<lambda>w. Ret (pfState_chars, g, rest, w))"
    using item_run [of it args ds rest tx f w] Cons.prems(1) it(1) by auto
  have "seq (log_run tx (concat (map item_format its)) (pfState_chars, g, rest, w)) (\<lambda>(st, f, args, w). Ret w)
      = send tx es w" for w
    using Cons.IH [OF _ it(2)] Cons.prems(1) by simp
  then show ?case by (simp add: run_append g seq_assoc it(3) send_append)
qed simp

lemma items_printed:
  assumes "list_all item_ok its" and "items_text its args = Some cs"
  shows "alt_log_printf_proc tx (concat (map item_format its)) args w = seq (send tx cs w) (\<lambda>w. Ret (0, w))"
  using items_run [OF assms, of tx fmt_reset w]
  by (simp add: alt_log_printf_proc_def alt_log_private_printf_def)

section \<open>Levels of logging\<close>

text \<open>The flags by default, from \<open>ALT_LOG_FLAGS\<close> if it is defined, and whether the system has a JTAG UART.\<close>

definition ALT_LOG_BOOT_ON_FLAG_SETTING :: "int option \<Rightarrow> bool" where
  "ALT_LOG_BOOT_ON_FLAG_SETTING level =
     (if level = Some 1 then True else if level = Some 2 then True else if level = Some 3 then True
      else if level = Some (- 1) then False else True)"

definition ALT_LOG_SYS_CLK_ON_FLAG_SETTING :: "int option \<Rightarrow> bool" where
  "ALT_LOG_SYS_CLK_ON_FLAG_SETTING level =
     (if level = Some 1 then True else if level = Some 2 then True else if level = Some 3 then True
      else if level = Some (- 1) then False else False)"

definition ALT_LOG_WRITE_ON_FLAG_SETTING :: "int option \<Rightarrow> bool" where
  "ALT_LOG_WRITE_ON_FLAG_SETTING level =
     (if level = Some 1 then False else if level = Some 2 then True else if level = Some 3 then True
      else if level = Some (- 1) then False else False)"

definition ALT_LOG_JTAG_UART_ALARM_ON_FLAG_SETTING :: "bool \<Rightarrow> int option \<Rightarrow> bool" where
  "ALT_LOG_JTAG_UART_ALARM_ON_FLAG_SETTING jtag level =
     (if \<not> jtag then False
      else if level = Some 1 then False else if level = Some 2 then True else if level = Some 3 then True
      else if level = Some (- 1) then False else False)"

definition ALT_LOG_JTAG_UART_STARTUP_INFO_ON_FLAG_SETTING :: "bool \<Rightarrow> int option \<Rightarrow> bool" where
  "ALT_LOG_JTAG_UART_STARTUP_INFO_ON_FLAG_SETTING jtag level =
     (if \<not> jtag then False
      else if level = Some 1 then True else if level = Some 2 then True else if level = Some 3 then True
      else if level = Some (- 1) then False else False)"

definition ALT_LOG_JTAG_UART_ISR_ON_FLAG_SETTING :: "bool \<Rightarrow> int option \<Rightarrow> bool" where
  "ALT_LOG_JTAG_UART_ISR_ON_FLAG_SETTING jtag level =
     (if \<not> jtag then False
      else if level = Some 1 then False else if level = Some 2 then False else if level = Some 3 then True
      else if level = Some (- 1) then False else False)"

lemmas setting_defs = ALT_LOG_BOOT_ON_FLAG_SETTING_def ALT_LOG_SYS_CLK_ON_FLAG_SETTING_def
  ALT_LOG_WRITE_ON_FLAG_SETTING_def ALT_LOG_JTAG_UART_ALARM_ON_FLAG_SETTING_def
  ALT_LOG_JTAG_UART_STARTUP_INFO_ON_FLAG_SETTING_def ALT_LOG_JTAG_UART_ISR_ON_FLAG_SETTING_def

text \<open>The six flags at a level; the level \<open>-1\<close> is silent, and from one to three each level logs what the one before does.\<close>

definition log_flags :: "bool \<Rightarrow> int option \<Rightarrow> bool list" where
  "log_flags jtag level =
     [ALT_LOG_BOOT_ON_FLAG_SETTING level, ALT_LOG_SYS_CLK_ON_FLAG_SETTING level, ALT_LOG_WRITE_ON_FLAG_SETTING level,
      ALT_LOG_JTAG_UART_ALARM_ON_FLAG_SETTING jtag level, ALT_LOG_JTAG_UART_STARTUP_INFO_ON_FLAG_SETTING jtag level,
      ALT_LOG_JTAG_UART_ISR_ON_FLAG_SETTING jtag level]"

lemma silent_level: "log_flags jtag (Some (- 1)) = replicate 6 False"
  by (simp add: log_flags_def setting_defs eval_nat_numeral)

lemma levels_increase:
  "list_all2 (\<longrightarrow>) (log_flags jtag None) (log_flags jtag (Some 1))"
  "list_all2 (\<longrightarrow>) (log_flags jtag (Some 1)) (log_flags jtag (Some 2))"
  "list_all2 (\<longrightarrow>) (log_flags jtag (Some 2)) (log_flags jtag (Some 3))"
  by (simp_all add: log_flags_def setting_defs)

definition ALT_LOG_PRINT_BOOT :: "'w tx \<Rightarrow> u32 \<Rightarrow> string \<Rightarrow> arg list \<Rightarrow> 'w \<Rightarrow> 'w outcome" where
  "ALT_LOG_PRINT_BOOT tx alt_log_boot_on_flag fmt args w =
     (if alt_log_boot_on_flag = 1 then seq (alt_log_printf_proc tx fmt args w) (\<lambda>(rc, w). Ret w) else Ret w)"

section \<open>The reports on a JTAG UART\<close>

text \<open>
  The driver of the JTAG UART is not part of the repository: the layout of its control register, a mask and an offset for each field and
  the number of the register, is a parameter, and of its state the log reads the base and the two ends of the transmit buffer.
\<close>

record field =
  msk :: u32
  ofst :: nat

record jtag_layout =
  control_reg :: nat
  wspace :: field
  we_field :: field
  re_field :: field
  ri_field :: field
  wi_field :: field
  ac_field :: field

record altera_avalon_jtag_uart_state =
  jtag_base :: u32
  jtag_tx_in :: u32
  jtag_tx_out :: u32

definition field_of :: "field \<Rightarrow> u32 \<Rightarrow> u32" where
  "field_of f control = drop_bit (ofst f) (control AND msk f)"

text \<open>The driver is the small one or the one with a buffer.\<close>

definition jtag_format :: "bool \<Rightarrow> string" where
  "jtag_format small =
     (if small then ''%s HW FIFO wspace=%d AC=%d WI=%d RI=%d WE=%d RE=%d''
      else ''%s SW CirBuf = %d, HW FIFO wspace=%d AC=%d WI=%d RI=%d WE=%d RE=%d'') @ [CHR 0x0D, CHR 0x0A]"

definition alt_log_jtag_uart_print_control_reg ::
    "trace tx \<Rightarrow> device \<Rightarrow> jtag_layout \<Rightarrow> bool \<Rightarrow> altera_avalon_jtag_uart_state \<Rightarrow> u32 \<Rightarrow> string \<Rightarrow> trace \<Rightarrow> trace outcome" where
  "alt_log_jtag_uart_print_control_reg tx dev l small st base header t =
     (let (control, t) = IORD dev base (control_reg l) t;
          fields = [field_of (wspace l) control, field_of (ac_field l) control, field_of (wi_field l) control,
            field_of (ri_field l) control, field_of (we_field l) control, field_of (re_field l) control];
          args = (if small then fields else (jtag_tx_out st - jtag_tx_in st) # fields)
      in seq (alt_log_printf_proc tx (jtag_format small) (Str_arg header # map Int_arg args) t) (\<lambda>(rc, t). Ret t))"

text \<open>The callback of the alarm: the number of ticks to its next call, a tenth of a second by default, or none.\<close>

definition ALT_LOG_JTAG_UART_TICKS :: "u32 \<Rightarrow> u32" where
  "ALT_LOG_JTAG_UART_TICKS ticks_per_second = ticks_per_second div 10"

definition altera_avalon_jtag_uart_report_log ::
    "trace tx \<Rightarrow> device \<Rightarrow> jtag_layout \<Rightarrow> bool \<Rightarrow> u32 \<Rightarrow> bool \<Rightarrow> altera_avalon_jtag_uart_state \<Rightarrow> trace
       \<Rightarrow> (u32 \<times> trace) outcome" where
  "altera_avalon_jtag_uart_report_log tx dev l small ticks_per_second on_flag st t =
     (if on_flag then
        seq (alt_log_jtag_uart_print_control_reg tx dev l small st (jtag_base st) ''JTAG Alarm:'' t) (\<lambda>t.
        Ret (ALT_LOG_JTAG_UART_TICKS ticks_per_second, t))
      else Ret (0, t))"

definition alt_log_jtag_uart_startup_info ::
    "trace tx \<Rightarrow> device \<Rightarrow> jtag_layout \<Rightarrow> bool \<Rightarrow> altera_avalon_jtag_uart_state \<Rightarrow> u32 \<Rightarrow> trace \<Rightarrow> trace outcome" where
  "alt_log_jtag_uart_startup_info tx dev l small st base =
     alt_log_jtag_uart_print_control_reg tx dev l small st base ''JTAG Startup Info:''"

definition alt_log_jtag_uart_isr_proc ::
    "trace tx \<Rightarrow> device \<Rightarrow> jtag_layout \<Rightarrow> bool \<Rightarrow> bool \<Rightarrow> u32 \<Rightarrow> altera_avalon_jtag_uart_state \<Rightarrow> trace \<Rightarrow> trace outcome" where
  "alt_log_jtag_uart_isr_proc tx dev l small on_flag base st t =
     (if on_flag then alt_log_jtag_uart_print_control_reg tx dev l small st base ''JTAG IRQ:'' t else Ret t)"

definition plain :: "string \<Rightarrow> log_item list" where
  "plain s = map Plain s"

definition jtag_items :: "bool \<Rightarrow> log_item list" where
  "jtag_items small =
     (let d = Number False None (CHR ''d'') in
      [Text_item] @ (if small then plain '' HW FIFO wspace='' else plain '' SW CirBuf = '' @ [d] @ plain '', HW FIFO wspace='')
      @ [d] @ plain '' AC='' @ [d] @ plain '' WI='' @ [d] @ plain '' RI='' @ [d] @ plain '' WE='' @ [d] @ plain '' RE='' @ [d]
      @ plain [CHR 0x0D, CHR 0x0A])"

lemma jtag_items_format: "concat (map item_format (jtag_items small)) = jtag_format small"
  by (simp add: jtag_items_def jtag_format_def plain_def Let_def)

lemma jtag_items_ok: "list_all item_ok (jtag_items small)"
  by (simp add: jtag_items_def plain_def Let_def)

text \<open>A number without a width, and the text of a report.\<close>

definition decimal_text :: "u32 \<Rightarrow> u32 list" where
  "decimal_text v = layout (fmt_with False (- 1) (CHR ''d'')) v"

definition report_text :: "bool \<Rightarrow> jtag_layout \<Rightarrow> altera_avalon_jtag_uart_state \<Rightarrow> u32 \<Rightarrow> string \<Rightarrow> u32 list" where
  "report_text small l st control header =
     map char_int header
     @ (if small then map char_int '' HW FIFO wspace=''
        else map char_int '' SW CirBuf = '' @ decimal_text (jtag_tx_out st - jtag_tx_in st) @ map char_int '', HW FIFO wspace='')
     @ decimal_text (field_of (wspace l) control) @ map char_int '' AC='' @ decimal_text (field_of (ac_field l) control)
     @ map char_int '' WI='' @ decimal_text (field_of (wi_field l) control)
     @ map char_int '' RI='' @ decimal_text (field_of (ri_field l) control)
     @ map char_int '' WE='' @ decimal_text (field_of (we_field l) control)
     @ map char_int '' RE='' @ decimal_text (field_of (re_field l) control) @ map char_int [CHR 0x0D, CHR 0x0A]"

lemma plain_text: "items_text (plain s @ its) args = map_option ((@) (map char_int s)) (items_text its args)"
  by (induction s) (simp_all add: plain_def option.map_comp option.map_ident o_def)

text \<open>A report reads the control register once and sends its fields with their names.\<close>

lemma report_is_sent:
  assumes "length header < 2147483647"
  shows "alt_log_jtag_uart_print_control_reg tx dev l small st base header t
    = (let (control, t) = IORD dev base (control_reg l) t in send tx (report_text small l st control header) t)"
proof -
  obtain control u where c: "IORD dev base (control_reg l) t = (control, u)" by force
  let ?fs = "[field_of (wspace l) control, field_of (ac_field l) control, field_of (wi_field l) control,
    field_of (ri_field l) control, field_of (we_field l) control, field_of (re_field l) control]"
  have "items_text (jtag_items small) (Str_arg header # map Int_arg (if small then ?fs else (jtag_tx_out st - jtag_tx_in st) # ?fs))
      = Some (report_text small l st control header)"
    using assms by (cases small)
      (simp_all add: jtag_items_def plain_text plain_text [of _ "[]", simplified] report_text_def decimal_text_def width_def Let_def)
  from items_printed [OF jtag_items_ok this, of tx u] show ?thesis
    by (simp add: alt_log_jtag_uart_print_control_reg_def c jtag_items_format seq_assoc Let_def)
qed

section \<open>Properties\<close>

text \<open>Property C38. With a UART that is ready, the boot log's \<open>printf\<close> writes to the transmit register, in order, exactly the text that its
  format and arguments stand for: plain characters, strings, characters and numbers in every base, with a width or without.\<close>

theorem log_text_is_sent:
  assumes "log_uart_ready dev base" and "list_all item_ok its" and "items_text its args = Some cs"
  shows "\<exists>t'. alt_log_printf_proc (alt_log_txchar dev base) (concat (map item_format its)) args t = Ret (0, t')
    \<and> bus_writes base t' = bus_writes base t @ map (Pair 1) cs"
  using txchar_ready [OF assms(1), of cs t] by (auto simp: items_printed [OF assms(2,3)])

lemma log_text_is_sent_witness:
  "\<exists>t'. alt_log_printf_proc (alt_log_txchar (\<lambda>t a. 0x60) 0x9000) ''n=%03u%%'' [Int_arg 7] [] = Ret (0, t')
    \<and> bus_writes 0x9000 t' = map (\<lambda>c. (1, of_char c)) ''n=007%''"
proof -
  let ?its = "plain ''n='' @ [Number True (Some 3) (CHR ''u''), Percent]"
  have "concat (map item_format ?its) = ''n=%03u%%''"
    by (simp add: plain_def number_format_def radix.simps decimal_def)
  moreover have "items_text ?its [Int_arg 7] = Some (map of_char ''n=007%'')"
    by (simp add: plain_text width_def layout_def fmt_with_def negative_def magnitude_def digit_texts_def radix.simps char_int_def)
      (simp add: eval_nat_numeral)
  ultimately show ?thesis
    using log_text_is_sent [of "\<lambda>t a. 0x60" "0x9000" ?its "[Int_arg 7]" "map of_char ''n=007%''" "[]"]
    by (simp add: log_uart_ready_def LOG_STATUS_TRDY_MSK_def plain_def)
qed

end
