(* ===== verification/Log_Jtag.thy ===== *)
theory Log_Jtag
  imports Log_Text Alarms
begin

text \<open>
  The boot log together with the system clock (\<open>alt_log_printf.h\<close>): an alarm prints the state of the JTAG UART every tenth of a second.
  Also the log on a JTAG UART instead of a UART (\<open>ALT_LOG_PORT_TYPE\<close>).
\<close>

section \<open>The log on a JTAG UART\<close>

text \<open>A character is sent when there is space for it; \<open>data_reg\<close> is the number of the data register.\<close>

definition alt_log_txchar_jtag :: "device \<Rightarrow> jtag_layout \<Rightarrow> nat \<Rightarrow> u32 \<Rightarrow> trace tx" where
  "alt_log_txchar_jtag dev l data_reg base c t = loop (\<lambda>t.
     let (control, t) = IORD dev base (control_reg l) t in
     if control AND msk (wspace l) = 0 then Ret (Again t) else Ret (Break (IOWR base data_reg c t))) t"

text \<open>When nobody reads at the other end and the buffer is full, the first character is never sent.\<close>

lemma jtag_log_hangs:
  assumes "\<forall>t. dev t (reg_address base (control_reg l)) AND msk (wspace l) = 0"
  shows "send (alt_log_txchar_jtag dev l data_reg base) (c # cs) t = Hang"
proof -
  have "alt_log_txchar_jtag dev l data_reg base c t = Hang"
    unfolding alt_log_txchar_jtag_def
    by (rule loop_hangs [where I = "\<lambda>_. True"]) (use assms in \<open>simp_all add: IORD_def Let_def\<close>)
  then show ?thesis by simp
qed

section \<open>Registration of the alarm\<close>

text \<open>
  \<open>report_log\<close> is the address of \<open>altera_avalon_jtag_uart_report_log\<close>, \<open>alarm_1\<close> is \<open>alt_log_jtag_uart_alarm_1\<close>, and \<open>context\<close> is the
  address of the state \<open>st\<close> of the driver.
\<close>

definition ALT_LOG_JTAG_UART_ALARM_REGISTER ::
    "trace tx \<Rightarrow> device \<Rightarrow> jtag_layout \<Rightarrow> bool \<Rightarrow> u8 \<Rightarrow> u8 \<Rightarrow> alarm_ref \<Rightarrow> u32 \<Rightarrow> u32 \<Rightarrow> altera_avalon_jtag_uart_state \<Rightarrow> u32
       \<Rightarrow> trace ticking \<Rightarrow> trace ticking outcome" where
  "ALT_LOG_JTAG_UART_ALARM_REGISTER tx dev l small alarm_on_flag startup_on_flag alarm_1 report_log ctx st base s =
     (let s = (if alarm_on_flag = 1
               then snd (alt_alarm_start (Some alarm_1) (ALT_LOG_JTAG_UART_TICKS (alt_ticks_per_second s)) report_log ctx s)
               else s)
      in if startup_on_flag = 1
         then seq (alt_log_jtag_uart_startup_info tx dev l small st base (world (system s))) (\<lambda>t.
              Ret (s\<lparr>system := (system s)\<lparr>world := t\<rparr>\<rparr>))
         else Ret s)"

section \<open>Periodic alarms\<close>

text \<open>How often an alarm that waits \<open>k\<close> ticks, and then \<open>n\<close> each time, is called in \<open>j\<close> ticks.\<close>

definition calls_in :: "nat \<Rightarrow> nat \<Rightarrow> nat \<Rightarrow> nat" where
  "calls_in n k j = (if j < k then 0 else Suc ((j - k) div n))"

lemma periodic:
  assumes "Alarms.plain calls g" and "n \<noteq> 0"
  shows "waiting s [(a, k)] \<Longrightarrow> \<forall>w. of_alarm g s a w = (n, f w)
    \<Longrightarrow> \<exists>t. ticks calls j s = Ret t \<and> world (system t) = (f ^^ calls_in (unat n) k j) (world (system s))"
proof (induction j arbitrary: s k)
  case 0
  then show ?case by (auto simp: calls_in_def waiting_def due_def)
next
  case (Suc j)
  have n: "0 < unat n" using assms(2) by (simp add: unat_gt_0)
  have k: "1 \<le> k" using Suc.prems(1) by (simp add: waiting_def due_def)
  obtain t where t: "alt_tick calls s = Ret t" "of_alarm g t = of_alarm g s"
      "waiting t (fst (countdown (of_alarm g s) [(a, k)] (world (system s))))"
      "world (system t) = snd (countdown (of_alarm g s) [(a, k)] (world (system s)))"
    using tick_waiting [OF Suc.prems(1) assms(1)] by auto
  show ?case
  proof (cases "k \<le> 1")
    case True
    then have "waiting t [(a, unat n)]" "world (system t) = f (world (system s))"
      using t(3,4) Suc.prems(2) assms(2) by simp_all
    moreover have "k = 1" using True k by simp
    then have "calls_in (unat n) k (Suc j) = Suc (calls_in (unat n) (unat n) j)"
      using n by (cases "j < unat n") (simp_all add: calls_in_def le_div_geq)
    ultimately show ?thesis
      using Suc.IH [of t "unat n"] t(1,2) Suc.prems(2) by (auto simp: funpow_swap1)
  next
    case False
    then have "waiting t [(a, k - 1)]" "world (system t) = world (system s)" using t(3,4) by simp_all
    moreover have "calls_in (unat n) k (Suc j) = calls_in (unat n) (k - 1) j" using False by (auto simp: calls_in_def)
    ultimately show ?thesis using Suc.IH [of t "k - 1"] t(1,2) Suc.prems(2) by auto
  qed
qed

section \<open>Reports in time\<close>

text \<open>The code at the address of the callback, and what it does to the trace.\<close>

definition jtag_calls ::
    "trace tx \<Rightarrow> device \<Rightarrow> jtag_layout \<Rightarrow> bool \<Rightarrow> u32 \<Rightarrow> (u32 \<Rightarrow> altera_avalon_jtag_uart_state) \<Rightarrow> trace calls" where
  "jtag_calls tx dev l small ticks_per_second states f ctx s =
     seq (altera_avalon_jtag_uart_report_log tx dev l small ticks_per_second True (states ctx) (world (system s))) (\<lambda>(n, t).
     Ret (n, s\<lparr>system := (system s)\<lparr>world := t\<rparr>\<rparr>))"

definition returned :: "'r outcome \<Rightarrow> 'r \<Rightarrow> 'r" where
  "returned out r = (case out of Ret x \<Rightarrow> x | _ \<Rightarrow> r)"

lemma report_written:
  assumes "log_uart_ready dev log" and "length header < 2147483647"
  shows "\<exists>u c. alt_log_jtag_uart_print_control_reg (alt_log_txchar dev log) dev l small st base header t = Ret u
    \<and> bus_writes log u = bus_writes log t @ map (Pair 1) (report_text small l st c header)"
proof -
  obtain c v where c: "IORD dev base (control_reg l) t = (c, v)" "bus_writes log v = bus_writes log t"
    by (simp add: IORD_def Let_def)
  then show ?thesis
    using txchar_ready [OF assms(1), of "report_text small l st c header" v]
    by (auto simp: report_is_sent [OF assms(2)])
qed

lemma report_log_returns:
  assumes "log_uart_ready dev log"
  shows "\<exists>u c. altera_avalon_jtag_uart_report_log (alt_log_txchar dev log) dev l small hz True st t
      = Ret (ALT_LOG_JTAG_UART_TICKS hz, u)
    \<and> bus_writes log u = bus_writes log t @ map (Pair 1) (report_text small l st c ''JTAG Alarm:'')"
  using report_written [OF assms, of "''JTAG Alarm:''" l small st "jtag_base st" t]
  by (auto simp: altera_avalon_jtag_uart_report_log_def)

lemma jtag_calls_plain:
  assumes "log_uart_ready dev log"
  shows "Alarms.plain (jtag_calls (alt_log_txchar dev log) dev l small hz states)
    (\<lambda>f ctx w. returned (altera_avalon_jtag_uart_report_log (alt_log_txchar dev log) dev l small hz True (states ctx) w) (0, w))"
  unfolding Alarms.plain_def
proof (intro allI)
  fix f ctx and s :: "trace ticking"
  show "jtag_calls (alt_log_txchar dev log) dev l small hz states f ctx s
      = (let (n, w) = returned (altera_avalon_jtag_uart_report_log (alt_log_txchar dev log) dev l small hz True (states ctx)
          (world (system s))) (0, world (system s)) in Ret (n, s\<lparr>system := (system s)\<lparr>world := w\<rparr>\<rparr>))"
    using report_log_returns [OF assms, of l small hz "states ctx" "world (system s)"]
    by (auto simp: jtag_calls_def returned_def)
qed

text \<open>Repeated reports.\<close>

lemma reports_written:
  assumes "\<And>w. \<exists>c. bus_writes log (f w) = bus_writes log w @ map (Pair 1) (text_of c)"
  shows "\<exists>cs. length cs = m \<and> bus_writes log ((f ^^ m) w) = bus_writes log w @ map (Pair 1) (concat (map text_of cs))"
proof (induction m)
  case (Suc m)
  then obtain cs where "length cs = m" "bus_writes log ((f ^^ m) w) = bus_writes log w @ map (Pair 1) (concat (map text_of cs))"
    by blast
  moreover obtain c where "bus_writes log (f ((f ^^ m) w)) = bus_writes log ((f ^^ m) w) @ map (Pair 1) (text_of c)"
    using assms by blast
  ultimately show ?case by (intro exI [of _ "cs @ [c]"]) simp
qed simp

text \<open>
  After registration with both flags set, a clock of \<open>hz\<close> ticks per second prints the state of the JTAG UART at once, and then at the ticks
  \<open>n + 1, 2 * n + 1, \<dots>\<close> for \<open>n = hz div 10\<close>: one report each, in full, and nothing else.
\<close>

lemma jtag_reports_in_time:
  fixes s :: "trace ticking"
  assumes "log_uart_ready dev log" and "waiting s []" and "10 \<le> tick_rate (system s)" and "report_log \<noteq> 0"
    and "alarm_1 \<noteq> alt_alarm_list" and "states ctx = st"
  defines "hz \<equiv> tick_rate (system s)"
  shows "\<exists>u t c cs.
    ALT_LOG_JTAG_UART_ALARM_REGISTER (alt_log_txchar dev log) dev l small 1 1 alarm_1 report_log ctx st base s = Ret u
    \<and> ticks (jtag_calls (alt_log_txchar dev log) dev l small hz states) j u = Ret t
    \<and> length cs = calls_in (unat (hz div 10)) (unat (hz div 10) + 1) j
    \<and> bus_writes log (world (system t)) = bus_writes log (world (system s))
      @ map (Pair 1) (report_text small l st c ''JTAG Startup Info:''
          @ concat (map (\<lambda>c. report_text small l st c ''JTAG Alarm:'') cs))"
proof -
  let ?tx = "alt_log_txchar dev log" and ?n = "hz div 10"
  let ?g = "\<lambda>f ctx w. returned (altera_avalon_jtag_uart_report_log ?tx dev l small hz True (states ctx) w) (0, w)"
  let ?f = "\<lambda>w. snd (?g report_log ctx w)"
  have tenth: "unat ?n = unat hz div 10" by (simp add: unat_div)
  have "10 \<le> unat hz" using assms(3) by (simp add: hz_def word_le_nat_alt)
  then have n: "?n \<noteq> 0" "unat ?n + 1 < 2 ^ 32"
    using tenth unat_u32_less [of hz] by (auto simp: unat_eq_zero [symmetric] simp del: unat_eq_zero)
  have rate: "tick_rate (system s) \<noteq> 0" using assms(3) by auto
  have step: "?g f ctx w = (?n, ?f w)" for f w
    using report_log_returns [OF assms(1), of l small hz st w] assms(6)
    by (auto simp: returned_def ALT_LOG_JTAG_UART_TICKS_def)
  obtain s0 where s0: "alt_alarm_start (Some alarm_1) ?n report_log ctx s = (0, s0)" "waiting s0 [(alarm_1, unat ?n + 1)]"
      "of_alarm ?g s0 alarm_1 = ?g report_log ctx" "world (system s0) = world (system s)"
    using start_registers [OF assms(2) _ assms(5) rate assms(4) n(2), of ctx] by auto
  obtain v c where v: "alt_log_jtag_uart_startup_info ?tx dev l small st base (world (system s)) = Ret v"
      "bus_writes log v = bus_writes log (world (system s)) @ map (Pair 1) (report_text small l st c ''JTAG Startup Info:'')"
    using report_written [OF assms(1), of "''JTAG Startup Info:''" l small st base "world (system s)"]
    by (auto simp: alt_log_jtag_uart_startup_info_def)
  let ?u = "s0\<lparr>system := (system s0)\<lparr>world := v\<rparr>\<rparr>"
  have start: "ALT_LOG_JTAG_UART_ALARM_REGISTER ?tx dev l small 1 1 alarm_1 report_log ctx st base s = Ret ?u"
    using s0(1,4) v(1) by (simp add: ALT_LOG_JTAG_UART_ALARM_REGISTER_def ALT_LOG_JTAG_UART_TICKS_def
        alt_ticks_per_second_def hz_def Let_def)
  have w: "waiting ?u [(alarm_1, unat ?n + 1)]" using s0(2) by (simp add: waiting_def)
  have of_u: "\<forall>w. of_alarm ?g ?u alarm_1 w = (?n, ?f w)"
    using s0(3) step by (simp add: of_alarm_def fun_eq_iff)
  obtain t where t: "ticks (jtag_calls ?tx dev l small hz states) j ?u = Ret t"
      "world (system t) = (?f ^^ calls_in (unat ?n) (unat ?n + 1) j) v"
    using periodic [OF jtag_calls_plain [OF assms(1), of l small hz states] n(1) w of_u, of j] by auto
  have "\<exists>c. bus_writes log (?f w) = bus_writes log w @ map (Pair 1) (report_text small l st c ''JTAG Alarm:'')" for w
    using report_log_returns [OF assms(1), of l small hz st w] assms(6) by (auto simp: returned_def)
  from reports_written [of log ?f, OF this, of "calls_in (unat ?n) (unat ?n + 1) j" v] start t v show ?thesis by auto
qed

end
