(* ===== verification/Files.thy ===== *)
theory Files
  imports Devices
begin

text \<open>
  The file descriptors of the HAL and its system calls (\<open>alt_dev.c\<close>, \<open>alt_get_fd.c\<close>, \<open>alt_open.c\<close>,
  \<open>alt_close.c\<close>, \<open>alt_read.c\<close>, \<open>alt_write.c\<close>, \<open>alt_lseek.c\<close>, \<open>alt_fstat.c\<close>, \<open>alt_ioctl.c\<close>,
  \<open>alt_isatty.c\<close>, \<open>alt_fcntl.c\<close>, \<open>alt_fd_lock.c\<close>, \<open>alt_fd_unlock.c\<close>, \<open>alt_io_redirect.c\<close>).

  \<open>'w files\<close> is their state: the table \<open>alt_fd_list\<close>, \<open>alt_max_fd\<close>, the device lists and \<open>errno\<close>, and the
  state \<open>'w\<close> of the device drivers (with the memory they are given pointers to).  A driver is a record of the
  functions it registers, each optional; it is given the descriptor and may change it.  The build is
  single threaded, so the semaphores are empty, and \<open>ALT_USE_DIRECT_DRIVERS\<close> is not set.
\<close>

section \<open>Descriptors and drivers\<close>

definition ALT_MAX_FD :: nat where "ALT_MAX_FD = 32"
definition ALT_FD_EXCL :: u32 where "ALT_FD_EXCL = 0x80000000"
definition ALT_FD_DEV :: u32 where "ALT_FD_DEV = 0x40000000"
definition ALT_FD_FLAGS_MASK :: u32 where "ALT_FD_FLAGS_MASK = ALT_FD_EXCL OR ALT_FD_DEV"

text \<open>newlib's \<open>fcntl.h\<close> and \<open>stat.h\<close>.\<close>

definition O_RDONLY :: u32 where "O_RDONLY = 0"
definition O_WRONLY :: u32 where "O_WRONLY = 1"
definition O_ACCMODE :: u32 where "O_ACCMODE = 3"
definition O_APPEND :: u32 where "O_APPEND = 0x8"
definition O_NONBLOCK :: u32 where "O_NONBLOCK = 0x4000"
definition F_GETFL :: int where "F_GETFL = 3"
definition F_SETFL :: int where "F_SETFL = 4"
definition IFCHR :: u32 where "IFCHR = 0x2000"

definition TIOCEXCL :: int where "TIOCEXCL = 0x740d"
definition TIOCNXCL :: int where "TIOCNXCL = 0x740e"
definition ALT_FCNTL_FLAGS_MASK :: u32 where "ALT_FCNTL_FLAGS_MASK = O_APPEND OR O_NONBLOCK"

record alt_fd =
  fd_dev :: "node option"
  fd_priv :: u32
  fd_flags :: u32

type_synonym 'w fd_op = "alt_fd \<Rightarrow> 'w \<Rightarrow> (int \<times> alt_fd \<times> 'w) outcome"
type_synonym 'w stat_op = "u32 \<Rightarrow> alt_fd \<Rightarrow> 'w \<Rightarrow> (int \<times> u32 \<times> alt_fd \<times> 'w) outcome"

record 'w alt_dev =
  dev_name :: "string option"
  dev_open :: "(string \<Rightarrow> u32 \<Rightarrow> u32 \<Rightarrow> 'w fd_op) option"
  dev_close :: "'w fd_op option"
  dev_read :: "(u32 \<Rightarrow> u32 \<Rightarrow> 'w fd_op) option"
  dev_write :: "(u32 \<Rightarrow> u32 \<Rightarrow> 'w fd_op) option"
  dev_lseek :: "(int \<Rightarrow> int \<Rightarrow> 'w fd_op) option"
  dev_fstat :: "'w stat_op option"
  dev_ioctl :: "(int \<Rightarrow> u32 \<Rightarrow> 'w fd_op) option"

record 'w files = hal +
  alt_fd_list :: "alt_fd list"
  alt_max_fd :: u32
  world :: 'w

definition alt_dev_null_write :: "u32 \<Rightarrow> u32 \<Rightarrow> 'w fd_op" where
  "alt_dev_null_write ptr len fd w = Ret (sint len, fd, w)"

definition alt_dev_null :: "'w alt_dev" where
  "alt_dev_null = \<lparr>dev_name = Some ''/dev/null'', dev_open = None, dev_close = None, dev_read = None,
     dev_write = Some alt_dev_null_write, dev_lseek = None, dev_fstat = None, dev_ioctl = None\<rparr>"

definition initial_files :: "'w \<Rightarrow> 'w files" where
  "initial_files w = \<lparr>links = initial_links, errno = 0,
     alt_fd_list = replicate 3 \<lparr>fd_dev = Some Null_device, fd_priv = 0, fd_flags = 0\<rparr>
       @ replicate (ALT_MAX_FD - 3) \<lparr>fd_dev = None, fd_priv = 0, fd_flags = 0\<rparr>,
     alt_max_fd = - 1, world = w\<rparr>"

section \<open>The pool of descriptors\<close>

text \<open>\<open>alt_fd_list[i]\<close>, and the driver of a descriptor.\<close>

definition fd_at :: "'w files \<Rightarrow> nat \<Rightarrow> alt_fd outcome" where
  "fd_at s i = (if i < length (alt_fd_list s) then Ret (alt_fd_list s ! i) else Undef)"

definition put_fd :: "nat \<Rightarrow> alt_fd \<Rightarrow> 'w files \<Rightarrow> 'w files" where
  "put_fd i fd s = s\<lparr>alt_fd_list := (alt_fd_list s)[i := fd]\<rparr>"

definition driver :: "(node \<Rightarrow> 'w alt_dev) \<Rightarrow> alt_fd \<Rightarrow> 'w alt_dev outcome" where
  "driver devs fd = (case fd_dev fd of None \<Rightarrow> Undef | Some d \<Rightarrow> Ret (devs d))"

definition call_driver :: "'w fd_op \<Rightarrow> nat \<Rightarrow> 'w files \<Rightarrow> (int \<times> 'w files) outcome" where
  "call_driver f i s =
     seq (fd_at s i) (\<lambda>fd.
     seq (f fd (world s)) (\<lambda>(rc, fd, w).
     Ret (rc, put_fd i fd (s\<lparr>world := w\<rparr>))))"

text \<open>\<open>rval < 0\<close>: \<open>errno\<close> gets the negated value and the call returns \<open>-1\<close>.\<close>

definition report :: "int \<times> 'w files \<Rightarrow> (int \<times> 'w files) outcome" where
  "report r = (if fst r < 0 then Ret (- 1, (snd r)\<lparr>errno := - fst r\<rparr>) else Ret r)"

definition fail :: "int \<Rightarrow> 'w files \<Rightarrow> (int \<times> 'w files) outcome" where
  "fail e s = Ret (- 1, s\<lparr>errno := e\<rparr>)"

definition alt_get_fd :: "node \<Rightarrow> 'w files \<Rightarrow> int \<times> 'w files" where
  "alt_get_fd d s =
     (case find (\<lambda>i. fd_dev (alt_fd_list s ! i) = None) [0..<ALT_MAX_FD] of
        None \<Rightarrow> (- EMFILE, s)
      | Some i \<Rightarrow>
          let s = put_fd i ((alt_fd_list s ! i)\<lparr>fd_dev := Some d\<rparr>) s;
              s = (if sint (alt_max_fd s) < int i then s\<lparr>alt_max_fd := of_nat i\<rparr> else s)
          in (int i, s))"

definition alt_release_fd :: "int \<Rightarrow> 'w files \<Rightarrow> 'w files outcome" where
  "alt_release_fd fd s =
     (if fd > 2 then
        seq (fd_at s (nat fd)) (\<lambda>e.
        Ret (put_fd (nat fd) (e\<lparr>fd_flags := 0, fd_dev := None\<rparr>) s))
      else Ret s)"

text \<open>\<open>for (; n > 0; i++, n--)\<close> over the table: is there another descriptor than \<open>k\<close> that satisfies \<open>P\<close>?\<close>

fun scan_fds :: "(alt_fd \<Rightarrow> bool) \<Rightarrow> nat \<Rightarrow> alt_fd list \<Rightarrow> nat \<Rightarrow> nat \<Rightarrow> bool outcome" where
  "scan_fds P k fds i 0 = Ret False"
| "scan_fds P k fds i (Suc n) =
     (if i < length fds then
        if P (fds ! i) \<and> i \<noteq> k then Ret True else scan_fds P k fds (Suc i) n
      else Undef)"

definition alt_fd_lock :: "nat \<Rightarrow> 'w files \<Rightarrow> (int \<times> 'w files) outcome" where
  "alt_fd_lock k s =
     seq (fd_at s k) (\<lambda>fd.
     seq (scan_fds (\<lambda>e. fd_dev e = fd_dev fd) k (alt_fd_list s) 0 (nat (sint (alt_max_fd s)))) (\<lambda>taken.
     if taken then Ret (- EACCES, s)
     else Ret (0, put_fd k (fd\<lparr>fd_flags := fd_flags fd OR ALT_FD_EXCL\<rparr>) s)))"

definition alt_fd_unlock :: "nat \<Rightarrow> 'w files \<Rightarrow> (int \<times> 'w files) outcome" where
  "alt_fd_unlock k s =
     seq (fd_at s k) (\<lambda>fd. Ret (0, put_fd k (fd\<lparr>fd_flags := fd_flags fd AND NOT ALT_FD_EXCL\<rparr>) s))"

section \<open>Open and close\<close>

text \<open>\<open>for (i = 0; i <= alt_max_fd; i++)\<close> compares unsigned.\<close>

definition alt_file_locked :: "nat \<Rightarrow> 'w files \<Rightarrow> (int \<times> 'w files) outcome" where
  "alt_file_locked k s =
     seq (fd_at s k) (\<lambda>fd.
     let fd = fd\<lparr>fd_flags := fd_flags fd OR ALT_FD_DEV\<rparr>;
         s = put_fd k fd s
     in seq (scan_fds (\<lambda>e. fd_dev e = fd_dev fd \<and> fd_flags e AND ALT_FD_EXCL \<noteq> 0) k (alt_fd_list s)
               0 (Suc (unat (alt_max_fd s)))) (\<lambda>locked.
        Ret (if locked then - EACCES else 0, s)))"

definition dev_names :: "(node \<Rightarrow> 'w alt_dev) \<Rightarrow> node \<Rightarrow> string option" where
  "dev_names devs d = dev_name (devs d)"

text \<open>\<open>alt_find_dev(file, &alt_dev_list)\<close>, then \<open>alt_find_file(file)\<close>, with \<open>isafs\<close>.\<close>

definition open_find :: "(node \<Rightarrow> 'w alt_dev) \<Rightarrow> string \<Rightarrow> 'w files \<Rightarrow> (node option \<times> bool) outcome" where
  "open_find devs file s =
     seq (alt_find_dev (dev_names devs) file alt_dev_list (links s)) (\<lambda>dev.
     if dev \<noteq> None then Ret (dev, False)
     else seq (alt_find_file (dev_names devs) file (links s)) (\<lambda>dev. Ret (dev, True)))"

definition open_fd ::
    "(node \<Rightarrow> 'w alt_dev) \<Rightarrow> node \<Rightarrow> bool \<Rightarrow> string \<Rightarrow> u32 \<Rightarrow> u32 \<Rightarrow> nat \<Rightarrow> 'w files \<Rightarrow> (int \<times> 'w files) outcome" where
  "open_fd devs d isafs file flags mode i s =
     seq (fd_at s i) (\<lambda>fd.
     let s = put_fd i (fd\<lparr>fd_flags := flags AND NOT ALT_FD_FLAGS_MASK\<rparr>) s in
     seq (if isafs then Ret (0, s) else alt_file_locked i s) (\<lambda>(status, s).
     if isafs \<or> status \<ge> 0 then
       (case dev_open (devs d) of
          None \<Rightarrow> Ret (0, s)
        | Some f \<Rightarrow> call_driver (f file flags mode) i s)
     else Ret (status, s)))"

definition ALT_OPEN ::
    "(node \<Rightarrow> 'w alt_dev) \<Rightarrow> string \<Rightarrow> u32 \<Rightarrow> u32 \<Rightarrow> 'w files \<Rightarrow> (int \<times> 'w files) outcome" where
  "ALT_OPEN devs file flags mode s =
     seq (open_find devs file s) (\<lambda>(dev, isafs).
     seq (case dev of
            None \<Rightarrow> Ret (- 1, - ENODEV, s)
          | Some d \<Rightarrow>
              let (index, s) = alt_get_fd d s in
              if index < 0 then Ret (index, index, s)
              else seq (open_fd devs d isafs file flags mode (nat index) s) (\<lambda>(status, s).
                   Ret (index, status, s)))
       (\<lambda>(index, status, s).
     if status < 0 then
       seq (alt_release_fd index s) (fail (- status))
     else Ret (index, s)))"

definition ALT_CLOSE :: "(node \<Rightarrow> 'w alt_dev) \<Rightarrow> int \<Rightarrow> 'w files \<Rightarrow> (int \<times> 'w files) outcome" where
  "ALT_CLOSE devs fildes s =
     (if fildes < 0 then fail EBADFD s
      else
        seq (fd_at s (nat fildes)) (\<lambda>fd.
        seq (driver devs fd) (\<lambda>d.
        seq (case dev_close d of None \<Rightarrow> Ret (0, s) | Some f \<Rightarrow> call_driver f (nat fildes) s) (\<lambda>(rval, s).
        seq (alt_release_fd fildes s) (\<lambda>s.
        if rval < 0 then fail (- rval) s else Ret (0, s))))))"

section \<open>Calls that go to the driver\<close>

definition ALT_READ ::
    "(node \<Rightarrow> 'w alt_dev) \<Rightarrow> int \<Rightarrow> u32 \<Rightarrow> u32 \<Rightarrow> 'w files \<Rightarrow> (int \<times> 'w files) outcome" where
  "ALT_READ devs file ptr len s =
     (if file < 0 then fail EBADFD s
      else
        seq (fd_at s (nat file)) (\<lambda>fd.
        if fd_flags fd AND O_ACCMODE \<noteq> O_WRONLY then
          seq (driver devs fd) (\<lambda>d.
          case dev_read d of
            Some f \<Rightarrow> seq (call_driver (f ptr len) (nat file) s) report
          | None \<Rightarrow> fail EACCES s)
        else fail EACCES s))"

definition ALT_WRITE ::
    "(node \<Rightarrow> 'w alt_dev) \<Rightarrow> int \<Rightarrow> u32 \<Rightarrow> u32 \<Rightarrow> 'w files \<Rightarrow> (int \<times> 'w files) outcome" where
  "ALT_WRITE devs file ptr len s =
     (if file < 0 then fail EBADFD s
      else
        seq (fd_at s (nat file)) (\<lambda>fd.
        if fd_flags fd AND O_ACCMODE \<noteq> O_RDONLY then
          seq (driver devs fd) (\<lambda>d.
          case dev_write d of
            Some f \<Rightarrow> seq (call_driver (f ptr len) (nat file) s) report
          | None \<Rightarrow> fail EACCES s)
        else fail EACCES s))"

definition ALT_LSEEK ::
    "(node \<Rightarrow> 'w alt_dev) \<Rightarrow> int \<Rightarrow> int \<Rightarrow> int \<Rightarrow> 'w files \<Rightarrow> (int \<times> 'w files) outcome" where
  "ALT_LSEEK devs file ptr dir s =
     (if file < 0 then report (- EBADFD, s)
      else
        seq (fd_at s (nat file)) (\<lambda>fd.
        seq (driver devs fd) (\<lambda>d.
        case dev_lseek d of
          Some f \<Rightarrow> seq (call_driver (f ptr dir) (nat file) s) report
        | None \<Rightarrow> report (- ENOTSUP, s))))"

text \<open>The result is the call's value and the mode left in the caller's \<open>struct stat\<close>.\<close>

definition ALT_FSTAT ::
    "(node \<Rightarrow> 'w alt_dev) \<Rightarrow> int \<Rightarrow> u32 \<Rightarrow> 'w files \<Rightarrow> (int \<times> u32 \<times> 'w files) outcome" where
  "ALT_FSTAT devs file st s =
     (if file < 0 then Ret (- 1, st, s\<lparr>errno := EBADFD\<rparr>)
      else
        seq (fd_at s (nat file)) (\<lambda>fd.
        seq (driver devs fd) (\<lambda>d.
        case dev_fstat d of
          Some f \<Rightarrow> seq (f st fd (world s)) (\<lambda>(rc, st, fd, w).
                     Ret (rc, st, put_fd (nat file) fd (s\<lparr>world := w\<rparr>)))
        | None \<Rightarrow> Ret (0, IFCHR, s))))"

definition ALT_IOCTL ::
    "(node \<Rightarrow> 'w alt_dev) \<Rightarrow> int \<Rightarrow> int \<Rightarrow> u32 \<Rightarrow> 'w files \<Rightarrow> (int \<times> 'w files) outcome" where
  "ALT_IOCTL devs file req arg s =
     seq (if file < 0 then Ret (- EBADFD, s)
          else
            seq (fd_at s (nat file)) (\<lambda>fd.
            if fd_flags fd AND ALT_FD_DEV \<noteq> 0 \<and> req = TIOCEXCL then alt_fd_lock (nat file) s
            else if fd_flags fd AND ALT_FD_DEV \<noteq> 0 \<and> req = TIOCNXCL then alt_fd_unlock (nat file) s
            else
              seq (driver devs fd) (\<lambda>d.
              case dev_ioctl d of
                Some f \<Rightarrow> call_driver (f req arg) (nat file) s
              | None \<Rightarrow> Ret (- ENOTTY, s))))
       (\<lambda>(rc, s). Ret (rc, if rc < 0 then s\<lparr>errno := - rc\<rparr> else s))"

text \<open>\<open>stat\<close> is a local of \<open>isatty\<close>: its mode starts as whatever is on the stack.\<close>

definition ALT_ISATTY ::
    "(node \<Rightarrow> 'w alt_dev) \<Rightarrow> u32 \<Rightarrow> int \<Rightarrow> 'w files \<Rightarrow> (int \<times> 'w files) outcome" where
  "ALT_ISATTY devs stack file s =
     (if file < 0 then Ret (0, s\<lparr>errno := EBADFD\<rparr>)
      else
        seq (fd_at s (nat file)) (\<lambda>fd.
        seq (driver devs fd) (\<lambda>d.
        if dev_fstat d = None then Ret (1, s)
        else seq (ALT_FSTAT devs file stack s) (\<lambda>(rc, st, s).
             Ret (if st = IFCHR then 1 else 0, s)))))"

definition ALT_FCNTL :: "int \<Rightarrow> int \<Rightarrow> u32 \<Rightarrow> 'w files \<Rightarrow> (int \<times> 'w files) outcome" where
  "ALT_FCNTL file cmd arg s =
     (if file < 0 then fail EBADFD s
      else
        seq (fd_at s (nat file)) (\<lambda>fd.
        if cmd = F_GETFL then Ret (sint (fd_flags fd AND NOT ALT_FD_FLAGS_MASK), s)
        else if cmd = F_SETFL then
          Ret (0, put_fd (nat file) (fd\<lparr>fd_flags :=
            (fd_flags fd AND NOT ALT_FCNTL_FLAGS_MASK) OR (arg AND ALT_FCNTL_FLAGS_MASK)\<rparr>) s)
        else fail EINVAL s))"

section \<open>Redirection of the standard streams\<close>

definition alt_open_fd ::
    "(node \<Rightarrow> 'w alt_dev) \<Rightarrow> nat \<Rightarrow> string \<Rightarrow> u32 \<Rightarrow> u32 \<Rightarrow> 'w files \<Rightarrow> 'w files outcome" where
  "alt_open_fd devs k name flags mode s =
     seq (ALT_OPEN devs name flags mode s) (\<lambda>(old, s).
     if old \<ge> 0 then
       seq (fd_at s (nat old)) (\<lambda>fd. alt_release_fd old (put_fd k fd s))
     else Ret s)"

definition alt_io_redirect ::
    "(node \<Rightarrow> 'w alt_dev) \<Rightarrow> string \<Rightarrow> string \<Rightarrow> string \<Rightarrow> 'w files \<Rightarrow> 'w files outcome" where
  "alt_io_redirect devs stdout_dev stdin_dev stderr_dev s =
     seq (alt_open_fd devs 1 stdout_dev O_WRONLY 0x1FF s) (\<lambda>s.
     seq (alt_open_fd devs 0 stdin_dev O_RDONLY 0x1FF s) (\<lambda>s.
     alt_open_fd devs 2 stderr_dev O_WRONLY 0x1FF s))"

end
