(* ===== verification/File_Results.thy ===== *)
theory File_Results
  imports Files
begin

text \<open>
  What the system calls do to the descriptor table.  \<open>files_ok\<close> is the type of the table: 32
  descriptors, the three standard streams always open, no open descriptor above \<open>alt_max_fd\<close>.  The
  locale \<open>drivers\<close> is the contract with the device drivers: a driver may do anything to its own
  state and to its descriptor, but the descriptor keeps its device.
\<close>

section \<open>Partial correctness\<close>

definition ensures :: "'a outcome \<Rightarrow> ('a \<Rightarrow> bool) \<Rightarrow> bool" where
  "ensures m Q = (case m of Ret x \<Rightarrow> Q x | _ \<Rightarrow> True)"

named_theorems ensures_rules \<open>what a part of a system call keeps\<close>

lemma ensures_Ret [simp]: "ensures (Ret x) Q = Q x"
  and ensures_Undef [simp]: "ensures Undef Q"
  and ensures_Hang [simp]: "ensures Hang Q"
  by (simp_all add: ensures_def)

lemma ensures_seq: "ensures m R \<Longrightarrow> (\<And>x. R x \<Longrightarrow> ensures (f x) Q) \<Longrightarrow> ensures (seq m f) Q"
  by (cases m) auto

lemma ensures_seq_fd: "(\<And>fd. fd_at s i = Ret fd \<Longrightarrow> ensures (f fd) Q) \<Longrightarrow> ensures (seq (fd_at s i) f) Q"
  by (cases "fd_at s i") auto

lemma ensures_seq_any: "(\<And>x. ensures (f x) Q) \<Longrightarrow> ensures (seq m f) Q"
  by (cases m) auto

lemma ensures_mono: "ensures m R \<Longrightarrow> (\<And>x. R x \<Longrightarrow> Q x) \<Longrightarrow> ensures m Q"
  by (cases m) auto

section \<open>The type of the table\<close>

definition files_ok :: "'w files \<Rightarrow> bool" where
  "files_ok s =
     (length (alt_fd_list s) = ALT_MAX_FD
      \<and> (\<forall>i < 3. fd_dev (alt_fd_list s ! i) \<noteq> None)
      \<and> - 1 \<le> sint (alt_max_fd s) \<and> sint (alt_max_fd s) < int ALT_MAX_FD
      \<and> (\<forall>i < ALT_MAX_FD. 3 \<le> i \<and> fd_dev (alt_fd_list s ! i) \<noteq> None \<longrightarrow> int i \<le> sint (alt_max_fd s)))"

lemma files_okD:
  assumes "files_ok s"
  shows "length (alt_fd_list s) = 32" "i < 3 \<Longrightarrow> fd_dev (alt_fd_list s ! i) \<noteq> None"
    "- 1 \<le> sint (alt_max_fd s)" "sint (alt_max_fd s) < 32"
    "i < 32 \<Longrightarrow> 3 \<le> i \<Longrightarrow> fd_dev (alt_fd_list s ! i) \<noteq> None \<Longrightarrow> int i \<le> sint (alt_max_fd s)"
  using assms by (auto simp: files_ok_def ALT_MAX_FD_def)

lemma files_ok_more [simp]:
  "files_ok (s\<lparr>links := l\<rparr>) = files_ok s" "files_ok (s\<lparr>errno := e\<rparr>) = files_ok s"
  "files_ok (s\<lparr>world := w\<rparr>) = files_ok s"
  by (simp_all add: files_ok_def)

lemma initial_files_ok: "files_ok (initial_files w)"
  by (auto simp: files_ok_def initial_files_def ALT_MAX_FD_def nth_append)

lemma fd_at_put_fd [simp]:
  "fd_at (put_fd i fd s) j = (if i = j \<and> i < length (alt_fd_list s) then Ret fd else fd_at s j)"
  by (auto simp: fd_at_def put_fd_def)

lemma put_fd_simps [simp]:
  "alt_max_fd (put_fd i fd s) = alt_max_fd s" "world (put_fd i fd s) = world s"
  "links (put_fd i fd s) = links s" "errno (put_fd i fd s) = errno s"
  "alt_fd_list (put_fd i fd s) = (alt_fd_list s)[i := fd]"
  "put_fd i fd' (put_fd i fd s) = put_fd i fd' s"
  by (simp_all add: put_fd_def)

lemma fd_at_more [simp]:
  "fd_at (s\<lparr>links := l\<rparr>) = fd_at s" "fd_at (s\<lparr>errno := e\<rparr>) = fd_at s" "fd_at (s\<lparr>world := w\<rparr>) = fd_at s"
  "fd_at (s\<lparr>alt_max_fd := m\<rparr>) = fd_at s"
  by (simp_all add: fd_at_def fun_eq_iff)

lemma fd_at_Ret: "fd_at s i = Ret fd \<longleftrightarrow> i < length (alt_fd_list s) \<and> fd = alt_fd_list s ! i"
  by (auto simp: fd_at_def)

lemma files_ok_put_fd:
  assumes "files_ok s" and "fd_at s i = Ret old" and "fd_dev fd = fd_dev old"
  shows "files_ok (put_fd i fd s)"
  using assms by (auto simp: files_ok_def fd_at_Ret nth_list_update)

lemma files_ok_flags: "files_ok s \<Longrightarrow> fd_at s i = Ret fd \<Longrightarrow> files_ok (put_fd i (fd\<lparr>fd_flags := x\<rparr>) s)"
  by (rule files_ok_put_fd) simp_all

lemma files_ok_release:
  assumes "files_ok s" and "2 < i"
  shows "files_ok (put_fd i (fd\<lparr>fd_dev := None\<rparr>) s)"
  using assms by (cases "i < length (alt_fd_list s)") (auto simp: files_ok_def nth_list_update split: if_splits)

lemma alt_get_fd_cases:
  assumes "files_ok s"
  obtains (full) "alt_get_fd d s = (- EMFILE, s)"
      and "\<And>i. i < 32 \<Longrightarrow> fd_dev (alt_fd_list s ! i) \<noteq> None"
    | (free) i where "3 \<le> i" and "i < 32" and "fd_dev (alt_fd_list s ! i) = None"
      and "alt_get_fd d s = (int i, (put_fd i ((alt_fd_list s ! i)\<lparr>fd_dev := Some d\<rparr>) s)
        \<lparr>alt_max_fd := if sint (alt_max_fd s) < int i then of_nat i else alt_max_fd s\<rparr>)"
proof (cases "find (\<lambda>i. fd_dev (alt_fd_list s ! i) = None) [0..<ALT_MAX_FD]")
  case None
  then show thesis
    by (intro full) (simp_all add: alt_get_fd_def, simp add: find_None_iff ALT_MAX_FD_def)
next
  case (Some i)
  then have i: "i < 32" "fd_dev (alt_fd_list s ! i) = None"
    by (auto simp: find_Some_iff ALT_MAX_FD_def)
  then have "3 \<le> i" using files_okD(2) [OF assms, of i] by fastforce
  with i Some show thesis
    by (intro free) (simp_all add: alt_get_fd_def, simp add: Let_def put_fd_def)
qed

lemma sint_index: "i < 32 \<Longrightarrow> sint (of_nat i :: u32) = int i"
  by (simp add: signed_of_nat signed_take_bit_int_eq_self)

lemma alt_get_fd_ok:
  assumes "files_ok s" and "alt_get_fd d s = (r, s')"
  shows "files_ok s' \<and> (r < 0 \<longrightarrow> s' = s) \<and> (0 \<le> r \<longrightarrow> 3 \<le> r \<and> r < 32)"
  using assms(1)
proof (cases rule: alt_get_fd_cases [where d = d])
  case full
  with assms show ?thesis by (auto simp: EMFILE_def)
next
  case (free i)
  then have "s' = (put_fd i ((alt_fd_list s ! i)\<lparr>fd_dev := Some d\<rparr>) s)
        \<lparr>alt_max_fd := if sint (alt_max_fd s) < int i then of_nat i else alt_max_fd s\<rparr>" and "r = int i"
    using assms(2) by simp_all
  then show ?thesis
    using assms(1) free by (auto simp: files_ok_def nth_list_update ALT_MAX_FD_def sint_index)
qed

section \<open>The contract with the drivers\<close>

definition keeps_dev :: "'w fd_op \<Rightarrow> bool" where
  "keeps_dev f = (\<forall>fd w. ensures (f fd w) (\<lambda>(rc, fd', w'). fd_dev fd' = fd_dev fd))"

definition driver_ok :: "'w alt_dev \<Rightarrow> bool" where
  "driver_ok d =
     (pred_option (\<lambda>f. \<forall>a b c. keeps_dev (f a b c)) (dev_open d)
      \<and> pred_option keeps_dev (dev_close d)
      \<and> pred_option (\<lambda>f. \<forall>a b. keeps_dev (f a b)) (dev_read d)
      \<and> pred_option (\<lambda>f. \<forall>a b. keeps_dev (f a b)) (dev_write d)
      \<and> pred_option (\<lambda>f. \<forall>a b. keeps_dev (f a b)) (dev_lseek d)
      \<and> pred_option (\<lambda>f. \<forall>st fd w. ensures (f st fd w) (\<lambda>(rc, st, fd', w'). fd_dev fd' = fd_dev fd)) (dev_fstat d)
      \<and> pred_option (\<lambda>f. \<forall>a b. keeps_dev (f a b)) (dev_ioctl d))"

text \<open>The system calls, and a program as the calls it makes.\<close>

datatype call = Open string u32 u32 | Close int | Read int u32 u32 | Write int u32 u32
  | Lseek int int int | Fstat int u32 | Ioctl int int u32 | Isatty u32 int | Fcntl int int u32

fun syscall :: "(node \<Rightarrow> 'w alt_dev) \<Rightarrow> call \<Rightarrow> 'w files \<Rightarrow> 'w files outcome" where
  "syscall devs (Open file flags mode) s = seq (ALT_OPEN devs file flags mode s) (\<lambda>(r, s). Ret s)"
| "syscall devs (Close fd) s = seq (ALT_CLOSE devs fd s) (\<lambda>(r, s). Ret s)"
| "syscall devs (Read fd ptr len) s = seq (ALT_READ devs fd ptr len s) (\<lambda>(r, s). Ret s)"
| "syscall devs (Write fd ptr len) s = seq (ALT_WRITE devs fd ptr len s) (\<lambda>(r, s). Ret s)"
| "syscall devs (Lseek fd ptr dir) s = seq (ALT_LSEEK devs fd ptr dir s) (\<lambda>(r, s). Ret s)"
| "syscall devs (Fstat fd st) s = seq (ALT_FSTAT devs fd st s) (\<lambda>(r, st, s). Ret s)"
| "syscall devs (Ioctl fd req arg) s = seq (ALT_IOCTL devs fd req arg s) (\<lambda>(r, s). Ret s)"
| "syscall devs (Isatty stack fd) s = seq (ALT_ISATTY devs stack fd s) (\<lambda>(r, s). Ret s)"
| "syscall devs (Fcntl fd cmd arg) s = seq (ALT_FCNTL fd cmd arg s) (\<lambda>(r, s). Ret s)"

primrec syscalls :: "(node \<Rightarrow> 'w alt_dev) \<Rightarrow> call list \<Rightarrow> 'w files \<Rightarrow> 'w files outcome" where
  "syscalls devs [] s = Ret s"
| "syscalls devs (c # cs) s = seq (syscall devs c s) (syscalls devs cs)"

abbreviation ok2 :: "'a \<times> 'w files \<Rightarrow> bool" where
  "ok2 \<equiv> \<lambda>(r, s). files_ok s"

lemma fail_ok [ensures_rules]: "files_ok s \<Longrightarrow> ensures (fail e s) ok2"
  by (simp add: fail_def)

lemma report_ok [ensures_rules]: "ok2 r \<Longrightarrow> ensures (report r) ok2"
  by (auto simp: report_def)

lemma call_driver_ok [ensures_rules]:
  assumes "keeps_dev f" and "files_ok s"
  shows "ensures (call_driver f i s) ok2"
  unfolding call_driver_def
proof (rule ensures_seq_fd)
  fix fd assume fd: "fd_at s i = Ret fd"
  have "ensures (f fd (world s)) (\<lambda>(rc, fd', w'). fd_dev fd' = fd_dev fd)"
    using assms(1) by (simp add: keeps_dev_def)
  then show "ensures (seq (f fd (world s)) (\<lambda>(rc, fd, w). Ret (rc, put_fd i fd (s\<lparr>world := w\<rparr>)))) ok2"
    by (rule ensures_seq) (use assms(2) fd in \<open>auto intro!: files_ok_put_fd [where old = fd]\<close>)
qed

lemma alt_release_fd_ok [ensures_rules]: "files_ok s \<Longrightarrow> ensures (alt_release_fd fd s) files_ok"
  unfolding alt_release_fd_def
  by (auto intro!: ensures_seq_fd simp: files_ok_release)

lemma alt_fd_lock_ok [ensures_rules]: "files_ok s \<Longrightarrow> ensures (alt_fd_lock k s) ok2"
  unfolding alt_fd_lock_def
  by (intro ensures_seq_fd ensures_seq_any) (auto intro: files_ok_put_fd)

lemma alt_fd_unlock_ok [ensures_rules]: "files_ok s \<Longrightarrow> ensures (alt_fd_unlock k s) ok2"
  unfolding alt_fd_unlock_def
  by (intro ensures_seq_fd) (auto intro: files_ok_put_fd)

lemma alt_file_locked_ok [ensures_rules]: "files_ok s \<Longrightarrow> ensures (alt_file_locked k s) ok2"
  unfolding alt_file_locked_def Let_def
  by (intro ensures_seq_fd ensures_seq_any) (auto intro: files_ok_put_fd)

lemma ALT_FCNTL_ok [ensures_rules]: "files_ok s \<Longrightarrow> ensures (ALT_FCNTL file cmd arg s) ok2"
  unfolding ALT_FCNTL_def
  by (auto intro!: ensures_seq_fd fail_ok intro: files_ok_flags)

locale drivers =
  fixes devs :: "node \<Rightarrow> 'w alt_dev"
  assumes ok: "driver_ok (devs d)"
begin

lemma open_op: "dev_open (devs d) = Some f1 \<Longrightarrow> \<forall>nm fl md. keeps_dev (f1 nm fl md)"
  and close_op: "dev_close (devs d) = Some f2 \<Longrightarrow> keeps_dev f2"
  and read_op: "dev_read (devs d) = Some f3 \<Longrightarrow> \<forall>p l. keeps_dev (f3 p l)"
  and write_op: "dev_write (devs d) = Some f4 \<Longrightarrow> \<forall>p l. keeps_dev (f4 p l)"
  and lseek_op: "dev_lseek (devs d) = Some f5 \<Longrightarrow> \<forall>x y. keeps_dev (f5 x y)"
  and ioctl_op: "dev_ioctl (devs d) = Some f7 \<Longrightarrow> \<forall>x p. keeps_dev (f7 x p)"
  using ok [of d] by (auto simp: driver_ok_def)

lemma driver_seq:
  "(\<And>d. ensures (f (devs d)) Q) \<Longrightarrow> ensures (seq (driver devs fd) f) Q"
  by (auto simp: driver_def split: option.split)

lemma open_fd_ok: "files_ok s \<Longrightarrow> ensures (open_fd devs d isafs file flags mode i s) ok2"
  unfolding open_fd_def Let_def
  by (intro ensures_seq_fd ensures_seq [where R = ok2])
    (auto intro!: call_driver_ok alt_file_locked_ok files_ok_flags dest!: open_op split: option.splits)

lemma ALT_OPEN_ok: "files_ok s \<Longrightarrow> ensures (ALT_OPEN devs file flags mode s) ok2"
  unfolding ALT_OPEN_def
proof (intro ensures_seq_any, clarify)
  fix dev isafs
  assume ok: "files_ok s"
  show "ensures (seq (case dev of None \<Rightarrow> Ret (- 1, - ENODEV, s)
      | Some d \<Rightarrow> let (index, s) = alt_get_fd d s in
          if index < 0 then Ret (index, index, s)
          else seq (open_fd devs d isafs file flags mode (nat index) s) (\<lambda>(status, s). Ret (index, status, s)))
      (\<lambda>(index, status, s). if status < 0 then seq (alt_release_fd index s) (fail (- status)) else Ret (index, s))) ok2"
    by (rule ensures_seq [where R = "\<lambda>(i, st, s). files_ok s"])
      (use ok alt_get_fd_ok [OF ok] in
        \<open>fastforce split: option.split prod.splits intro!: ensures_seq [OF open_fd_ok] ensures_seq [OF alt_release_fd_ok] fail_ok\<close>)+
qed

lemma ALT_CLOSE_ok: "files_ok s \<Longrightarrow> ensures (ALT_CLOSE devs fildes s) ok2"
  unfolding ALT_CLOSE_def
  by (auto intro!: fail_ok ensures_seq_fd driver_seq ensures_seq [where R = ok2]
      ensures_seq [OF alt_release_fd_ok] call_driver_ok dest!: close_op split: option.split)

lemma ALT_READ_ok: "files_ok s \<Longrightarrow> ensures (ALT_READ devs file ptr len s) ok2"
  unfolding ALT_READ_def
  by (auto intro!: fail_ok ensures_seq_fd driver_seq ensures_seq [OF call_driver_ok] report_ok
      dest!: read_op split: option.split)

lemma ALT_WRITE_ok: "files_ok s \<Longrightarrow> ensures (ALT_WRITE devs file ptr len s) ok2"
  unfolding ALT_WRITE_def
  by (auto intro!: fail_ok ensures_seq_fd driver_seq ensures_seq [OF call_driver_ok] report_ok
      dest!: write_op split: option.split)

lemma ALT_LSEEK_ok: "files_ok s \<Longrightarrow> ensures (ALT_LSEEK devs file ptr dir s) ok2"
  unfolding ALT_LSEEK_def
  by (auto intro!: ensures_seq_fd driver_seq ensures_seq [OF call_driver_ok] report_ok
      dest!: lseek_op split: option.split)

lemma ALT_FSTAT_ok: "files_ok s \<Longrightarrow> ensures (ALT_FSTAT devs file st s) (\<lambda>(r, st, s). files_ok s)"
  unfolding ALT_FSTAT_def
proof (cases "file < 0"; simp; intro ensures_seq_fd driver_seq)
  fix fd d assume s: "files_ok s" and fd: "fd_at s (nat file) = Ret fd"
  show "ensures (case dev_fstat (devs d) of
      None \<Rightarrow> Ret (0, IFCHR, s)
    | Some f \<Rightarrow> seq (f st fd (world s)) (\<lambda>(rc, st, fd, w). Ret (rc, st, put_fd (nat file) fd (s\<lparr>world := w\<rparr>))))
    (\<lambda>(r, st, s). files_ok s)"
  proof (cases "dev_fstat (devs d)")
    case (Some f)
    then have "ensures (f st fd (world s)) (\<lambda>(rc, st, fd', w'). fd_dev fd' = fd_dev fd)"
      using ok [of d] by (simp add: driver_ok_def)
    then show ?thesis
      unfolding Some option.case by (rule ensures_seq) (use s fd in \<open>auto intro!: files_ok_put_fd [where old = fd]\<close>)
  qed (simp add: s)
qed

lemma ALT_IOCTL_ok: "files_ok s \<Longrightarrow> ensures (ALT_IOCTL devs file req arg s) ok2"
  unfolding ALT_IOCTL_def
  by (rule ensures_seq [where R = ok2])
    (auto intro!: ensures_seq_fd driver_seq alt_fd_lock_ok alt_fd_unlock_ok call_driver_ok dest!: ioctl_op
      split: option.split)

lemma ALT_ISATTY_ok: "files_ok s \<Longrightarrow> ensures (ALT_ISATTY devs stack file s) ok2"
  unfolding ALT_ISATTY_def
  by (auto intro!: ensures_seq_fd driver_seq ensures_seq [OF ALT_FSTAT_ok])

lemma syscall_ok: "files_ok s \<Longrightarrow> ensures (syscall devs c s) files_ok"
proof (cases c)
  case Open assume "files_ok s" then show ?thesis unfolding Open syscall.simps
    by (rule ensures_seq [OF ALT_OPEN_ok]) auto
next
  case Close assume "files_ok s" then show ?thesis unfolding Close syscall.simps
    by (rule ensures_seq [OF ALT_CLOSE_ok]) auto
next
  case Read assume "files_ok s" then show ?thesis unfolding Read syscall.simps
    by (rule ensures_seq [OF ALT_READ_ok]) auto
next
  case Write assume "files_ok s" then show ?thesis unfolding Write syscall.simps
    by (rule ensures_seq [OF ALT_WRITE_ok]) auto
next
  case Lseek assume "files_ok s" then show ?thesis unfolding Lseek syscall.simps
    by (rule ensures_seq [OF ALT_LSEEK_ok]) auto
next
  case Fstat assume "files_ok s" then show ?thesis unfolding Fstat syscall.simps
    by (rule ensures_seq [OF ALT_FSTAT_ok]) auto
next
  case Ioctl assume "files_ok s" then show ?thesis unfolding Ioctl syscall.simps
    by (rule ensures_seq [OF ALT_IOCTL_ok]) auto
next
  case Isatty assume "files_ok s" then show ?thesis unfolding Isatty syscall.simps
    by (rule ensures_seq [OF ALT_ISATTY_ok]) auto
next
  case Fcntl assume "files_ok s" then show ?thesis unfolding Fcntl syscall.simps
    by (rule ensures_seq [OF ALT_FCNTL_ok]) auto
qed

lemma syscalls_ok: "files_ok s \<Longrightarrow> ensures (syscalls devs cs s) files_ok"
  by (induction cs arbitrary: s) (auto intro: ensures_seq [OF syscall_ok])

end

lemma null_driver_ok: "driver_ok (alt_dev_null :: 'w alt_dev)"
  by (simp add: driver_ok_def alt_dev_null_def keeps_dev_def alt_dev_null_write_def)

interpretation null_drivers: drivers "\<lambda>_. alt_dev_null"
  by unfold_locales (rule null_driver_ok)

section \<open>Opening, locking and closing a device\<close>

lemma ex_from:
  "(\<exists>j. i \<le> j \<and> j < i + Suc n \<and> Q j) \<longleftrightarrow> Q i \<or> (\<exists>j. Suc i \<le> j \<and> j < Suc i + n \<and> Q j)"
  (is "?L \<longleftrightarrow> ?R")
proof
  assume ?L
  then obtain j where "i \<le> j" "j < i + Suc n" "Q j" by blast
  then show ?R by (cases "j = i") auto
next
  assume ?R
  then show ?L
  proof (elim disjE exE)
    assume "Q i"
    then show ?L by (intro exI [of _ i]) simp
  next
    fix j assume "Suc i \<le> j \<and> j < Suc i + n \<and> Q j"
    then show ?L by (intro exI [of _ j]) simp
  qed
qed

lemma scan_fds_Ret:
  "i + n \<le> length fds \<Longrightarrow>
     scan_fds P k fds i n = Ret (\<exists>j. i \<le> j \<and> j < i + n \<and> P (fds ! j) \<and> j \<noteq> k)"
proof (induction n arbitrary: i)
  case (Suc n)
  then show ?case unfolding ex_from by (cases "P (fds ! i) \<and> i \<noteq> k") auto
qed simp

lemma max_fd_unat:
  assumes "files_ok s" and "0 \<le> sint (alt_max_fd s)"
  shows "int (unat (alt_max_fd s)) = sint (alt_max_fd s)"
proof -
  have "uint (alt_max_fd s) = take_bit 32 (sint (alt_max_fd s))" by (simp add: uint_sint)
  also have "\<dots> = sint (alt_max_fd s)"
    using assms(2) files_okD(4) [OF assms(1)] by (simp add: take_bit_int_eq_self)
  finally show ?thesis by simp
qed

lemma alt_fd_lock_result:
  assumes "files_ok s" and "fd_at s k = Ret fd"
  shows "alt_fd_lock k s =
    (if \<exists>j. int j < sint (alt_max_fd s) \<and> j \<noteq> k \<and> fd_dev (alt_fd_list s ! j) = fd_dev fd then Ret (- EACCES, s)
     else Ret (0, put_fd k (fd\<lparr>fd_flags := fd_flags fd OR ALT_FD_EXCL\<rparr>) s))"
proof -
  have "nat (sint (alt_max_fd s)) \<le> length (alt_fd_list s)"
    using files_okD [OF assms(1)] by simp
  then show ?thesis
    using assms(2) by (auto simp: alt_fd_lock_def scan_fds_Ret zless_nat_eq_int_zless)
qed

text \<open>Some other descriptor of the device is locked for exclusive access.\<close>

definition exclusive :: "node option \<Rightarrow> nat \<Rightarrow> 'w files \<Rightarrow> bool" where
  "exclusive d i s = (\<exists>j. int j \<le> sint (alt_max_fd s) \<and> j \<noteq> i \<and> fd_dev (alt_fd_list s ! j) = d
     \<and> fd_flags (alt_fd_list s ! j) AND ALT_FD_EXCL \<noteq> 0)"

lemma alt_file_locked_result:
  assumes "files_ok s" and "fd_at s i = Ret fd" and "3 \<le> i" and "fd_dev fd \<noteq> None"
  shows "alt_file_locked i s =
    Ret (if exclusive (fd_dev fd) i s then - EACCES else 0,
         put_fd i (fd\<lparr>fd_flags := fd_flags fd OR ALT_FD_DEV\<rparr>) s)"
proof -
  have i: "i < 32" "alt_fd_list s ! i = fd" using assms(2) files_okD(1) [OF assms(1)] by (auto simp: fd_at_Ret)
  then have "int i \<le> sint (alt_max_fd s)" using files_okD(5) [OF assms(1)] assms(3,4) by blast
  then have pos: "0 \<le> sint (alt_max_fd s)" by simp
  note max = max_fd_unat [OF assms(1) pos]
  have len: "0 + Suc (unat (alt_max_fd s)) \<le> length ((alt_fd_list s)[i := x])" for x
    unfolding length_list_update using files_okD(1,4) [OF assms(1)] max by linarith
  have bound: "j < 0 + Suc (unat (alt_max_fd s)) \<longleftrightarrow> int j \<le> sint (alt_max_fd s)" for j
    using max by linarith
  have others: "(\<exists>j. 0 \<le> j \<and> j < 0 + Suc (unat (alt_max_fd s)) \<and> (fd_dev ((alt_fd_list s)[i := x] ! j) = d
        \<and> fd_flags ((alt_fd_list s)[i := x] ! j) AND ALT_FD_EXCL \<noteq> 0) \<and> j \<noteq> i) \<longleftrightarrow> exclusive d i s" for d x
    unfolding bound exclusive_def by (rule iff_exI) auto
  show ?thesis
    unfolding alt_file_locked_def assms(2) seq.simps Let_def put_fd_simps scan_fds_Ret [OF len] others
    by simp
qed

text \<open>Opening a device by its registered name, without a driver's own open function.\<close>

definition is_device :: "(node \<Rightarrow> 'w alt_dev) \<Rightarrow> string \<Rightarrow> node \<Rightarrow> 'w files \<Rightarrow> bool" where
  "is_device devs nm d s = (alt_find_dev (dev_names devs) nm alt_dev_list (links s) = Ret (Some d))"

lemma is_device_cong: "links s' = links s \<Longrightarrow> is_device devs nm d s' = is_device devs nm d s"
  by (simp add: is_device_def)

lemma open_find_device: "is_device devs nm d s \<Longrightarrow> open_find devs nm s = Ret (Some d, False)"
  by (simp add: open_find_def is_device_def)

lemma seq_indexed:
  "seq (seq m (\<lambda>(a, b). Ret (c, a, b))) (\<lambda>(i, a, b). g i a b) = seq m (\<lambda>(a, b). g c a b)"
  by (cases m) auto

lemma open_device_free:
  assumes ok: "files_ok s" and name: "is_device devs nm d s" and get: "alt_get_fd d s = (int i, t)" "3 \<le> i"
  shows "ALT_OPEN devs nm flags mode s =
    (let u = put_fd i ((alt_fd_list t ! i)\<lparr>fd_flags := flags AND NOT ALT_FD_FLAGS_MASK OR ALT_FD_DEV\<rparr>) t in
     if exclusive (Some d) i t then
       Ret (- 1, put_fd i ((alt_fd_list t ! i)\<lparr>fd_flags := 0, fd_dev := None\<rparr>) (u\<lparr>errno := EACCES\<rparr>))
     else
       seq (case dev_open (devs d) of None \<Rightarrow> Ret (0, u) | Some f \<Rightarrow> call_driver (f nm flags mode) i u)
         (\<lambda>(status, v). if status < 0 then seq (alt_release_fd (int i) v) (fail (- status)) else Ret (int i, v)))"
proof -
  have t: "files_ok t" "i < 32" using alt_get_fd_ok [OF ok get(1)] by auto
  have dev: "fd_dev (alt_fd_list t ! i) = Some d"
    using ok
  proof (cases rule: alt_get_fd_cases [where d = d])
    case full then show ?thesis using get by (simp add: EMFILE_def)
  next
    case (free k) then show ?thesis using get files_okD(1) [OF ok] by auto
  qed
  define fd where "fd = (alt_fd_list t ! i)\<lparr>fd_flags := flags AND NOT ALT_FD_FLAGS_MASK\<rparr>"
  let ?t = "put_fd i fd t"
  have at: "fd_at t i = Ret (alt_fd_list t ! i)" using t files_okD(1) [OF t(1)] by (simp add: fd_at_Ret)
  have ok': "files_ok ?t" using files_ok_flags [OF t(1) at] by (simp add: fd_def)
  have at': "fd_at ?t i = Ret fd" using t files_okD(1) [OF t(1)] by simp
  have excl: "exclusive (fd_dev fd) i ?t \<longleftrightarrow> exclusive (Some d) i t"
    unfolding exclusive_def by (rule iff_exI) (use dev in \<open>auto simp: fd_def\<close>)
  have locked: "alt_file_locked i ?t = Ret (if exclusive (Some d) i t then - EACCES else 0,
      put_fd i (fd\<lparr>fd_flags := fd_flags fd OR ALT_FD_DEV\<rparr>) ?t)"
    using alt_file_locked_result [OF ok' at' get(2)] dev unfolding excl by (simp add: fd_def)
  show ?thesis
    unfolding ALT_OPEN_def open_find_device [OF name] open_fd_def
    using get t locked at files_okD(1) [OF t(1)]
    by (auto simp: Let_def fd_def EACCES_def seq_indexed alt_release_fd_def fail_def split: option.split)
qed

lemma open_device_full:
  assumes "is_device devs nm d s" and "alt_get_fd d s = (- EMFILE, s)"
  shows "ALT_OPEN devs nm flags mode s = Ret (- 1, s\<lparr>errno := EMFILE\<rparr>)"
  using assms by (simp add: ALT_OPEN_def open_find_device EMFILE_def alt_release_fd_def fail_def)

text \<open>States with \<open>n\<close> descriptors open on a device, for the examples.\<close>

definition one_device :: "node \<Rightarrow> unit alt_dev" where
  "one_device d = (if d = Device 0 then alt_dev_null\<lparr>dev_name := Some ''/dev/uart''\<rparr> else alt_dev_null)"

definition device_files :: "nat \<Rightarrow> u32 \<Rightarrow> unit files" where
  "device_files n flags = \<lparr>links = alt_llist_insert alt_dev_list (Device 0) initial_links, errno = 0,
     alt_fd_list = replicate 3 \<lparr>fd_dev = Some Null_device, fd_priv = 0, fd_flags = 0\<rparr>
       @ replicate n \<lparr>fd_dev = Some (Device 0), fd_priv = 0, fd_flags = flags\<rparr>
       @ replicate (29 - n) \<lparr>fd_dev = None, fd_priv = 0, fd_flags = 0\<rparr>,
     alt_max_fd = of_nat (n + 2), world = ()\<rparr>"

lemma device_files_ok: "n \<le> 29 \<Longrightarrow> files_ok (device_files n flags)"
  using sint_index [of "n + 2"]
  by (auto simp: files_ok_def device_files_def ALT_MAX_FD_def nth_append)

lemma device_files_device: "is_device one_device ''/dev/uart'' (Device 0) (device_files n flags)"
proof -
  have "is_list (alt_llist_insert alt_dev_list (Device 0) initial_links) alt_dev_list [Device 0, Null_device]"
    by (rule llist.insert_rep [OF initial_dev_list]) simp
  then show ?thesis
    unfolding is_device_def device_files_def
    by (simp, subst alt_find_dev_list)
      (auto simp: dev_names_def one_device_def alt_dev_null_def NUL_def)
qed

lemma device_files_fd: "n \<le> 29 \<Longrightarrow> i < n \<Longrightarrow>
    fd_at (device_files n flags) (3 + i) = Ret \<lparr>fd_dev = Some (Device 0), fd_priv = 0, fd_flags = flags\<rparr>"
  by (simp add: fd_at_def device_files_def nth_append)

lemma device_files_streams: "j < 3 \<Longrightarrow> fd_dev (alt_fd_list (device_files n flags) ! j) = Some Null_device"
  by (simp add: device_files_def nth_append)

lemma device_files_max: "n \<le> 29 \<Longrightarrow> sint (alt_max_fd (device_files n flags)) = int n + 2"
  using sint_index [of "n + 2"] by (simp add: device_files_def)

section \<open>Properties\<close>

text \<open>Property C20. Whatever calls a program makes from the state the HAL starts in, with drivers that keep
  a descriptor's device, the descriptor table keeps its type: 32 entries, the standard streams open, and
  no open descriptor above \<open>alt_max_fd\<close>.\<close>

theorem descriptors_stay_typed:
  assumes "\<forall>d. driver_ok (devs d)"
  shows "ensures (syscalls devs cs (initial_files w)) files_ok"
  by (rule drivers.syscalls_ok [OF drivers.intro initial_files_ok]) (use assms in simp)

theorem descriptors_stay_typed_witness:
  "ensures (syscalls (\<lambda>_. alt_dev_null) [Open ''/dev/null'' 1 0, Write 3 0 5, Close 3] (initial_files ())) files_ok"
  by (rule descriptors_stay_typed) (simp add: null_driver_ok)

text \<open>Property C21. Once a device is locked through descriptor \<open>k\<close>, opening it by name fails: with
  \<open>EACCES\<close> when a descriptor is free, and with \<open>EMFILE\<close> when none is.  The descriptor taken for the
  attempt is released, so every descriptor refers to what it did before, and neither the registered
  devices nor the world of the drivers change.\<close>

theorem locked_device_refused:
  assumes "files_ok s" and "is_device devs nm d s"
    and "3 \<le> k" and "fd_at s k = Ret fd" and "fd_dev fd = Some d"
    and "fd_flags fd AND ALT_FD_DEV \<noteq> 0"
    and "ALT_IOCTL devs (int k) TIOCEXCL arg s = Ret (0, s')"
  shows "\<exists>t. ALT_OPEN devs nm flags mode s' = Ret (- 1, t)
     \<and> errno t = (if None \<in> fd_dev ` set (alt_fd_list s') then EACCES else EMFILE)
     \<and> map fd_dev (alt_fd_list t) = map fd_dev (alt_fd_list s')
     \<and> links t = links s' \<and> world t = world s'"
proof -
  have s': "s' = put_fd k (fd\<lparr>fd_flags := fd_flags fd OR ALT_FD_EXCL\<rparr>) s"
    using assms(4,6,7) alt_fd_lock_result [OF assms(1,4)]
    by (auto simp: ALT_IOCTL_def EACCES_def split: if_splits)
  have k: "k < 32" "alt_fd_list s ! k = fd" using assms(4) files_okD(1) [OF assms(1)] by (auto simp: fd_at_Ret)
  have ok: "files_ok s'" unfolding s' by (rule files_ok_flags [OF assms(1,4)])
  have name: "is_device devs nm d s'" using assms(2) by (simp add: s' is_device_def)
  have len: "length (alt_fd_list s) = 32" by (rule files_okD(1) [OF assms(1)])
  show ?thesis
    using ok
  proof (cases rule: alt_get_fd_cases [where d = d])
    case full
    then have "None \<notin> fd_dev ` set (alt_fd_list s')"
      using files_okD(1) [OF ok] full(2) by (fastforce simp: in_set_conv_nth)
    then show ?thesis using full(1) by (simp add: open_device_full [OF name])
  next
    case (free i)
    let ?t = "(put_fd i ((alt_fd_list s' ! i)\<lparr>fd_dev := Some d\<rparr>) s')
      \<lparr>alt_max_fd := if sint (alt_max_fd s') < int i then of_nat i else alt_max_fd s'\<rparr>"
    have "i \<noteq> k" using free(3) k len assms(5) by (auto simp: s')
    moreover have "int k \<le> sint (alt_max_fd s)"
      using files_okD(5) [OF assms(1), of k] k assms(3,5) by simp
    moreover have "fd_flags fd OR ALT_FD_EXCL AND ALT_FD_EXCL \<noteq> 0"
      by (simp add: ALT_FD_EXCL_def word_ao_dist or_eq_0_iff)
    moreover have "ALT_FD_EXCL \<noteq> 0" by (simp add: ALT_FD_EXCL_def)
    ultimately have "exclusive (Some d) i ?t"
      using free(1,2) k len assms(5) unfolding exclusive_def
      by (intro exI [of _ k]) (auto simp: s' sint_index)
    moreover have len': "length (alt_fd_list s') = 32" by (rule files_okD(1) [OF ok])
    have "None \<in> fd_dev ` set (alt_fd_list s')"
      using free(2,3) len' by (auto simp: in_set_conv_nth intro!: rev_image_eqI)
    moreover have "map fd_dev ((alt_fd_list s')[i := v]) = map fd_dev (alt_fd_list s')"
      if "fd_dev v = None" for v :: alt_fd
      using that free(2,3) len' by (simp add: map_update list_update_same_conv)
    ultimately show ?thesis
      using open_device_free [OF ok name free(4) free(1)] by (simp add: Let_def)
  qed
qed

theorem locked_device_refused_witness:
  "\<exists>s t. ALT_IOCTL one_device 3 TIOCEXCL 0 (device_files 1 ALT_FD_DEV) = Ret (0, s)
     \<and> ALT_OPEN one_device ''/dev/uart'' 0 0 s = Ret (- 1, t) \<and> errno t = EACCES
     \<and> map fd_dev (alt_fd_list t) = map fd_dev (alt_fd_list s)"
proof -
  let ?s = "device_files 1 ALT_FD_DEV"
  have fd: "fd_at ?s 3 = Ret \<lparr>fd_dev = Some (Device 0), fd_priv = 0, fd_flags = ALT_FD_DEV\<rparr>"
    using device_files_fd [of 1 0 ALT_FD_DEV] by simp
  have flag: "ALT_FD_DEV AND ALT_FD_DEV \<noteq> 0" by (simp add: ALT_FD_DEV_def)
  have ok: "files_ok ?s" by (rule device_files_ok) simp
  have "int j < sint (alt_max_fd ?s) \<Longrightarrow> fd_dev (alt_fd_list ?s ! j) \<noteq> Some (Device 0)" for j
    using device_files_max [of 1] device_files_streams [of j] by simp
  then have lock: "ALT_IOCTL one_device 3 TIOCEXCL 0 ?s =
      Ret (0, put_fd 3 \<lparr>fd_dev = Some (Device 0), fd_priv = 0, fd_flags = ALT_FD_DEV OR ALT_FD_EXCL\<rparr> ?s)"
    (is "_ = Ret (0, ?t)")
    using fd flag alt_fd_lock_result [OF ok fd] by (fastforce simp: ALT_IOCTL_def)
  have "alt_fd_list ?t ! 4 = \<lparr>fd_dev = None, fd_priv = 0, fd_flags = 0\<rparr>"
    by (simp add: device_files_def put_fd_def nth_append)
  moreover have "4 < length (alt_fd_list ?t)" by (simp add: device_files_def put_fd_def)
  ultimately have "None \<in> fd_dev ` set (alt_fd_list ?t)"
    using nth_mem [of 4 "alt_fd_list ?t"] by (metis alt_fd.select_convs(1) image_eqI)
  moreover have "ALT_IOCTL one_device (int 3) TIOCEXCL 0 ?s = Ret (0, ?t)" using lock by simp
  then have "\<exists>t. ALT_OPEN one_device ''/dev/uart'' 0 0 ?t = Ret (- 1, t)
     \<and> errno t = (if None \<in> fd_dev ` set (alt_fd_list ?t) then EACCES else EMFILE)
     \<and> map fd_dev (alt_fd_list t) = map fd_dev (alt_fd_list ?t)
     \<and> links t = links ?t \<and> world t = world ?t"
    by (rule locked_device_refused [OF ok device_files_device order_refl fd, rotated 2]) (use flag in simp_all)
  ultimately show ?thesis using lock by auto
qed

text \<open>Property C22. A device is locked exactly when no other descriptor below \<open>alt_max_fd\<close> refers to it: the
  descriptor \<open>alt_max_fd\<close> itself is not looked at, so a device open through it is locked all the same.\<close>

theorem lock_overlooks_highest:
  assumes "files_ok s" and "fd_at s k = Ret fd" and "fd_flags fd AND ALT_FD_DEV \<noteq> 0"
  shows "ALT_IOCTL devs (int k) TIOCEXCL arg s =
    Ret (if \<exists>j. int j < sint (alt_max_fd s) \<and> j \<noteq> k \<and> fd_dev (alt_fd_list s ! j) = fd_dev fd
         then (- EACCES, s\<lparr>errno := EACCES\<rparr>)
         else (0, put_fd k (fd\<lparr>fd_flags := fd_flags fd OR ALT_FD_EXCL\<rparr>) s))"
  using assms alt_fd_lock_result [OF assms(1,2)] by (simp add: ALT_IOCTL_def EACCES_def)

theorem lock_overlooks_highest_witness:
  "ALT_IOCTL one_device 3 TIOCEXCL 0 (device_files 2 ALT_FD_DEV) =
     Ret (0, put_fd 3 \<lparr>fd_dev = Some (Device 0), fd_priv = 0, fd_flags = ALT_FD_DEV OR ALT_FD_EXCL\<rparr>
       (device_files 2 ALT_FD_DEV))
   \<and> fd_dev (alt_fd_list (device_files 2 ALT_FD_DEV) ! 4) = Some (Device 0)"
proof
  let ?s = "device_files 2 ALT_FD_DEV"
  have fd: "fd_at ?s 3 = Ret \<lparr>fd_dev = Some (Device 0), fd_priv = 0, fd_flags = ALT_FD_DEV\<rparr>"
    using device_files_fd [of 2 0 ALT_FD_DEV] by simp
  have "int j < sint (alt_max_fd ?s) \<Longrightarrow> j \<noteq> 3 \<Longrightarrow> fd_dev (alt_fd_list ?s ! j) \<noteq> Some (Device 0)" for j
    using device_files_max [of 2] device_files_streams [of j] by simp
  then show "ALT_IOCTL one_device 3 TIOCEXCL 0 ?s =
     Ret (0, put_fd 3 \<lparr>fd_dev = Some (Device 0), fd_priv = 0, fd_flags = ALT_FD_DEV OR ALT_FD_EXCL\<rparr> ?s)"
    using lock_overlooks_highest [OF device_files_ok fd, of one_device 0]
    by (fastforce simp: ALT_FD_DEV_def)
qed (use device_files_fd [of 2 1 ALT_FD_DEV] in \<open>simp add: fd_at_def split: if_splits\<close>)

text \<open>Property C23. Opening a device and closing the descriptor again, with a driver that has no functions
  for it and no lock in the way, leaves the table, the lists and \<open>errno\<close> as they were.\<close>

theorem open_then_close:
  assumes "files_ok s" and "is_device devs nm d s" and "dev_open (devs d) = None" and "dev_close (devs d) = None"
    and "3 \<le> i" and "i < 32" and "\<forall>j < i. fd_dev (alt_fd_list s ! j) \<noteq> None"
    and "fd_dev (alt_fd_list s ! i) = None" and "fd_flags (alt_fd_list s ! i) = 0"
    and "\<not> exclusive (Some d) i (s\<lparr>alt_max_fd := 31\<rparr>)"
  shows "\<exists>t u. ALT_OPEN devs nm flags mode s = Ret (int i, t) \<and> ALT_CLOSE devs (int i) t = Ret (0, u)
    \<and> alt_fd_list u = alt_fd_list s \<and> links u = links s \<and> errno u = errno s \<and> world u = world s"
proof -
  note len = files_okD(1) [OF assms(1)]
  let ?t = "(put_fd i ((alt_fd_list s ! i)\<lparr>fd_dev := Some d\<rparr>) s)
      \<lparr>alt_max_fd := if sint (alt_max_fd s) < int i then of_nat i else alt_max_fd s\<rparr>"
  have get: "alt_get_fd d s = (int i, ?t)"
    using assms(1)
  proof (cases rule: alt_get_fd_cases [where d = d])
    case full then show ?thesis using assms(6,8) by blast
  next
    case (free k)
    then have "find (\<lambda>i. fd_dev (alt_fd_list s ! i) = None) [0..<ALT_MAX_FD] = Some i"
      using assms(6-8) by (auto simp: find_Some_iff ALT_MAX_FD_def intro!: exI [of _ i])
    then show ?thesis by (simp add: alt_get_fd_def Let_def put_fd_def)
  qed
  have "\<not> exclusive (Some d) i ?t"
    using assms(10) files_okD(4) [OF assms(1)] assms(6) sint_index [of i]
    unfolding exclusive_def by (fastforce split: if_splits)
  then obtain fl where open': "ALT_OPEN devs nm flags mode s =
      Ret (int i, put_fd i ((alt_fd_list s ! i)\<lparr>fd_dev := Some d, fd_flags := fl\<rparr>) ?t)"
    using open_device_free [OF assms(1,2) get assms(5)] assms(3,6) len by (auto simp: Let_def)
  then show ?thesis
    using assms(3-6,8,9) len
    by (auto simp: ALT_CLOSE_def fd_at_Ret driver_def alt_release_fd_def list_update_same_conv)
qed

theorem open_then_close_witness:
  "\<exists>t u. ALT_OPEN one_device ''/dev/uart'' 2 0 (device_files 1 0) = Ret (4, t) \<and> ALT_CLOSE one_device 4 t = Ret (0, u)
    \<and> alt_fd_list u = alt_fd_list (device_files 1 0) \<and> links u = links (device_files 1 0)
    \<and> errno u = errno (device_files 1 0) \<and> world u = world (device_files 1 0)"
proof -
  have "\<forall>j < 4. fd_dev (alt_fd_list (device_files 1 0) ! j) \<noteq> None"
    by (auto simp: device_files_def nth_append)
  moreover have "\<not> exclusive (Some (Device 0)) 4 ((device_files 1 0)\<lparr>alt_max_fd := 31\<rparr>)"
  proof -
    have "fd_flags e = 0" if "e \<in> set (alt_fd_list (device_files 1 0))" for e
      using that by (auto simp: device_files_def)
    then have "fd_flags (alt_fd_list (device_files 1 0) ! j) = 0" if "j < 32" for j
      using that nth_mem [of j "alt_fd_list (device_files 1 0)"] files_okD(1) [OF device_files_ok, of 1 0] by simp
    then show ?thesis by (auto simp: exclusive_def)
  qed
  moreover have "fd_dev (alt_fd_list (device_files 1 0) ! 4) = None" "fd_flags (alt_fd_list (device_files 1 0) ! 4) = 0"
    by (simp_all add: device_files_def nth_append)
  moreover have "dev_open (one_device (Device 0)) = None" "dev_close (one_device (Device 0)) = None"
    by (simp_all add: one_device_def alt_dev_null_def)
  ultimately show ?thesis
    using open_then_close [OF device_files_ok [of 1 0] device_files_device, of 4] by simp
qed

text \<open>A descriptor that is not open is caught by none of the calls that use its driver: they
  follow its null device pointer; only \<open>fcntl\<close>, and \<open>write\<close> by its access mode, return.\<close>

lemma closed_descriptor_undefined:
  assumes "fd_at s i = Ret fd" and "fd_dev fd = None" and "fd_flags fd = 0"
  shows "ALT_READ devs (int i) ptr len s = Undef \<and> ALT_LSEEK devs (int i) pos dir s = Undef
    \<and> ALT_FSTAT devs (int i) st s = Undef \<and> ALT_IOCTL devs (int i) req arg s = Undef
    \<and> ALT_ISATTY devs stack (int i) s = Undef \<and> ALT_CLOSE devs (int i) s = Undef
    \<and> ALT_WRITE devs (int i) ptr len s = Ret (- 1, s\<lparr>errno := EACCES\<rparr>)
    \<and> ALT_FCNTL (int i) F_GETFL arg s = Ret (0, s)"
  using assms
  by (simp add: ALT_READ_def ALT_LSEEK_def ALT_FSTAT_def ALT_IOCTL_def ALT_ISATTY_def ALT_CLOSE_def
      ALT_WRITE_def ALT_FCNTL_def driver_def fail_def O_RDONLY_def O_WRONLY_def)

lemma closed_descriptor_undefined_witness:
  "ALT_READ one_device 7 0x100 5 (device_files 1 0) = Undef"
  using closed_descriptor_undefined [of "device_files 1 0" 7] by (simp add: fd_at_def device_files_def nth_append)

end
