(* ===== verification/Process_Calls.thy ===== *)
theory Process_Calls
  imports File_Results
begin

text \<open>
  The remaining system calls of the HAL: \<open>stat\<close> (\<open>alt_stat.c\<close>), which opens, examines and closes; \<open>kill\<close>, \<open>wait\<close>,
  \<open>getpid\<close> and \<open>_exit\<close>, for a system with one process; and the calls that have no implementation (\<open>alt_fork.c\<close>,
  \<open>alt_execve.c\<close>, \<open>alt_link.c\<close>, \<open>alt_unlink.c\<close>, \<open>alt_rename.c\<close>).  All but \<open>stat\<close> are generic in the state of the
  system around \<open>errno\<close>.
\<close>

section \<open>stat\<close>

text \<open>\<open>open(file, 0)\<close> passes no mode: the driver gets whatever its argument register holds.\<close>

definition ALT_STAT ::
    "(node \<Rightarrow> 'w alt_dev) \<Rightarrow> u32 \<Rightarrow> string \<Rightarrow> u32 \<Rightarrow> 'w files \<Rightarrow> (int \<times> u32 \<times> 'w files) outcome" where
  "ALT_STAT devs mode file st s =
     seq (ALT_OPEN devs file 0 mode s) (\<lambda>(fd, s).
     seq (ALT_FSTAT devs fd st s) (\<lambda>(rc, st, s).
     seq (ALT_CLOSE devs fd s) (\<lambda>(_, s).
     Ret (rc, st, s))))"

section \<open>Signals and processes\<close>

text \<open>The numbers of \<open>sys/signal.h\<close> of newlib, in the order of the cases: first the signals that end the program, then the ignored ones.\<close>

definition exit_signals :: "int list" where
  "exit_signals = [6, 14, 8, 4, 9, 13, 3, 11, 15, 30, 31, 10, 23, 27, 12, 5, 26, 24, 25]"

definition ignored_signals :: "int list" where
  "ignored_signals = [20, 16]"

definition with_error :: "int \<Rightarrow> 'z hal_scheme \<Rightarrow> int \<times> 'z hal_scheme" where
  "with_error e s = (- 1, s\<lparr>errno := e\<rparr>)"

text \<open>\<open>while (1);\<close>: what is printed and told to the simulator before does nothing on the board.\<close>

definition ALT_EXIT :: "int \<Rightarrow> 'w \<Rightarrow> 'w outcome" where
  "ALT_EXIT exit_code s = loop (\<lambda>s. Ret (Again s)) s"

definition ALT_KILL :: "int \<Rightarrow> int \<Rightarrow> 'z hal_scheme \<Rightarrow> (int \<times> 'z hal_scheme) outcome" where
  "ALT_KILL pid sig s =
     seq (if pid \<le> 0 then
            if sig = 0 then Ret (0, s)
            else if sig \<in> set exit_signals then seq (ALT_EXIT 0 s) (\<lambda>s. Ret (0, s))
            else if sig \<in> set ignored_signals then Ret (0, s)
            else Ret (EINVAL, s)
          else Ret (ESRCH, s))
       (\<lambda>(status, s). if status \<noteq> 0 then Ret (with_error status s) else Ret (0, s))"

text \<open>The value left in \<open>*status\<close> comes second.\<close>

definition ALT_WAIT :: "'z hal_scheme \<Rightarrow> int \<times> int \<times> 'z hal_scheme" where
  "ALT_WAIT s = (let (rc, s) = with_error ECHILD s in (rc, 0, s))"

definition ALT_GETPID :: "'z hal_scheme \<Rightarrow> int \<times> 'z hal_scheme" where
  "ALT_GETPID s = (0, s)"

section \<open>Calls without an implementation\<close>

definition ALT_FORK :: "'z hal_scheme \<Rightarrow> int \<times> 'z hal_scheme" where
  "ALT_FORK s = with_error ENOSYS s"

definition ALT_EXECVE :: "string \<Rightarrow> string list \<Rightarrow> string list \<Rightarrow> 'z hal_scheme \<Rightarrow> int \<times> 'z hal_scheme" where
  "ALT_EXECVE name argv env s = with_error ENOSYS s"

definition ALT_LINK :: "string \<Rightarrow> string \<Rightarrow> 'z hal_scheme \<Rightarrow> int \<times> 'z hal_scheme" where
  "ALT_LINK existing new s = with_error ENOSYS s"

definition ALT_UNLINK :: "string \<Rightarrow> 'z hal_scheme \<Rightarrow> int \<times> 'z hal_scheme" where
  "ALT_UNLINK name s = with_error ENOSYS s"

definition ALT_RENAME :: "string \<Rightarrow> string \<Rightarrow> 'z hal_scheme \<Rightarrow> int \<times> 'z hal_scheme" where
  "ALT_RENAME existing new s = with_error ENOSYS s"

section \<open>What they do\<close>

lemma exit_hangs: "ALT_EXIT n s = Hang"
  unfolding ALT_EXIT_def by (rule loop_hangs [where I = "\<lambda>_. True"]) auto

text \<open>A signal that ends the program never returns; every other one returns, the process being the only one.\<close>

lemma kill_returns:
  "ALT_KILL pid sig s =
     (if 0 < pid then Ret (- 1, s\<lparr>errno := ESRCH\<rparr>)
      else if sig \<in> set exit_signals then Hang
      else if sig = 0 \<or> sig \<in> set ignored_signals then Ret (0, s)
      else Ret (- 1, s\<lparr>errno := EINVAL\<rparr>))"
  by (simp add: ALT_KILL_def exit_hangs with_error_def errno_defs exit_signals_def)

text \<open>\<open>stat\<close> keeps the descriptors typed, as the calls it is made of.\<close>

context drivers
begin

lemma ALT_STAT_ok: "files_ok s \<Longrightarrow> ensures (ALT_STAT devs mode file st s) (\<lambda>(rc, st, s). files_ok s)"
  unfolding ALT_STAT_def
  by (intro ensures_seq [OF ALT_OPEN_ok])
    (auto intro!: ensures_seq [OF ALT_FSTAT_ok] ensures_seq [OF ALT_CLOSE_ok])

end

text \<open>When \<open>open\<close> fails, \<open>stat\<close> goes on with the descriptor \<open>-1\<close>: the reason is lost, \<open>errno\<close> says that the descriptor is bad.\<close>

lemma stat_of_missing:
  assumes "ALT_OPEN devs file 0 mode s = Ret (- 1, t)"
  shows "ALT_STAT devs mode file st s = Ret (- 1, st, t\<lparr>errno := EBADFD\<rparr>)"
  using assms by (simp add: ALT_STAT_def ALT_FSTAT_def ALT_CLOSE_def fail_def)

lemma no_such_file:
  assumes "open_find devs file s = Ret (None, b)"
  shows "ALT_OPEN devs file flags mode s = Ret (- 1, s\<lparr>errno := ENODEV\<rparr>)"
    and "ALT_STAT devs mode file st s = Ret (- 1, st, s\<lparr>errno := EBADFD\<rparr>)"
proof -
  show "ALT_OPEN devs file flags mode s = Ret (- 1, s\<lparr>errno := ENODEV\<rparr>)" for flags
    using assms by (simp add: ALT_OPEN_def alt_release_fd_def fail_def errno_defs)
  from stat_of_missing [OF this] show "ALT_STAT devs mode file st s = Ret (- 1, st, s\<lparr>errno := EBADFD\<rparr>)" by simp
qed

lemma not_implemented:
  "ALT_FORK s = (- 1, s\<lparr>errno := ENOSYS\<rparr>)" "ALT_EXECVE nm argv env s = (- 1, s\<lparr>errno := ENOSYS\<rparr>)"
  "ALT_LINK old new s = (- 1, s\<lparr>errno := ENOSYS\<rparr>)" "ALT_UNLINK nm s = (- 1, s\<lparr>errno := ENOSYS\<rparr>)"
  "ALT_RENAME old new s = (- 1, s\<lparr>errno := ENOSYS\<rparr>)"
  by (simp_all add: ALT_FORK_def ALT_EXECVE_def ALT_LINK_def ALT_UNLINK_def ALT_RENAME_def with_error_def)

end
