(* ===== verification/Loading.thy ===== *)
theory Loading
  imports Prelude
begin

text \<open>
  What runs before \<open>main\<close>: the copying of sections from flash to RAM (\<open>sys/alt_load.h\<close>, \<open>alt_load.c\<close>), and the
  tables of constructors and destructors (\<open>alt_do_ctors.c\<close>, \<open>alt_do_dtors.c\<close>).  Memory is a function from addresses to
  words; the start, load and end addresses of the sections are the linker's, and aligned to words, as \<open>alt_load.h\<close>
  assumes of them: then different addresses are different words, which the model takes for granted.  Flushing caches does nothing on this core.
\<close>

section \<open>Copying sections\<close>

type_synonym word_memory = "u32 \<Rightarrow> u32"

text \<open>\<open>if (to != from) while (to != end) *to++ = *from++\<close>.\<close>

definition alt_load_section :: "u32 \<Rightarrow> u32 \<Rightarrow> u32 \<Rightarrow> word_memory \<Rightarrow> word_memory outcome" where
  "alt_load_section src dst fin mem =
     (if dst \<noteq> src then
        loop (\<lambda>(src, dst, mem). if dst \<noteq> fin then Ret (Again (src + 4, dst + 4, mem(dst := mem src)))
          else Ret (Break mem)) (src, dst, mem)
      else Ret mem)"

record linker_symbols =
  flash_rwdata_start :: u32
  ram_rwdata_start :: u32
  ram_rwdata_end :: u32
  flash_rodata_start :: u32
  ram_rodata_start :: u32
  ram_rodata_end :: u32
  flash_exceptions_start :: u32
  ram_exceptions_start :: u32
  ram_exceptions_end :: u32

definition alt_load :: "linker_symbols \<Rightarrow> word_memory \<Rightarrow> word_memory outcome" where
  "alt_load l mem =
     seq (alt_load_section (flash_rwdata_start l) (ram_rwdata_start l) (ram_rwdata_end l) mem) (\<lambda>mem.
     seq (alt_load_section (flash_exceptions_start l) (ram_exceptions_start l) (ram_exceptions_end l) mem) (\<lambda>mem.
     alt_load_section (flash_rodata_start l) (ram_rodata_start l) (ram_rodata_end l) mem))"

section \<open>Constructors and destructors\<close>

text \<open>The table is a list of addresses, \<open>calls\<close> the code at an address; the loop goes from its end to its start.\<close>

definition run_table :: "(u32 \<Rightarrow> 'w \<Rightarrow> 'w outcome) \<Rightarrow> u32 list \<Rightarrow> 'w \<Rightarrow> 'w outcome" where
  "run_table calls table w = loop (\<lambda>(i, w). if 0 \<le> i then seq (calls (table ! nat i) w) (\<lambda>w. Ret (Again (i - 1, w)))
     else Ret (Break w)) (int (length table) - 1, w)"

definition do_ctors :: "(u32 \<Rightarrow> 'w \<Rightarrow> 'w outcome) \<Rightarrow> u32 list \<Rightarrow> 'w \<Rightarrow> 'w outcome" where
  "do_ctors calls ctors w = run_table calls ctors w"

definition do_dtors :: "(u32 \<Rightarrow> 'w \<Rightarrow> 'w outcome) \<Rightarrow> u32 list \<Rightarrow> 'w \<Rightarrow> 'w outcome" where
  "do_dtors calls dtors w = run_table calls dtors w"

primrec run_all :: "(u32 \<Rightarrow> 'w \<Rightarrow> 'w outcome) \<Rightarrow> u32 list \<Rightarrow> 'w \<Rightarrow> 'w outcome" where
  "run_all calls [] w = Ret w"
| "run_all calls (f # fs) w = seq (calls f w) (run_all calls fs)"

lemma table_runs_backwards: "run_table calls table w = run_all calls (rev table) w"
proof -
  have "loop (\<lambda>(i, w). if 0 \<le> i then seq (calls (table ! nat i) w) (\<lambda>w. Ret (Again (i - 1, w)))
      else Ret (Break w)) (int k - 1, w) = run_all calls (rev (take k table)) w" if "k \<le> length table" for k w
    using that
  proof (induction k arbitrary: w)
    case 0
    then show ?case by (simp add: loop_Break)
  next
    case (Suc k)
    have "rev (take (Suc k) table) = table ! k # rev (take k table)"
      using Suc.prems by (simp add: take_Suc_conv_app_nth)
    then show ?case
      using Suc by (subst loop_unfold) (cases "calls (table ! k) w"; simp)
  qed
  then show ?thesis by (simp add: run_table_def)
qed

section \<open>What is copied\<close>

lemma multiple_nonzero: "0 < n \<Longrightarrow> n < 2 ^ 30 \<Longrightarrow> (4 :: u32) * word_of_nat n \<noteq> 0"
proof -
  assume n: "0 < n" "n < 2 ^ 30"
  have "unat ((4 :: u32) * word_of_nat n) = 4 * n"
    using n by (simp add: unat_word_ariths(2) unat_of_nat)
  then show ?thesis using n(1) by auto
qed

lemma copy_loop:
  fixes src dst fin :: u32
  assumes "n < 2 ^ 30" and "\<forall>i < n. \<forall>j < n. src + 4 * word_of_nat i \<noteq> dst + 4 * word_of_nat j"
    and "fin = dst + 4 * word_of_nat n"
  shows "loop (\<lambda>(src, dst, mem). if dst \<noteq> fin then Ret (Again (src + 4, dst + 4, mem(dst := mem src)))
      else Ret (Break mem)) (src, dst, mem)
    = Ret (\<lambda>a. if \<exists>i < n. a = dst + 4 * word_of_nat i then mem (src + (a - dst)) else mem a)"
    (is "loop ?body _ = _")
  using assms
proof (induction n arbitrary: src dst mem)
  case 0
  then show ?case by (simp add: loop_Break)
next
  case (Suc n)
  let ?mem = "mem(dst := mem src)"
  have "dst \<noteq> fin" using multiple_nonzero [of "Suc n"] Suc.prems(1,3) by (auto simp: algebra_simps)
  then have "loop ?body (src, dst, mem) = loop ?body (src + 4, dst + 4, ?mem)" by (simp add: loop_Again)
  also have "\<dots> = Ret (\<lambda>a. if \<exists>i < n. a = dst + 4 + 4 * word_of_nat i
      then ?mem (src + 4 + (a - (dst + 4))) else ?mem a)"
  proof (rule Suc.IH)
    show "\<forall>i < n. \<forall>j < n. src + 4 + 4 * word_of_nat i \<noteq> dst + 4 + 4 * word_of_nat j"
    proof (intro allI impI)
      fix i j assume "i < n" "j < n"
      then have "src + 4 * word_of_nat (Suc i) \<noteq> dst + 4 * word_of_nat (Suc j)" using Suc.prems(2) by blast
      then show "src + 4 + 4 * word_of_nat i \<noteq> dst + 4 + 4 * word_of_nat j" by (simp add: algebra_simps)
    qed
  qed (use Suc.prems in \<open>simp_all add: algebra_simps\<close>)
  also have "(\<lambda>a. if \<exists>i < n. a = dst + 4 + 4 * word_of_nat i then ?mem (src + 4 + (a - (dst + 4))) else ?mem a)
    = (\<lambda>a. if \<exists>i < Suc n. a = dst + 4 * word_of_nat i then mem (src + (a - dst)) else mem a)"
  proof (rule ext)
    fix a
    have split: "(\<exists>i < Suc n. a = dst + 4 * word_of_nat i) \<longleftrightarrow> a = dst \<or> (\<exists>i < n. a = dst + 4 + 4 * word_of_nat i)"
      by (simp add: Ex_less_Suc2 algebra_simps)
    show "(if \<exists>i < n. a = dst + 4 + 4 * word_of_nat i then ?mem (src + 4 + (a - (dst + 4))) else ?mem a)
      = (if \<exists>i < Suc n. a = dst + 4 * word_of_nat i then mem (src + (a - dst)) else mem a)"
    proof (cases "\<exists>i < n. a = dst + 4 + 4 * word_of_nat i")
      case True
      then obtain i where i: "i < n" "a = dst + 4 + 4 * word_of_nat i" by blast
      then have "src + 4 * word_of_nat (Suc i) \<noteq> dst + 4 * word_of_nat 0" using Suc.prems(2) by blast
      then have "src + (a - dst) \<noteq> dst" using i(2) by (simp add: algebra_simps)
      then show ?thesis unfolding split using True by (cases "a = dst") (simp_all add: algebra_simps)
    next
      case False
      then show ?thesis unfolding split by (simp only: if_False simp_thms) simp
    qed
  qed
  finally show ?case .
qed

section \<open>Properties\<close>

text \<open>Property C34. A section of whole, aligned words that does not overlap its place in flash is copied there word by word, and nothing else
  changes.\<close>

theorem section_is_loaded:
  assumes "n < 2 ^ 30" and "\<forall>i < n. \<forall>j < n. src + 4 * word_of_nat i \<noteq> dst + 4 * word_of_nat j"
  shows "\<exists>mem'. alt_load_section src dst (dst + 4 * word_of_nat n) mem = Ret mem'
    \<and> map (\<lambda>i. mem' (dst + 4 * word_of_nat i)) [0..<n] = map (\<lambda>i. mem (src + 4 * word_of_nat i)) [0..<n]
    \<and> {a. mem' a \<noteq> mem a} \<subseteq> (\<lambda>i. dst + 4 * word_of_nat i) ` {..<n}"
proof -
  let ?mem = "\<lambda>a. if \<exists>i < n. a = dst + 4 * word_of_nat i then mem (src + (a - dst)) else mem a"
  have "alt_load_section src dst (dst + 4 * word_of_nat n) mem = Ret ?mem"
  proof (cases "dst = src")
    case True
    with assms(2) have "n = 0" by (metis not_gr_zero)
    then show ?thesis using True by (simp add: alt_load_section_def)
  next
    case False
    then show ?thesis using copy_loop [OF assms refl] by (simp add: alt_load_section_def)
  qed
  moreover have "map (\<lambda>i. ?mem (dst + 4 * word_of_nat i)) [0..<n] = map (\<lambda>i. mem (src + 4 * word_of_nat i)) [0..<n]"
    by (rule map_cong) auto
  moreover have "{a. ?mem a \<noteq> mem a} \<subseteq> (\<lambda>i. dst + 4 * word_of_nat i) ` {..<n}" by auto
  ultimately show ?thesis by (intro exI [of _ ?mem] conjI)
qed

theorem section_is_loaded_witness:
  "\<exists>mem'. alt_load_section 0x100 0x8000 0x8008 (\<lambda>a. a + 1) = Ret mem'
    \<and> map (\<lambda>i. mem' (0x8000 + 4 * word_of_nat i)) [0..<2] = [0x101, 0x105]"
proof -
  have "\<forall>i < 2. \<forall>j < 2. (0x100 :: u32) + 4 * word_of_nat i \<noteq> 0x8000 + 4 * word_of_nat j"
    by (auto simp: less_2_cases_iff)
  from section_is_loaded [OF _ this, of "\<lambda>a. a + 1"] show ?thesis
    by (auto simp: upt_rec)
qed

text \<open>A section whose size is not a multiple of four is copied for ever: the loop compares for equality.\<close>

lemma odd_section_hangs:
  assumes "src \<noteq> dst" and "\<not> 4 dvd unat (fin - dst)"
  shows "alt_load_section src dst fin mem = Hang"
proof -
  have "loop (\<lambda>(src, dst, mem). if dst \<noteq> fin then Ret (Again (src + 4, dst + 4, mem(dst := mem src)))
      else Ret (Break mem)) (src, dst, mem) = Hang"
  proof (rule loop_hangs [where I = "\<lambda>(src, dst, mem). \<not> 4 dvd unat (fin - dst)"])
    fix x :: "u32 \<times> u32 \<times> word_memory"
    assume "case x of (src, dst, mem) \<Rightarrow> \<not> 4 dvd unat (fin - dst)"
    then obtain a d m where x: "x = (a, d, m)" "\<not> 4 dvd unat (fin - d)" by (cases x) auto
    have "fin - d = (fin - (d + 4)) + 4" by simp
    then have "unat (fin - d) = (unat (fin - (d + 4)) + 4) mod 2 ^ 32"
      by (simp only: unat_word_ariths(1)) simp
    then have "\<not> 4 dvd unat (fin - (d + 4))" using x(2) by (auto intro: dvd_mod)
    moreover have "d \<noteq> fin" using x(2) by auto
    ultimately show "\<exists>y. (case x of (src, dst, mem) \<Rightarrow> if dst \<noteq> fin then Ret (Again (src + 4, dst + 4, mem(dst := mem src)))
        else Ret (Break mem)) = Ret (Again y) \<and> (case y of (src, dst, mem) \<Rightarrow> \<not> 4 dvd unat (fin - dst))"
      using x(1) by simp
  qed (use assms in simp)
  then show ?thesis using assms(1) by (simp add: alt_load_section_def)
qed

end
