(* ===== verification/Startup.thy ===== *)
theory Startup
  imports Irq Process_Calls Loading Main_Loop
begin

text \<open>
  The C entry point of the board support package (\<open>alt_main.c\<close>), which starts the firmware.  It runs on the processor
  of \<open>Irq\<close>, whose system is the files of \<open>Files\<close>, whose world is the machine of the firmware.  The initialisers of
  the SPI, I2C and identification components are empty macros (\<open>alt_sys_init.c\<close>), the standard streams are not
  redirected (\<open>system.h\<close> gives none), and the boot log is off.  newlib's \<open>atexit\<close> and \<open>exit\<close> are parameters.
\<close>

section \<open>Lifting to the processor\<close>

definition on_system :: "('s \<Rightarrow> ('a \<times> 's) outcome) \<Rightarrow> 's cpu \<Rightarrow> ('a \<times> 's cpu) outcome" where
  "on_system f s = seq (f (system s)) (\<lambda>(a, t). Ret (a, s\<lparr>system := t\<rparr>))"

definition alt_sys_init :: "'s cpu \<Rightarrow> 's cpu" where
  "alt_sys_init s = s"

section \<open>Entry\<close>

definition alt_main ::
    "(node \<Rightarrow> 'w alt_dev) \<Rightarrow> (u32 \<Rightarrow> 'w files cpu \<Rightarrow> 'w files cpu outcome) \<Rightarrow> u32 list
      \<Rightarrow> ('w files cpu \<Rightarrow> 'w files cpu outcome) \<Rightarrow> (int \<Rightarrow> 'w files cpu \<Rightarrow> 'w files cpu outcome)
      \<Rightarrow> ('w files cpu \<Rightarrow> (int \<times> 'w files cpu) outcome) \<Rightarrow> 'w files cpu \<Rightarrow> 'w files cpu outcome" where
  "alt_main devs calls ctors atexit exit prog s =
     (let s = alt_irq_init s; s = alt_sys_init s in
      seq (do_ctors calls ctors s) (\<lambda>s.
      seq (atexit s) (\<lambda>s.
      seq (prog s) (\<lambda>(result, s).
      seq (on_system (ALT_CLOSE devs 1) s) (\<lambda>(_, s).
      exit result s)))))"

text \<open>The \<open>main\<close> of the application; its globals are as the loader leaves them.\<close>

definition firmware :: "device \<Rightarrow> machine files cpu \<Rightarrow> (int \<times> machine files cpu) outcome" where
  "firmware dev s = seq (main dev) (\<lambda>m. Ret (0, s\<lparr>system := (system s)\<lparr>world := m\<rparr>\<rparr>))"

section \<open>From reset to the firmware\<close>

text \<open>\<open>main\<close> is entered with interrupts enabled and every line masked: no handler can run, and the firmware registers none.\<close>

lemma main_entered:
  assumes "\<And>s. atexit s = Ret s"
  shows "alt_main devs calls [] atexit exit prog s =
    (let s = s\<lparr>ienable := 0, status := 1\<rparr> in
     seq (prog s) (\<lambda>(result, s). seq (on_system (ALT_CLOSE devs 1) s) (\<lambda>(_, s). exit result s)))"
  using assms
  by (simp add: alt_main_def do_ctors_def table_runs_backwards alt_sys_init_def alt_irq_init_def
      altera_nios2_gen2_irq_init_def alt_irq_cpu_enable_interrupts_def NIOS2_STATUS_PIE_MSK_def Let_def)

text \<open>Constructors run from the last of the table to the first, before \<open>main\<close>.\<close>

lemma constructors_first:
  "alt_main devs calls ctors atexit exit prog s =
    seq (run_all calls (rev ctors) (alt_irq_init s)) (\<lambda>s. seq (atexit s) (\<lambda>s. seq (prog s) (\<lambda>(result, s).
      seq (on_system (ALT_CLOSE devs 1) s) (\<lambda>(_, s). exit result s))))"
  by (simp add: alt_main_def do_ctors_def table_runs_backwards alt_sys_init_def)

text \<open>The program never ends, whatever the hardware answers: \<open>exit\<close> is never reached.\<close>

lemma firmware_never_exits: "alt_main devs calls ctors atexit exit (firmware dev) s \<noteq> Ret t"
  by (auto simp: constructors_first firmware_def seq_eq_Ret main_no_result)

end
