(* ===== verification/Caches.thy ===== *)
theory Caches
  imports Prelude
begin

text \<open>
  Cache maintenance (\<open>alt_dcache_flush.c\<close>, \<open>alt_dcache_flush_all.c\<close>, \<open>alt_dcache_flush_no_writeback.c\<close>,
  \<open>alt_icache_flush.c\<close>, \<open>alt_icache_flush_all.c\<close>) and uncached memory (\<open>alt_uncached_malloc.c\<close>,
  \<open>alt_uncached_free.c\<close>, \<open>alt_remap_cached.c\<close>, \<open>alt_remap_uncached.c\<close>).  The sizes of the caches are macros of
  \<open>system.h\<close>, here a record; \<open>lms_ctr\<close> is the one of this board, which has no caches.  What a function does is the list of
  cache instructions it executes.  newlib's allocator is a parameter.
\<close>

section \<open>The processor's caches\<close>

record caches =
  dcache_size :: u32
  dcache_line :: u32
  dcache_bypass :: "u32 option"
  icache_size :: u32
  icache_line :: u32

definition lms_ctr :: caches where
  "lms_ctr = \<lparr>dcache_size = 0, dcache_line = 0, dcache_bypass = None, icache_size = 0, icache_line = 0\<rparr>"

datatype cache_op = Flushda u32 | Initda u32 | Flushd u32 | Flushi u32 | Flushp

section \<open>Flushing\<close>

text \<open>\<open>for (i = start; i < end; i += line)\<close>: the result has the last \<open>i\<close>.\<close>

definition flush_lines :: "(u32 \<Rightarrow> cache_op) \<Rightarrow> u32 \<Rightarrow> u32 \<Rightarrow> u32 \<Rightarrow> cache_op list \<Rightarrow> (u32 \<times> cache_op list) outcome" where
  "flush_lines f line fin start ops = loop (\<lambda>(i, ops).
     if i < fin then Ret (Again (i + line, ops @ [f i])) else Ret (Break (i, ops))) (start, ops)"

definition flush_region :: "(u32 \<Rightarrow> cache_op) \<Rightarrow> u32 \<Rightarrow> u32 \<Rightarrow> u32 \<Rightarrow> cache_op list \<Rightarrow> cache_op list outcome" where
  "flush_region f line start fin ops =
     seq (flush_lines f line fin start ops) (\<lambda>(i, ops).
     Ret (if start AND (line - 1) \<noteq> 0 then ops @ [f i] else ops))"

definition alt_dcache_flush :: "caches \<Rightarrow> u32 \<Rightarrow> u32 \<Rightarrow> cache_op list \<Rightarrow> cache_op list outcome" where
  "alt_dcache_flush c start len ops =
     (if 0 < dcache_size c then flush_region Flushda (dcache_line c) start (start + len) ops else Ret ops)"

definition alt_dcache_flush_no_writeback :: "caches \<Rightarrow> u32 \<Rightarrow> u32 \<Rightarrow> cache_op list \<Rightarrow> cache_op list outcome" where
  "alt_dcache_flush_no_writeback c start len ops = flush_region Initda (dcache_line c) start (start + len) ops"

definition alt_dcache_flush_all :: "caches \<Rightarrow> cache_op list \<Rightarrow> cache_op list outcome" where
  "alt_dcache_flush_all c ops =
     (if 0 < dcache_size c then
        seq (flush_lines Flushd (dcache_line c) (dcache_size c) 0 ops) (\<lambda>(i, ops). Ret ops)
      else Ret ops)"

definition alt_icache_flush :: "caches \<Rightarrow> u32 \<Rightarrow> u32 \<Rightarrow> cache_op list \<Rightarrow> cache_op list outcome" where
  "alt_icache_flush c start len ops =
     (if 0 < icache_size c then
        let len = (if icache_size c < len then icache_size c else len) in
        seq (flush_region Flushi (icache_line c) start (start + len) ops) (\<lambda>ops. Ret (ops @ [Flushp]))
      else Ret ops)"

definition alt_icache_flush_all :: "caches \<Rightarrow> cache_op list \<Rightarrow> cache_op list outcome" where
  "alt_icache_flush_all c ops =
     (if 0 < icache_size c then alt_icache_flush c 0 (icache_size c) ops else Ret ops)"

section \<open>Uncached memory\<close>

text \<open>Without the bypass bit the functions do not link; the value is that of the return that follows.\<close>

definition alt_uncached_malloc ::
    "caches \<Rightarrow> (u32 \<Rightarrow> 'w \<Rightarrow> u32 \<times> 'w) \<Rightarrow> (u32 \<Rightarrow> u32 \<Rightarrow> 'w \<Rightarrow> u32 \<times> 'w) \<Rightarrow> u32 \<Rightarrow> 'w \<times> cache_op list
      \<Rightarrow> (u32 \<times> 'w \<times> cache_op list) outcome" where
  "alt_uncached_malloc c malloc memalign sz x =
     (let (w, ops) = x in
      if 0 < dcache_size c then
        (case dcache_bypass c of
           Some bypass \<Rightarrow>
             let num_lines = (sz + dcache_line c - 1) div dcache_line c;
                 aligned_size = num_lines * dcache_line c;
                 (ptr, w) = memalign (dcache_line c) aligned_size w
             in if ptr = 0 then Ret (0, w, ops)
                else seq (alt_dcache_flush c ptr aligned_size ops) (\<lambda>ops. Ret (ptr OR bypass, w, ops))
         | None \<Rightarrow> Ret (0, w, ops))
      else let (ptr, w) = malloc sz w in Ret (ptr, w, ops))"

definition alt_uncached_free :: "caches \<Rightarrow> (u32 \<Rightarrow> 'w \<Rightarrow> 'w) \<Rightarrow> u32 \<Rightarrow> 'w \<Rightarrow> 'w" where
  "alt_uncached_free c free ptr w =
     (if 0 < dcache_size c then
        (case dcache_bypass c of Some bypass \<Rightarrow> free (ptr AND NOT bypass) w | None \<Rightarrow> w)
      else free ptr w)"

definition alt_remap_cached :: "caches \<Rightarrow> u32 \<Rightarrow> u32 \<Rightarrow> u32" where
  "alt_remap_cached c ptr len =
     (if 0 < dcache_size c then
        (case dcache_bypass c of Some bypass \<Rightarrow> ptr AND NOT bypass | None \<Rightarrow> 0)
      else ptr)"

definition alt_remap_uncached :: "u32 \<Rightarrow> u32 \<Rightarrow> u32" where
  "alt_remap_uncached ptr len = 0"

section \<open>The lines a region is flushed by\<close>

definition line_of :: "nat \<Rightarrow> u32 \<Rightarrow> nat" where
  "line_of k a = unat a div 2 ^ k"

text \<open>The lines that hold the bytes of a region.\<close>

definition lines_of :: "nat \<Rightarrow> u32 \<Rightarrow> u32 \<Rightarrow> nat set" where
  "lines_of k start len = (\<lambda>i. (unat start + i) div 2 ^ k) ` {..<unat len}"

lemma rounds:
  fixes d L :: nat
  assumes "0 < d" and "0 < L"
  shows "(d + L - 1) div L = Suc ((d - L + L - 1) div L)"
proof (cases "L \<le> d")
  case True
  then have "d + L - 1 = (d - 1) + L" "d - L + L - 1 = d - 1" using assms by simp_all
  moreover have "((d - 1) + L) div L = Suc ((d - 1) div L)" using assms(2) by (simp add: div_add_self2)
  ultimately show ?thesis by simp
next
  case False
  then have "(d + L - 1) div L = 1" using assms by (intro div_nat_eqI) simp_all
  then show ?thesis using False assms by simp
qed

lemma flush_lines_run:
  assumes "unat line = 2 ^ k" and "unat fin + 2 ^ k \<le> 2 ^ 32"
  shows "\<exists>as j. flush_lines f line fin i ops = Ret (j, ops @ map f as)
    \<and> map (line_of k) as = [line_of k i..<line_of k j]
    \<and> line_of k j = line_of k i + (unat fin - unat i + 2 ^ k - 1) div 2 ^ k"
proof (induction "unat fin - unat i" arbitrary: i ops rule: less_induct)
  case less
  show ?case
  proof (cases "i < fin")
    case False
    then have "flush_lines f line fin i ops = Ret (i, ops @ map f [])"
      by (simp add: flush_lines_def loop_Break)
    then show ?thesis using False
      by (intro exI [of _ "[]"] exI [of _ i]) (simp add: word_less_nat_alt)
  next
    case True
    then have d: "0 < unat fin - unat i" by (simp add: word_less_nat_alt)
    then have "unat i + 2 ^ k < 2 ^ 32" using assms(2) by linarith
    then have next': "unat (i + line) = unat i + 2 ^ k" by (simp add: unat_word_ariths(1) assms(1))
    have line: "line_of k (i + line) = Suc (line_of k i)" unfolding line_of_def next' by (simp add: div_add_self2)
    have "unat fin - unat (i + line) < unat fin - unat i" using d zero_less_power [of "2 :: nat" k] unfolding next' by linarith
    then obtain as j where rest:
      "flush_lines f line fin (i + line) (ops @ [f i]) = Ret (j, (ops @ [f i]) @ map f as)"
      "map (line_of k) as = [line_of k (i + line)..<line_of k j]"
      "line_of k j = line_of k (i + line) + (unat fin - unat (i + line) + 2 ^ k - 1) div 2 ^ k"
      using less.hyps by blast
    have "flush_lines f line fin i ops = flush_lines f line fin (i + line) (ops @ [f i])"
      using True unfolding flush_lines_def by (simp add: loop_Again)
    moreover have "line_of k j = line_of k i + (unat fin - unat i + 2 ^ k - 1) div 2 ^ k"
      using rest(3) rounds [OF d, of "2 ^ k"] unfolding line next' by (simp add: diff_diff_left)
    moreover have "line_of k i # [Suc (line_of k i)..<line_of k j] = [line_of k i..<line_of k j]"
      by (rule upt_conv_Cons [symmetric]) (use rest(3) line in simp)
    ultimately show ?thesis using rest(1,2) line
      by (intro exI [of _ "i # as"] exI [of _ j] conjI) simp_all
  qed
qed

lemma low_bits:
  assumes "unat (line :: u32) = 2 ^ k"
  shows "start AND (line - 1) = 0 \<longleftrightarrow> 2 ^ k dvd unat start"
proof -
  have line: "line = 2 ^ k" using arg_cong [OF assms, of "word_of_nat :: nat \<Rightarrow> u32"] by simp
  then have "start AND (line - 1) = take_bit k start" by (simp add: take_bit_eq_mask mask_eq_exp_minus_1)
  moreover have "unat (take_bit k start) = unat start mod 2 ^ k"
  proof -
    have "take_bit k start = start mod line" using line by (simp add: take_bit_eq_mod)
    then show ?thesis by (simp add: unat_mod assms)
  qed
  ultimately show ?thesis by (metis dvd_eq_mod_eq_0 unat_0 unsigned_eq_0_iff)
qed

lemma flush_region_lines:
  assumes "unat line = 2 ^ k" and "unat start + unat len + 2 ^ k \<le> 2 ^ 32"
  shows "\<exists>as. flush_region f line start (start + len) ops = Ret (ops @ map f as)
    \<and> map (line_of k) as = [line_of k start..<line_of k start + (unat len + 2 ^ k - 1) div 2 ^ k
        + (if 2 ^ k dvd unat start then 0 else 1)]"
proof -
  have "unat start + unat len < 2 ^ 32" using assms(2) zero_less_power [of "2 :: nat" k] by linarith
  then have fin: "unat (start + len) = unat start + unat len" by (simp add: unat_word_ariths(1))
  obtain as j where run: "flush_lines f line (start + len) start ops = Ret (j, ops @ map f as)"
      "map (line_of k) as = [line_of k start..<line_of k j]"
      "line_of k j = line_of k start + (unat len + 2 ^ k - 1) div 2 ^ k"
    using flush_lines_run [OF assms(1), where fin = "start + len" and i = start and f = f and ops = ops] assms(2) fin by auto
  show ?thesis
  proof (cases "2 ^ k dvd unat start")
    case True
    then show ?thesis using run low_bits [OF assms(1)] by (intro exI [of _ as]) (simp add: flush_region_def)
  next
    case False
    then have "flush_region f line start (start + len) ops = Ret (ops @ map f (as @ [j]))"
      using run(1) low_bits [OF assms(1)] by (simp add: flush_region_def)
    moreover have "map (line_of k) (as @ [j]) = [line_of k start..<Suc (line_of k j)]"
      using run(2,3) by simp
    ultimately show ?thesis using False run(3) by (intro exI [of _ "as @ [j]"]) simp
  qed
qed

lemma last_byte:
  fixes a n L :: nat
  assumes "0 < L" and "0 < n"
  shows "(a + (n - 1)) div L = a div L + (a mod L + (n - 1)) div L"
    and "(n + L - 1) div L = Suc ((n - 1) div L)"
proof -
  have "a + (n - 1) = (a mod L + (n - 1)) + a div L * L" by simp
  then show "(a + (n - 1)) div L = a div L + (a mod L + (n - 1)) div L"
    using assms(1) div_mult_self1 [of L "a mod L + (n - 1)" "a div L"] by simp
  have "n + L - 1 = (n - 1) + L" using assms by simp
  moreover have "((n - 1) + L) div L = Suc ((n - 1) div L)" using assms(1) by (simp add: div_add_self2)
  ultimately show "(n + L - 1) div L = Suc ((n - 1) div L)" by simp
qed

lemma no_carry:
  fixes x m L :: nat
  assumes "x + m mod L < L"
  shows "(x + m) div L = m div L"
proof -
  have "x + m = (x + m mod L) + m div L * L" by (simp only: add.assoc mod_div_mult_eq)
  then have "(x + m) div L = ((x + m mod L) + m div L * L) div L" by (rule arg_cong)
  also have "\<dots> = m div L + (x + m mod L) div L" using assms by (subst div_mult_self1) simp_all
  finally show ?thesis using assms by simp
qed

lemma lines_covered:
  "lines_of k start len \<subseteq> {line_of k start..<line_of k start + (unat len + 2 ^ k - 1) div 2 ^ k
     + (if 2 ^ k dvd unat start then 0 else 1)}"
proof (clarsimp simp only: lines_of_def lessThan_iff atLeastLessThan_iff line_of_def)
  fix i assume i: "i < unat len"
  let ?L = "2 ^ k :: nat" and ?a = "unat start" and ?n = "unat len"
  have n: "0 < ?n" using i by linarith
  have L: "0 < ?L" by simp
  have "(?a + i) div ?L \<le> (?a + (?n - 1)) div ?L" using i by (intro div_le_mono) linarith
  also have "\<dots> = ?a div ?L + (?a mod ?L + (?n - 1)) div ?L" by (rule last_byte(1) [OF L n])
  also have "(?a mod ?L + (?n - 1)) div ?L \<le> (?n - 1) div ?L + (if ?L dvd ?a then 0 else 1)"
  proof (cases "?L dvd ?a")
    case False
    have "?a mod ?L + (?n - 1) \<le> (?n - 1) + ?L" by (simp add: less_imp_le)
    then have "(?a mod ?L + (?n - 1)) div ?L \<le> ((?n - 1) + ?L) div ?L" by (rule div_le_mono)
    then show ?thesis using False by (simp add: div_add_self2)
  qed (simp add: dvd_eq_mod_eq_0)
  finally show "?a div ?L \<le> (?a + i) div ?L
      \<and> (?a + i) div ?L < ?a div ?L + (?n + ?L - 1) div ?L + (if ?L dvd ?a then 0 else 1)"
    unfolding last_byte(2) [OF L n] by (simp add: div_le_mono)
qed

lemma aligned_lines:
  assumes "2 ^ k dvd unat start"
  shows "lines_of k start len = {line_of k start..<line_of k start + (unat len + 2 ^ k - 1) div 2 ^ k}"
proof (intro equalityI subsetI)
  fix q assume "q \<in> {line_of k start..<line_of k start + (unat len + 2 ^ k - 1) div 2 ^ k}"
  then have q: "unat start div 2 ^ k \<le> q" "q - unat start div 2 ^ k < (unat len + 2 ^ k - 1) div 2 ^ k"
    by (auto simp: line_of_def)
  let ?i = "(q - unat start div 2 ^ k) * 2 ^ k"
  have n: "0 < unat len"
  proof (rule ccontr)
    assume "\<not> 0 < unat len" then show False using q(2) by simp
  qed
  have "?i \<le> (unat len - 1) div 2 ^ k * 2 ^ k"
    using q(2) last_byte(2) [OF _ n, of "2 ^ k"] by (intro mult_le_mono1) simp
  also have "\<dots> \<le> unat len - 1" by simp
  finally have "?i < unat len" using n by linarith
  moreover have "(unat start + ?i) div 2 ^ k = q" using q(1) by simp
  ultimately show "q \<in> lines_of k start len" unfolding lines_of_def by (intro image_eqI [of _ _ ?i]) simp_all
qed (use lines_covered [of k start len] assms in auto)

section \<open>Properties\<close>

text \<open>Property C35. Flushing a region that does not reach the top of the address space returns and flushes consecutive lines, among them every
  line that holds a byte of the region; for a region that starts on a line they are exactly those.\<close>

theorem region_is_flushed:
  assumes "0 < dcache_size c" and "unat (dcache_line c) = 2 ^ k" and "unat start + unat len + 2 ^ k \<le> 2 ^ 32"
  shows "\<exists>as m. alt_dcache_flush c start len ops = Ret (ops @ map Flushda as)
    \<and> map (line_of k) as = [line_of k start..<m] \<and> lines_of k start len \<subseteq> {line_of k start..<m}
    \<and> (2 ^ k dvd unat start \<longrightarrow> lines_of k start len = {line_of k start..<m})"
proof -
  let ?m = "line_of k start + (unat len + 2 ^ k - 1) div 2 ^ k + (if 2 ^ k dvd unat start then 0 else 1)"
  obtain as where "flush_region Flushda (dcache_line c) start (start + len) ops = Ret (ops @ map Flushda as)"
      "map (line_of k) as = [line_of k start..<?m]"
    using flush_region_lines [OF assms(2,3)] by blast
  then show ?thesis
    using assms(1) lines_covered [of k start len] aligned_lines [of k start len]
    by (intro exI [of _ as] exI [of _ ?m]) (simp add: alt_dcache_flush_def)
qed

definition cached :: caches where
  "cached = \<lparr>dcache_size = 2048, dcache_line = 32, dcache_bypass = Some 0x80000000, icache_size = 4096, icache_line = 32\<rparr>"

theorem region_is_flushed_witness:
  "\<exists>as m. alt_dcache_flush cached 0x1004 100 [] = Ret (map Flushda as) \<and> map (line_of 5) as = [128..<m]"
  using region_is_flushed [of cached 5 "0x1004" 100 "[]"] by (auto simp: cached_def line_of_def)

text \<open>The flush without writing back also discards the line after a region that starts inside a line and
  ends before the next: what another variable had there is lost.\<close>

lemma line_outside_discarded:
  assumes "unat (dcache_line c) = 2 ^ k" and "unat start + unat len + 2 ^ k \<le> 2 ^ 32" and "0 < len"
    and "\<not> 2 ^ k dvd unat start" and "unat start mod 2 ^ k + (unat len - 1) mod 2 ^ k < 2 ^ k"
  shows "\<exists>as a. alt_dcache_flush_no_writeback c start len ops = Ret (ops @ map Initda as @ [Initda a])
    \<and> line_of k a \<notin> lines_of k start len"
proof -
  let ?m = "line_of k start + (unat len + 2 ^ k - 1) div 2 ^ k"
  obtain as where as: "flush_region Initda (dcache_line c) start (start + len) ops = Ret (ops @ map Initda as)"
      "map (line_of k) as = [line_of k start..<Suc ?m]"
    using flush_region_lines [OF assms(1,2), of Initda ops] assms(4) by auto
  obtain bs b where b: "as = bs @ [b]" "line_of k b = ?m"
    using as(2) by (cases as rule: rev_cases) auto
  have n: "0 < unat len" using assms(3) by (simp add: word_less_nat_alt)
  have "line_of k b \<notin> lines_of k start len"
  proof
    assume "line_of k b \<in> lines_of k start len"
    then obtain i where i: "i < unat len" "?m = (unat start + i) div 2 ^ k" by (auto simp: lines_of_def b(2))
    have "(unat start + i) div 2 ^ k \<le> (unat start + (unat len - 1)) div 2 ^ k"
      using i(1) by (intro div_le_mono) linarith
    also have "\<dots> = unat start div 2 ^ k + (unat start mod 2 ^ k + (unat len - 1)) div 2 ^ k"
      by (rule last_byte(1) [OF _ n]) simp
    also have "(unat start mod 2 ^ k + (unat len - 1)) div 2 ^ k = (unat len - 1) div 2 ^ k"
      by (rule no_carry [OF assms(5)])
    finally show False using i(2) last_byte(2) [OF _ n, of "2 ^ k"] by (simp add: line_of_def)
  qed
  then show ?thesis using as(1) b(1) by (intro exI [of _ bs] exI [of _ b]) (simp add: alt_dcache_flush_no_writeback_def)
qed

lemma line_outside_discarded_witness:
  "\<exists>as a. alt_dcache_flush_no_writeback cached 0x1004 4 [] = Ret (map Initda as @ [Initda a]) \<and> line_of 5 a \<notin> {128}"
proof -
  have "lines_of 5 0x1004 4 = {128 :: nat}" by (auto simp: lines_of_def lessThan_nat_numeral image_iff)
  then show ?thesis
    using line_outside_discarded [of cached 5 "0x1004" 4 "[]"] by (simp add: cached_def)
qed

text \<open>On this board, which has no data cache, the flush without writing back does not return for any region that is not empty, while the other
  flushing functions do nothing.\<close>

lemma flush_without_cache_hangs:
  assumes "0 < len" and "unat start + unat len < 2 ^ 32"
  shows "alt_dcache_flush_no_writeback lms_ctr start len ops = Hang
    \<and> alt_dcache_flush lms_ctr start len ops = Ret ops \<and> alt_icache_flush lms_ctr start len ops = Ret ops"
proof -
  have "unat (start + len) = unat start + unat len" using assms(2) by (simp add: unat_word_ariths(1))
  then have "start < start + len" using assms(1) by (simp add: word_less_nat_alt)
  then have "loop (\<lambda>(i, ops). if i < start + len then Ret (Again (i + 0, ops @ [Initda i])) else Ret (Break (i, ops)))
      (start, ops) = Hang"
    by (intro loop_hangs [where I = "\<lambda>(i, ops). i = start"]) auto
  then show ?thesis
    by (simp add: alt_dcache_flush_no_writeback_def flush_region_def flush_lines_def lms_ctr_def
        alt_dcache_flush_def alt_icache_flush_def)
qed

lemma flush_without_cache_hangs_witness:
  "alt_dcache_flush_no_writeback lms_ctr 0x8000 4 [] = Hang"
  using flush_without_cache_hangs [of 4 "0x8000" "[]"] by simp

section \<open>Uncached memory\<close>

text \<open>Mapping the address of uncached memory back gives the block that was allocated, when the bypass bit is not among its address bits; and
  it is that block that is freed.\<close>

lemma uncached_block:
  assumes "0 < dcache_size c" and "dcache_bypass c = Some bypass"
    and "alt_uncached_malloc c malloc memalign sz (w, ops) = Ret (q, w', ops')" and "q \<noteq> 0"
    and "\<And>n w. fst (memalign (dcache_line c) n w) AND bypass = 0"
  obtains p where "memalign (dcache_line c) ((sz + dcache_line c - 1) div dcache_line c * dcache_line c) w = (p, w')"
    and "p \<noteq> 0" and "alt_remap_cached c q len = p" and "alt_uncached_free c free q w'' = free p w''"
proof -
  obtain p v where p: "memalign (dcache_line c) ((sz + dcache_line c - 1) div dcache_line c * dcache_line c) w = (p, v)"
    by force
  have "p AND bypass = 0"
    using assms(5) [of "(sz + dcache_line c - 1) div dcache_line c * dcache_line c" w] p by simp
  then have "\<not> (bit p n \<and> bit bypass n)" for n by (metis bit_and_iff bit_0_eq bot_apply bot_bool_def)
  then have bits: "(p OR bypass) AND NOT bypass = p"
    by (intro bit_word_eqI) (auto simp: bit_simps)
  have "p \<noteq> 0" "q = p OR bypass" "v = w'"
    using assms(1-4) p by (auto simp: alt_uncached_malloc_def seq_eq_Ret split: if_splits)
  then show thesis using that [of p] p bits assms(1,2)
    by (simp add: alt_remap_cached_def alt_uncached_free_def)
qed

end
