(* ===== verification/Device_Classes.thy ===== *)
theory Device_Classes
  imports Devices Caches
begin

text \<open>
  The generic interfaces of flash and DMA devices (\<open>alt_flash_dev.c\<close>, \<open>sys/alt_flash.h\<close>, \<open>sys/alt_dma.h\<close>): lookup by
  name, and calls through the table of a driver.  Drivers are parameters; a null entry in a table is
  \<open>None\<close>, and calling it is undefined.  A driver acts on the lists of \<open>Devices\<close> and what extends them, and on the cache.
\<close>

section \<open>Driver tables\<close>

type_synonym 'z hal_state = "'z hal_scheme \<times> cache_op list"
type_synonym 'z dev_op = "node \<Rightarrow> 'z hal_state \<Rightarrow> (int \<times> 'z hal_state) outcome"

record 'z alt_flash_dev =
  flash_name :: "string option"
  flash_open :: "(node \<Rightarrow> string \<Rightarrow> 'z hal_state \<Rightarrow> (node option \<times> 'z hal_state) outcome) option"
  flash_close :: "'z dev_op option"
  flash_write :: "(int \<Rightarrow> u32 \<Rightarrow> int \<Rightarrow> 'z dev_op) option"
  flash_read :: "(int \<Rightarrow> u32 \<Rightarrow> int \<Rightarrow> 'z dev_op) option"
  flash_get_info :: "(u32 \<Rightarrow> u32 \<Rightarrow> 'z dev_op) option"
  flash_erase_block :: "(int \<Rightarrow> 'z dev_op) option"
  flash_write_block :: "(int \<Rightarrow> int \<Rightarrow> u32 \<Rightarrow> int \<Rightarrow> 'z dev_op) option"
  flash_lock :: "(u32 \<Rightarrow> 'z dev_op) option"
  base_addr :: u32

record 'z alt_dma_txchan_dev =
  txchan_name :: "string option"
  txchan_space :: "'z dev_op option"
  txchan_send :: "(u32 \<Rightarrow> u32 \<Rightarrow> u32 \<Rightarrow> u32 \<Rightarrow> 'z dev_op) option"
  txchan_ioctl :: "(int \<Rightarrow> u32 \<Rightarrow> 'z dev_op) option"

record 'z alt_dma_rxchan_dev =
  rxchan_name :: "string option"
  rxchan_depth :: u32
  rxchan_prepare :: "(u32 \<Rightarrow> u32 \<Rightarrow> u32 \<Rightarrow> u32 \<Rightarrow> 'z dev_op) option"
  rxchan_ioctl :: "(int \<Rightarrow> u32 \<Rightarrow> 'z dev_op) option"

section \<open>Flash\<close>

type_synonym 'z flash_devs = "node \<Rightarrow> 'z alt_flash_dev"

definition alt_flash_open_dev ::
    "'z flash_devs \<Rightarrow> string \<Rightarrow> 'z hal_state \<Rightarrow> (node option \<times> 'z hal_state) outcome" where
  "alt_flash_open_dev devs nm s =
     seq (alt_find_dev (\<lambda>d. flash_name (devs d)) nm alt_flash_dev_list (links (fst s))) (\<lambda>dev.
     case dev of
       Some d \<Rightarrow> (case flash_open (devs d) of Some f \<Rightarrow> f d nm s | None \<Rightarrow> Ret (Some d, s))
     | None \<Rightarrow> Ret (None, s))"

definition alt_flash_close_dev :: "'z flash_devs \<Rightarrow> node option \<Rightarrow> 'z hal_state \<Rightarrow> 'z hal_state outcome" where
  "alt_flash_close_dev devs fd s =
     (case fd of
        Some d \<Rightarrow> (case flash_close (devs d) of Some f \<Rightarrow> seq (f d s) (\<lambda>(rc, s). Ret s) | None \<Rightarrow> Ret s)
      | None \<Rightarrow> Ret s)"

text \<open>\<open>fd->f(fd, ...)\<close>: neither the pointer nor the entry is checked.\<close>

definition flash_call ::
    "('z alt_flash_dev \<Rightarrow> 'f option) \<Rightarrow> ('f \<Rightarrow> 'z dev_op) \<Rightarrow> 'z flash_devs \<Rightarrow> node option \<Rightarrow> 'z hal_state
      \<Rightarrow> (int \<times> 'z hal_state) outcome" where
  "flash_call sel apply_to devs fd s =
     (case fd of
        Some d \<Rightarrow> (case sel (devs d) of Some f \<Rightarrow> apply_to f d s | None \<Rightarrow> Undef)
      | None \<Rightarrow> Undef)"

definition alt_lock_flash where
  "alt_lock_flash devs fd sectors_to_lock = flash_call flash_lock (\<lambda>f. f sectors_to_lock) devs fd"

definition alt_write_flash where
  "alt_write_flash devs fd offs src_addr len = flash_call flash_write (\<lambda>f. f offs src_addr len) devs fd"

definition alt_read_flash where
  "alt_read_flash devs fd offs dest_addr len = flash_call flash_read (\<lambda>f. f offs dest_addr len) devs fd"

definition alt_get_flash_info where
  "alt_get_flash_info devs fd info number_of_regions =
     flash_call flash_get_info (\<lambda>f. f info number_of_regions) devs fd"

text \<open>What was programmed is flushed from the data cache when the driver reports success.\<close>

definition flush_after ::
    "caches \<Rightarrow> 'z flash_devs \<Rightarrow> node option \<Rightarrow> int \<Rightarrow> int \<Rightarrow> int \<times> 'z hal_state \<Rightarrow> (int \<times> 'z hal_state) outcome" where
  "flush_after c devs fd offs len x =
     (let (ret_code, h, ops) = x in
      case fd of
        Some d \<Rightarrow>
          if ret_code = 0 then
            seq (alt_dcache_flush c (base_addr (devs d) + word_of_int offs) (word_of_int len) ops)
              (\<lambda>ops. Ret (ret_code, h, ops))
          else Ret x
      | None \<Rightarrow> Undef)"

definition alt_erase_flash_block where
  "alt_erase_flash_block c devs fd offs len s =
     seq (flash_call flash_erase_block (\<lambda>f. f offs) devs fd s) (flush_after c devs fd offs len)"

definition alt_write_flash_block where
  "alt_write_flash_block c devs fd block_offset data_offset src len s =
     seq (flash_call flash_write_block (\<lambda>f. f block_offset data_offset src len) devs fd s)
       (flush_after c devs fd data_offset len)"

section \<open>DMA\<close>

text \<open>\<open>dma ? dma->f(dma, ...) : -ENODEV\<close>.\<close>

definition dma_call ::
    "('d \<Rightarrow> 'f option) \<Rightarrow> ('f \<Rightarrow> 'z dev_op) \<Rightarrow> (node \<Rightarrow> 'd) \<Rightarrow> node option \<Rightarrow> 'z hal_state
      \<Rightarrow> (int \<times> 'z hal_state) outcome" where
  "dma_call sel apply_to devs dma s =
     (case dma of
        Some d \<Rightarrow> (case sel (devs d) of Some f \<Rightarrow> apply_to f d s | None \<Rightarrow> Undef)
      | None \<Rightarrow> Ret (- ENODEV, s))"

definition alt_dma_txchan_close :: "node option \<Rightarrow> int" where
  "alt_dma_txchan_close dma = 0"

definition alt_dma_txchan_send where
  "alt_dma_txchan_send devs dma from_addr len done_fn hdl =
     dma_call txchan_send (\<lambda>f. f from_addr len done_fn hdl) devs dma"

definition alt_dma_txchan_space where
  "alt_dma_txchan_space devs dma = dma_call txchan_space (\<lambda>f. f) devs dma"

definition alt_dma_txchan_ioctl where
  "alt_dma_txchan_ioctl devs dma req arg = dma_call txchan_ioctl (\<lambda>f. f req arg) devs dma"

definition alt_dma_rxchan_close :: "node option \<Rightarrow> int" where
  "alt_dma_rxchan_close dma = 0"

definition alt_dma_rxchan_prepare where
  "alt_dma_rxchan_prepare devs dma data len done_fn hdl =
     dma_call rxchan_prepare (\<lambda>f. f data len done_fn hdl) devs dma"

definition alt_dma_rxchan_ioctl where
  "alt_dma_rxchan_ioctl devs dma req arg = dma_call rxchan_ioctl (\<lambda>f. f req arg) devs dma"

text \<open>The depth is read without the check.\<close>

definition alt_dma_rxchan_depth :: "(node \<Rightarrow> 'z alt_dma_rxchan_dev) \<Rightarrow> node option \<Rightarrow> u32 outcome" where
  "alt_dma_rxchan_depth devs dma = (case dma of Some d \<Rightarrow> Ret (rxchan_depth (devs d)) | None \<Rightarrow> Undef)"

section \<open>Writing a block\<close>

text \<open>With a data cache, a successful write leaves no stale line: every line that holds a byte of the data written is
  flushed after the driver has run.  The lines of the caches are \<open>2 ^ k\<close> bytes.\<close>

lemma written_block_flushed:
  assumes "flash_write_block (devs d) = Some f" and "f block_offset data_offset src len d (h, ops) = Ret (0, h', ops')"
    and "0 < dcache_size c" and "unat (dcache_line c) = 2 ^ k"
    and "start = base_addr (devs d) + word_of_int data_offset"
    and "unat start + unat (word_of_int len :: u32) + 2 ^ k \<le> 2 ^ 32"
  obtains as where "alt_write_flash_block c devs (Some d) block_offset data_offset src len (h, ops)
      = Ret (0, h', ops' @ map Flushda as)"
    and "lines_of k start (word_of_int len) \<subseteq> line_of k ` set as"
proof -
  obtain as where "flush_region Flushda (dcache_line c) start (start + word_of_int len) ops' = Ret (ops' @ map Flushda as)"
      "map (line_of k) as = [line_of k start..<line_of k start + (unat (word_of_int len :: u32) + 2 ^ k - 1) div 2 ^ k
        + (if 2 ^ k dvd unat start then 0 else 1)]"
    using flush_region_lines [OF assms(4,6)] by blast
  moreover have "line_of k ` set as = set (map (line_of k) as)" by simp
  ultimately show thesis
    using that [of as] assms(1-3,5) lines_covered [of k start "word_of_int len"]
    by (simp add: alt_write_flash_block_def flash_call_def flush_after_def alt_dcache_flush_def del: set_map)
qed

lemma null_channel:
  "alt_dma_txchan_send devs None p n f x s = Ret (- ENODEV, s)" "alt_dma_txchan_space devs None s = Ret (- ENODEV, s)"
  "alt_dma_txchan_ioctl devs None req arg s = Ret (- ENODEV, s)" "alt_dma_rxchan_ioctl devs' None req arg s = Ret (- ENODEV, s)"
  "alt_dma_rxchan_prepare devs' None p n f x s = Ret (- ENODEV, s)" "alt_dma_rxchan_depth devs' None = Undef"
  by (simp_all add: alt_dma_txchan_send_def alt_dma_txchan_space_def alt_dma_txchan_ioctl_def alt_dma_rxchan_ioctl_def
      alt_dma_rxchan_prepare_def alt_dma_rxchan_depth_def dma_call_def)

end
