(* ===== verification/System_Id.thy ===== *)
theory System_Id
  imports Hardware
begin

text \<open>
  The identification component (\<open>altera_avalon_sysid_qsys.c\<close>): a test whether program and hardware were built
  together.  It is compiled when \<open>system.h\<close> names the component \<open>SYSID\<close>; its base address and the two values the program was
  built with are parameters.
\<close>

definition SYSID_ID_REG :: nat where "SYSID_ID_REG = 0"
definition SYSID_TIMESTAMP_REG :: nat where "SYSID_TIMESTAMP_REG = 1"

definition alt_avalon_sysid_qsys_test :: "device \<Rightarrow> u32 \<Rightarrow> u32 \<Rightarrow> u32 \<Rightarrow> trace \<Rightarrow> int \<times> trace" where
  "alt_avalon_sysid_qsys_test dev base ident timestamp t =
     (let (hardware_id, t) = IORD dev base SYSID_ID_REG t;
          (hardware_timestamp, t) = IORD dev base SYSID_TIMESTAMP_REG t
      in if timestamp = hardware_timestamp \<and> ident = hardware_id then (0, t)
         else (if 0 < sint (hardware_timestamp - timestamp) then 1 else - 1, t))"

text \<open>Times of generation that are less than \<open>2 ^ 31\<close> seconds apart are ordered rightly; same times with another
  identifier count as old hardware.\<close>

lemma sysid_orders:
  assumes "fst (alt_avalon_sysid_qsys_test dev base ident timestamp t) = r"
    and "hw = fst (IORD dev base 1 (snd (IORD dev base 0 t)))"
    and "\<bar>uint hw - uint timestamp\<bar> < 2 ^ 31"
  shows "timestamp < hw \<Longrightarrow> r = 1" and "hw < timestamp \<Longrightarrow> r = - 1"
    and "hw = timestamp \<Longrightarrow> r = (if fst (IORD dev base 0 t) = ident then 0 else - 1)"
proof -
  have "sint (hw - timestamp) = uint hw - uint timestamp"
  proof -
    have "hw - timestamp = word_of_int (uint hw - uint timestamp)" by simp
    then have "sint (hw - timestamp) = signed_take_bit 31 (uint hw - uint timestamp)"
      by (simp only: sint_sbintrunc') simp
    then show ?thesis using assms(3) by (simp add: signed_take_bit_int_eq_self)
  qed
  then show "timestamp < hw \<Longrightarrow> r = 1" "hw < timestamp \<Longrightarrow> r = - 1"
    "hw = timestamp \<Longrightarrow> r = (if fst (IORD dev base 0 t) = ident then 0 else - 1)"
    using assms(1,2)
    by (auto simp: word_less_def alt_avalon_sysid_qsys_test_def SYSID_ID_REG_def SYSID_TIMESTAMP_REG_def Let_def split: prod.splits)
qed

end
