(* ===== verification/Byte_Memory.thy ===== *)
theory Byte_Memory
  imports Prelude
begin

text \<open>
  Memory as bytes under 32-bit addresses, for code that lays out structures and arrays in blocks it
  allocates itself.  Words are little-endian.  A block is the set of naturals \<open>span a n\<close>; blocks that
  \<open>fit\<close> do not reach past the end of the address space.
\<close>

type_synonym byte_memory = "u32 \<Rightarrow> u8"

definition load16 :: "byte_memory \<Rightarrow> u32 \<Rightarrow> u16" where
  "load16 m a = ucast (m a) OR push_bit 8 (ucast (m (a + 1)))"

definition store16 :: "u32 \<Rightarrow> u16 \<Rightarrow> byte_memory \<Rightarrow> byte_memory" where
  "store16 a v m = m(a := ucast v, a + 1 := ucast (drop_bit 8 v))"

definition load32 :: "byte_memory \<Rightarrow> u32 \<Rightarrow> u32" where
  "load32 m a = ucast (m a) OR push_bit 8 (ucast (m (a + 1)))
     OR push_bit 16 (ucast (m (a + 2))) OR push_bit 24 (ucast (m (a + 3)))"

definition store32 :: "u32 \<Rightarrow> u32 \<Rightarrow> byte_memory \<Rightarrow> byte_memory" where
  "store32 a v m = m(a := ucast v, a + 1 := ucast (drop_bit 8 v), a + 2 := ucast (drop_bit 16 v),
     a + 3 := ucast (drop_bit 24 v))"

definition zero_fill :: "u32 \<Rightarrow> nat \<Rightarrow> byte_memory \<Rightarrow> byte_memory" where
  "zero_fill a n m = (\<lambda>x. if unat (x - a) < n then 0 else m x)"

section \<open>Blocks\<close>

definition fit :: "u32 \<Rightarrow> nat \<Rightarrow> bool" where
  "fit a n \<longleftrightarrow> unat a + n \<le> 2 ^ 32"

definition span :: "u32 \<Rightarrow> nat \<Rightarrow> nat set" where
  "span a n = {unat a..<unat a + n}"

text \<open>Only bytes in \<open>S\<close> differ.\<close>

definition changes :: "nat set \<Rightarrow> byte_memory \<Rightarrow> byte_memory \<Rightarrow> bool" where
  "changes S m m' \<longleftrightarrow> (\<forall>x. unat x \<notin> S \<longrightarrow> m' x = m x)"

lemma changes_refl [simp]: "changes S m m"
  by (simp add: changes_def)

lemma changes_trans: "changes S m m' \<Longrightarrow> changes S m' m'' \<Longrightarrow> changes S m m''"
  by (simp add: changes_def)

lemma changes_mono: "changes S m m' \<Longrightarrow> S \<subseteq> T \<Longrightarrow> changes T m m'"
  by (auto simp: changes_def)

lemma unat_offset: "fit a n \<Longrightarrow> i < n \<Longrightarrow> unat (a + of_nat i) = unat a + i"
  by (simp add: fit_def unat_word_ariths(1) unat_of_nat)

lemma fit_field: "fit a n \<Longrightarrow> i + k \<le> n \<Longrightarrow> 0 < k \<Longrightarrow> fit (a + of_nat i) k"
  by (simp add: fit_def unat_offset [of a n])

lemma span_field: "fit a n \<Longrightarrow> i + k \<le> n \<Longrightarrow> 0 < k \<Longrightarrow> span (a + of_nat i) k \<subseteq> span a n"
  by (auto simp: span_def unat_offset [of a n])

lemma in_span: "fit a n \<Longrightarrow> i < n \<Longrightarrow> unat (a + of_nat i) \<in> span a n"
  by (simp add: span_def unat_offset)

lemmas in_span_numerals =
  in_span [where i = 0, simplified] in_span [where i = 1, simplified] in_span [where i = 2, simplified]
  in_span [where i = 3, simplified]

section \<open>Loads and stores\<close>

lemma store32_changes: "fit a 4 \<Longrightarrow> changes (span a 4) m (store32 a v m)"
  using in_span_numerals [of a 4] by (auto simp: changes_def store32_def)

lemma store16_changes: "fit a 2 \<Longrightarrow> changes (span a 2) m (store16 a v m)"
  using in_span_numerals [of a 2] by (auto simp: changes_def store16_def)

lemma load32_frame: "changes S m m' \<Longrightarrow> fit b 4 \<Longrightarrow> span b 4 \<inter> S = {} \<Longrightarrow> load32 m' b = load32 m b"
  using in_span_numerals [of b 4] by (auto simp: changes_def load32_def disjoint_iff)

lemma load16_frame: "changes S m m' \<Longrightarrow> fit b 2 \<Longrightarrow> span b 2 \<inter> S = {} \<Longrightarrow> load16 m' b = load16 m b"
  using in_span_numerals [of b 2] by (auto simp: changes_def load16_def disjoint_iff)

lemma apart [simp]: "(a :: u32) + 1 \<noteq> a" "a + 2 \<noteq> a" "a + 3 \<noteq> a" "a + 2 \<noteq> a + 1" "a + 3 \<noteq> a + 1" "a + 3 \<noteq> a + 2"
  by simp_all

lemma load32_store32 [simp]: "load32 (store32 a v m) a = v"
proof (rule bit_word_eqI)
  fix n assume n: "n < LENGTH(32)"
  show "bit (load32 (store32 a v m) a) n = bit v n"
  proof -
    consider "n < 16" | k where "n = 16 + k" "k < 8" | k where "n = 24 + k"
      using le_Suc_ex [of 16 n] le_Suc_ex [of 24 n] by fastforce
    then show ?thesis using n by cases (auto simp: load32_def store32_def bit_simps)
  qed
qed

lemma load16_store16 [simp]: "load16 (store16 a v m) a = v"
  by (rule bit_word_eqI) (auto simp: load16_def store16_def bit_simps)

text \<open>Structures of three words.\<close>

lemma load32_field:
  assumes "fit a 12" and "i \<in> {0, 4, 8}" and "j \<in> {0, 4, 8}" and "i \<noteq> j"
  shows "load32 (store32 (a + of_nat i) v m) (a + of_nat j) = load32 m (a + of_nat j)"
proof (rule load32_frame)
  have "fit (a + of_nat i) 4" "fit (a + of_nat j) 4"
    using assms(2,3) by (auto intro!: fit_field [OF assms(1)] simp del: of_nat_numeral of_nat_0)
  then show "changes (span (a + of_nat i) 4) m (store32 (a + of_nat i) v m)" "fit (a + of_nat j) 4"
    by (simp_all add: store32_changes)
  show "span (a + of_nat j) 4 \<inter> span (a + of_nat i) 4 = {}"
    using assms unat_offset [of a 12 i] unat_offset [of a 12 j] by (auto simp: span_def)
qed

lemmas load32_fields =
  load32_field [where i = 0 and j = 4, simplified] load32_field [where i = 0 and j = 8, simplified]
  load32_field [where i = 4 and j = 0, simplified] load32_field [where i = 4 and j = 8, simplified]
  load32_field [where i = 8 and j = 0, simplified] load32_field [where i = 8 and j = 4, simplified]

lemma unat_back: "unat (x - a) < n \<Longrightarrow> fit a n \<Longrightarrow> unat x = unat a + unat (x - a)" for x a :: u32
  using unat_offset [of a n "unat (x - a)"] by simp

lemma zero_fill_changes:
  assumes "fit a n"
  shows "changes (span a n) m (zero_fill a n m)"
proof -
  have "unat x < unat a + n" if "unat (x - a) < n" for x
    using unat_back [OF that assms] that by simp
  moreover have "unat a \<le> unat x" if "unat (x - a) < n" for x
    using unat_back [OF that assms] by simp
  ultimately show ?thesis by (auto simp: changes_def zero_fill_def span_def)
qed

lemma zero_fill_inside: "fit a n \<Longrightarrow> i < n \<Longrightarrow> zero_fill a n m (a + of_nat i) = 0"
  by (simp add: zero_fill_def fit_def unat_of_nat)

end
