(* ===== verification/Gmon.thy ===== *)
theory Gmon
  imports Alarms Heap Byte_Memory
begin

text \<open>
  The profiler of the HAL (\<open>alt_gmon.c\<close>, compiled with \<open>ALT_PROVIDE_GMON\<close>): the call graph, which code inserted by the compiler
  records through \<open>__mcount_record\<close>, and the histogram of the program counter, sampled by an alarm.  Both live in memory
  taken from \<open>sbrk\<close>, bytes of \<open>Byte_Memory\<close>.  The state is the clock of \<open>Alarms\<close> whose world is the heap of \<open>Heap\<close>,
  extended with that memory and the globals of the profiler.  What the linker places is the record \<open>gmon_layout\<close>.
  The assembly part, which counts an arc that is already there, is not modelled.
\<close>

section \<open>State\<close>

definition PCSAMPLE_BYTES_PER_BUCKET :: u32 where "PCSAMPLE_BYTES_PER_BUCKET = 32"
definition HASH_BUCKETS :: u32 where "HASH_BUCKETS = 64"
definition MCOUNT_SLAB_INCREMENT :: u32 where "MCOUNT_SLAB_INCREMENT = 1020"
definition GMON_DATA_SIZE :: nat where "GMON_DATA_SIZE = 9"
definition GMON_DATA_PROFILE_DATA :: nat where "GMON_DATA_PROFILE_DATA = 2"
definition GMON_DATA_PROFILE_RATE :: nat where "GMON_DATA_PROFILE_RATE = 6"

record gmon_layout =
  s_low_pc :: u32
  s_high_pc :: u32
  mcount_fn_head :: u32
  heap_limit :: u32
  pcsample_code :: u32
  pcsample_alarm :: alarm_ref

record gmon = heap +
  gmon_memory :: byte_memory
  pcsample_need_init :: int
  s_pcsamples :: u32
  alt_gmon_data :: "u32 list"
  mcount_slab_ptr :: u32
  mcount_slab_size :: u32

type_synonym profiling = "gmon ticking"

definition initial_gmon :: "gmon_layout \<Rightarrow> u32 \<Rightarrow> byte_memory \<Rightarrow> gmon" where
  "initial_gmon l heap_start m = \<lparr>heap_end = heap_start, gmon_memory = m, pcsample_need_init = 1, s_pcsamples = 0,
     alt_gmon_data = [0x6e6f6d67, of_nat GMON_DATA_SIZE, 0, s_low_pc l, s_high_pc l, PCSAMPLE_BYTES_PER_BUCKET, 0,
       mcount_fn_head l, mcount_fn_head l + 4 * HASH_BUCKETS],
     mcount_slab_ptr = 0, mcount_slab_size = 0\<rparr>"

abbreviation gmon_of :: "profiling \<Rightarrow> gmon" where
  "gmon_of s \<equiv> world (system s)"

definition set_gmon :: "(gmon \<Rightarrow> gmon) \<Rightarrow> profiling \<Rightarrow> profiling" where
  "set_gmon f s = s\<lparr>system := (system s)\<lparr>world := f (gmon_of s)\<rparr>\<rparr>"

text \<open>\<open>sbrk\<close> on the heap inside.\<close>

definition with_system :: "'b \<Rightarrow> 'a cpu \<Rightarrow> 'b cpu" where
  "with_system x s = \<lparr>status = status s, ienable = ienable s, alt_irq_active = alt_irq_active s,
     alt_priority_mask = alt_priority_mask s, alt_irq = alt_irq s, system = x\<rparr>"

definition gmon_sbrk :: "gmon_layout \<Rightarrow> u32 \<Rightarrow> profiling \<Rightarrow> u32 \<times> profiling" where
  "gmon_sbrk l n s =
     (let (p, t) = ALT_SBRK (heap_limit l) n (with_system (gmon_of s) s)
      in (p, with_system ((system s)\<lparr>world := system t\<rparr>) t))"

definition gmon_store :: "u32 \<Rightarrow> u32 \<Rightarrow> profiling \<Rightarrow> profiling" where
  "gmon_store a v = set_gmon (\<lambda>g. g\<lparr>gmon_memory := store32 a v (gmon_memory g)\<rparr>)"

definition gmon_load :: "u32 \<Rightarrow> profiling \<Rightarrow> u32" where
  "gmon_load a s = load32 (gmon_memory (gmon_of s)) a"

section \<open>Sampling the program counter\<close>

text \<open>The callback of the alarm; \<open>ea\<close> is the register that holds the address at which the program was interrupted.\<close>

definition sample :: "gmon_layout \<Rightarrow> u32 \<Rightarrow> gmon \<Rightarrow> gmon" where
  "sample l pc g =
     (if s_low_pc l \<le> pc \<and> pc < s_high_pc l \<and> s_pcsamples g \<noteq> 0 then
        let bucket = (pc - s_low_pc l) div PCSAMPLE_BYTES_PER_BUCKET;
            a = s_pcsamples g + 2 * bucket
        in g\<lparr>gmon_memory := store16 a (load16 (gmon_memory g) a + 1) (gmon_memory g)\<rparr>
      else g)"

definition nios2_pcsample :: "gmon_layout \<Rightarrow> u32 \<Rightarrow> u32 \<Rightarrow> profiling \<Rightarrow> (u32 \<times> profiling) outcome" where
  "nios2_pcsample l ea ctx s = Ret (1, set_gmon (sample l ea) s)"

definition nios2_pcsample_init :: "gmon_layout \<Rightarrow> profiling \<Rightarrow> int \<times> profiling" where
  "nios2_pcsample_init l s =
     (let prof_rate = alt_ticks_per_second s in
      if prof_rate = 0 then (1, s)
      else
        let pcsamples_size = (s_high_pc l - s_low_pc l) div PCSAMPLE_BYTES_PER_BUCKET;
            (p, s) = gmon_sbrk l (pcsamples_size * 2) s;
            s = set_gmon (\<lambda>g. g\<lparr>s_pcsamples := p\<rparr>) s
        in if s_pcsamples (gmon_of s) \<noteq> 0 then
             let s = set_gmon (\<lambda>g. g\<lparr>gmon_memory := zero_fill (s_pcsamples g) (unat (pcsamples_size * 2)) (gmon_memory g)\<rparr>) s;
                 s = set_gmon (\<lambda>g. g\<lparr>alt_gmon_data := (alt_gmon_data g)[GMON_DATA_PROFILE_DATA := s_pcsamples g]\<rparr>) s;
                 s = set_gmon (\<lambda>g. g\<lparr>alt_gmon_data := (alt_gmon_data g)[GMON_DATA_PROFILE_RATE := prof_rate]\<rparr>) s;
                 (rc, s) = alt_alarm_start (Some (pcsample_alarm l)) 1 (pcsample_code l) 0 s
             in (0, s)
           else (0, s))"

section \<open>The call graph\<close>

text \<open>\<open>struct mcount_fn_arc\<close> and \<open>struct mcount_fn_entry\<close>: three words, the first the next pointer; then the caller and the
  count, or the function and its arcs.\<close>

definition mcount_allocate :: "gmon_layout \<Rightarrow> u32 \<Rightarrow> profiling \<Rightarrow> u32 \<times> profiling" where
  "mcount_allocate l sz s =
     (let s = (if mcount_slab_size (gmon_of s) < sz then
                 let (p, s) = gmon_sbrk l MCOUNT_SLAB_INCREMENT s;
                     s = set_gmon (\<lambda>g. g\<lparr>mcount_slab_ptr := p\<rparr>) s
                 in set_gmon (\<lambda>g. g\<lparr>mcount_slab_size := MCOUNT_SLAB_INCREMENT\<rparr>) s
               else s);
          data = mcount_slab_ptr (gmon_of s);
          s = set_gmon (\<lambda>g. g\<lparr>mcount_slab_ptr := mcount_slab_ptr g + sz\<rparr>) s;
          s = set_gmon (\<lambda>g. g\<lparr>mcount_slab_size := mcount_slab_size g - sz\<rparr>) s
      in (data, s))"

definition mcount_record :: "gmon_layout \<Rightarrow> u32 \<Rightarrow> u32 \<Rightarrow> u32 \<Rightarrow> u32 \<Rightarrow> profiling \<Rightarrow> profiling" where
  "mcount_record l self_pc from_pc fn_entry fn_head s =
     (let s = (if pcsample_need_init (gmon_of s) \<noteq> 0 then
                 let s = set_gmon (\<lambda>g. g\<lparr>pcsample_need_init := 0\<rparr>) s;
                     (r, s) = nios2_pcsample_init l s
                 in set_gmon (\<lambda>g. g\<lparr>pcsample_need_init := r\<rparr>) s
               else s);
          (context, s) = alt_irq_disable_all s;
          (fn_entry, s) =
            (if fn_entry = 0 then
               let (fn_entry, s) = mcount_allocate l 12 s;
                   s = gmon_store (fn_entry + 4) self_pc s;
                   s = gmon_store (fn_entry + 8) 0 s;
                   s = gmon_store fn_entry (gmon_load fn_head s) s;
                   s = gmon_store fn_head fn_entry s
               in (fn_entry, s)
             else (fn_entry, s));
          (arc_entry, s) = mcount_allocate l 12 s;
          s = gmon_store (arc_entry + 4) from_pc s;
          s = gmon_store (arc_entry + 8) 1 s;
          s = gmon_store arc_entry (gmon_load (fn_entry + 8) s) s;
          s = gmon_store (fn_entry + 8) arc_entry s
      in alt_irq_enable_all context s)"

end
