(* ===== verification/Gmon_Results.thy ===== *)
theory Gmon_Results
  imports Gmon "HOL-Library.Multiset"
begin

text \<open>
  What the profiler promises.  The call graph in memory refines a list of functions with their callers: the lists are
  chains of three-word blocks, apart from each other and from the memory that is still free.  The histogram counts samples.
\<close>

section \<open>Allocation\<close>

lemma set_gmon_simps [simp]:
  "gmon_of (set_gmon f s) = f (gmon_of s)" "set_gmon f (set_gmon h s) = set_gmon (\<lambda>g. f (h g)) s"
  "set_gmon (\<lambda>g. g) s = s"
  by (simp_all add: set_gmon_def)

lemma gmon_sbrk_value:
  "gmon_sbrk l n s =
     (let e = (heap_end (gmon_of s) + 3) AND NOT 3 in
      if heap_limit l < e + n then (- 1, set_gmon (\<lambda>g. g\<lparr>heap_end := e\<rparr>) s)
      else (e, set_gmon (\<lambda>g. g\<lparr>heap_end := e + n\<rparr>) s))"
  by (simp add: gmon_sbrk_def sbrk_value with_system_def set_gmon_def Let_def)

text \<open>The memory that blocks may still be taken from: the rest of the slab, and what lies above the heap.\<close>

definition avail :: "gmon \<Rightarrow> nat set" where
  "avail g = span (mcount_slab_ptr g) (unat (mcount_slab_size g)) \<union> {unat (heap_end g)..<2 ^ 32}"

definition slab_ok :: "gmon \<Rightarrow> bool" where
  "slab_ok g \<longleftrightarrow> fit (mcount_slab_ptr g) (unat (mcount_slab_size g)) \<and> 0 \<notin> avail g
     \<and> (mcount_slab_size g \<noteq> 0 \<longrightarrow> unat (mcount_slab_ptr g) + unat (mcount_slab_size g) \<le> unat (heap_end g))"

definition slab_room :: "gmon_layout \<Rightarrow> nat \<Rightarrow> gmon \<Rightarrow> bool" where
  "slab_room l n g \<longleftrightarrow> n \<le> unat (mcount_slab_size g) \<or> unat (heap_end g) + 1023 \<le> unat (heap_limit l)"

lemma span_nonzero: "span a n \<subseteq> avail g \<Longrightarrow> slab_ok g \<Longrightarrow> 0 < n \<Longrightarrow> a \<noteq> 0"
proof
  assume "span a n \<subseteq> avail g" "slab_ok g" "0 < n" "a = 0"
  then have "unat a \<in> avail g" by (auto simp: span_def)
  then show False using \<open>slab_ok g\<close> \<open>a = 0\<close> by (simp add: slab_ok_def)
qed

lemma allocate_node:
  assumes "slab_ok (gmon_of s)" and "slab_room l n (gmon_of s)" and "12 \<le> n" and "n \<le> 24"
  obtains p f where "mcount_allocate l 12 s = (p, set_gmon f s)" and "fit p 12" and "p \<noteq> 0"
    and "span p 12 \<subseteq> avail (gmon_of s)" and "avail (f (gmon_of s)) \<subseteq> avail (gmon_of s) - span p 12"
    and "slab_ok (f (gmon_of s))" and "slab_room l (n - 12) (f (gmon_of s))"
    and "gmon_memory (f (gmon_of s)) = gmon_memory (gmon_of s)"
    and "pcsample_need_init (f (gmon_of s)) = pcsample_need_init (gmon_of s)"
proof (cases "12 \<le> unat (mcount_slab_size (gmon_of s))")
  case True
  let ?g = "gmon_of s"
  let ?p = "mcount_slab_ptr ?g" and ?n = "mcount_slab_size ?g"
  let ?f = "\<lambda>g :: gmon. g\<lparr>mcount_slab_ptr := mcount_slab_ptr g + 12, mcount_slab_size := mcount_slab_size g - 12\<rparr>"
  have fit: "fit ?p (unat ?n)" and apart: "unat ?p + unat ?n \<le> unat (heap_end ?g)"
    using assms(1) True by (auto simp: slab_ok_def)
  have n: "unat (?n - 12) = unat ?n - 12" using True by (simp add: unat_sub word_le_nat_alt)
  have p: "unat (?p + 12) = unat ?p + 12" if "12 < unat ?n" using unat_offset [OF fit that] by simp
  have sp: "span (?p + 12) (unat (?n - 12)) = {unat ?p + 12..<unat ?p + unat ?n}"
  proof (cases "12 < unat ?n")
    case True
    then show ?thesis using p n by (simp add: span_def)
  qed (use True n in \<open>simp add: span_def\<close>)
  show thesis
  proof (rule that [of ?p ?f])
    show "mcount_allocate l 12 s = (?p, set_gmon ?f s)"
      using True by (simp add: mcount_allocate_def Let_def word_less_nat_alt)
    show "fit ?p 12" using fit True by (simp add: fit_def)
    show ns: "span ?p 12 \<subseteq> avail ?g" using True by (auto simp: avail_def span_def)
    show "?p \<noteq> 0" by (rule span_nonzero [OF ns assms(1)]) simp
    show sub: "avail (?f ?g) \<subseteq> avail ?g - span ?p 12"
      using sp apart True by (auto simp: avail_def span_def)
    show "slab_ok (?f ?g)"
    proof -
      have "fit (?p + 12) (unat (?n - 12))"
      proof (cases "12 < unat ?n")
        case True
        then show ?thesis using p n fit by (simp add: fit_def)
      next
        case False
        then have "unat (?n - 12) = 0" using n True by simp
        then show ?thesis using unat_u32_less [of "?p + 12"] by (simp add: fit_def)
      qed
      moreover have "?n - 12 \<noteq> 0 \<longrightarrow> unat (?p + 12) + unat (?n - 12) \<le> unat (heap_end ?g)"
      proof
        assume "?n - 12 \<noteq> 0"
        then have "12 < unat ?n" using n by (metis unat_eq_zero zero_less_diff neq0_conv)
        then show "unat (?p + 12) + unat (?n - 12) \<le> unat (heap_end ?g)" using p n apart by simp
      qed
      ultimately show ?thesis using sub assms(1) by (auto simp: slab_ok_def)
    qed
    show "slab_room l (n - 12) (?f ?g)" using assms(2,3) n by (auto simp: slab_room_def)
  qed simp_all
next
  case False
  let ?g = "gmon_of s"
  let ?e = "(heap_end ?g + 3) AND NOT 3"
  let ?f = "\<lambda>g :: gmon. g\<lparr>heap_end := ?e + 1020, mcount_slab_ptr := ?e + 12, mcount_slab_size := 1008\<rparr>"
  have room: "unat (heap_end ?g) + 1023 \<le> unat (heap_limit l)"
    using assms(2,3) False by (auto simp: slab_room_def)
  have lim: "unat (heap_limit l) < 2 ^ 32" by (rule unat_u32_less)
  have e: "unat ?e = (unat (heap_end ?g) + 3) div 4 * 4"
    using align_value [of "heap_end ?g"] room lim by simp
  have le: "unat (heap_end ?g) \<le> unat ?e" "unat ?e + 1020 \<le> unat (heap_limit l)"
    unfolding e using room by linarith+
  have fit: "fit ?e 1020" using le lim by (simp add: fit_def)
  have e12: "unat (?e + 12) = unat ?e + 12" using unat_offset [OF fit, of 12] by simp
  have e1020: "unat (?e + 1020) = unat ?e + 1020"
    using le lim by (simp add: unat_word_ariths(1))
  show thesis
  proof (rule that [of ?e ?f])
    have "\<not> heap_limit l < ?e + 1020" using le e1020 by (simp add: word_less_nat_alt)
    moreover have "mcount_slab_size ?g < 12" using False by (simp add: word_less_nat_alt)
    ultimately show "mcount_allocate l 12 s = (?e, set_gmon ?f s)"
      by (simp add: mcount_allocate_def gmon_sbrk_value MCOUNT_SLAB_INCREMENT_def Let_def)
    show "fit ?e 12" using fit by (simp add: fit_def)
    show sub1: "span ?e 12 \<subseteq> avail ?g" using le lim by (auto simp: avail_def span_def)
    show "?e \<noteq> 0" by (rule span_nonzero [OF sub1 assms(1)]) simp
    show sub: "avail (?f ?g) \<subseteq> avail ?g - span ?e 12"
      using le e12 e1020 lim by (auto simp: avail_def span_def)
    show "slab_ok (?f ?g)"
      using sub assms(1) e12 e1020 fit by (auto simp: slab_ok_def fit_def)
    show "slab_room l (n - 12) (?f ?g)" unfolding slab_room_def by (rule disjI1) (use assms(4) in simp)
  qed simp_all
qed

section \<open>Graphs in memory\<close>

primrec chain :: "byte_memory \<Rightarrow> u32 \<Rightarrow> u32 list \<Rightarrow> bool" where
  "chain m p [] \<longleftrightarrow> p = 0"
| "chain m p (a # as) \<longleftrightarrow> p = a \<and> a \<noteq> 0 \<and> chain m (load32 m a) as"

text \<open>The shape of a graph: the address of each function's entry and of its arcs, in the order of the lists; its
  value: each function with its callers and their counts.\<close>

type_synonym shape = "(u32 \<times> u32 list) list"
type_synonym calls_made = "(u32 \<times> (u32 \<times> u32) list) list"

definition nodes :: "shape \<Rightarrow> u32 list" where
  "nodes sh = concat (map (\<lambda>(f, arcs). f # arcs) sh)"

definition graph_at :: "byte_memory \<Rightarrow> u32 \<Rightarrow> shape \<Rightarrow> bool" where
  "graph_at m head sh \<longleftrightarrow> chain m (load32 m head) (map fst sh)
     \<and> (\<forall>(f, arcs) \<in> set sh. chain m (load32 m (f + 8)) arcs)"

definition arcs_value :: "byte_memory \<Rightarrow> u32 list \<Rightarrow> (u32 \<times> u32) list" where
  "arcs_value m arcs = map (\<lambda>a. (load32 m (a + 4), load32 m (a + 8))) arcs"

definition graph_value :: "byte_memory \<Rightarrow> shape \<Rightarrow> calls_made" where
  "graph_value m sh = map (\<lambda>(f, arcs). (load32 m (f + 4), arcs_value m arcs)) sh"

definition footprint :: "u32 \<Rightarrow> shape \<Rightarrow> nat set" where
  "footprint head sh = span head 4 \<union> (\<Union>a \<in> set (nodes sh). span a 12)"

text \<open>The blocks are apart.\<close>

definition separate :: "u32 \<Rightarrow> shape \<Rightarrow> bool" where
  "separate head sh \<longleftrightarrow> fit head 4 \<and> distinct (nodes sh)
     \<and> (\<forall>a \<in> set (nodes sh). fit a 12 \<and> span a 12 \<inter> span head 4 = {})
     \<and> (\<forall>a \<in> set (nodes sh). \<forall>b \<in> set (nodes sh). a \<noteq> b \<longrightarrow> span a 12 \<inter> span b 12 = {})"

definition graph_ok :: "u32 \<Rightarrow> shape \<Rightarrow> gmon \<Rightarrow> bool" where
  "graph_ok head sh g \<longleftrightarrow> graph_at (gmon_memory g) head sh \<and> separate head sh
     \<and> footprint head sh \<inter> avail g = {} \<and> slab_ok g"

text \<open>A block keeps its fields when only bytes outside it change.\<close>

definition same_fields :: "byte_memory \<Rightarrow> byte_memory \<Rightarrow> u32 \<Rightarrow> bool" where
  "same_fields m m' a \<longleftrightarrow> load32 m' a = load32 m a \<and> load32 m' (a + 4) = load32 m (a + 4)
     \<and> load32 m' (a + 8) = load32 m (a + 8)"

lemma fields:
  assumes "fit a 12"
  shows "fit a 4" "fit (a + 4) 4" "fit (a + 8) 4" "span a 4 \<subseteq> span a 12" "span (a + 4) 4 \<subseteq> span a 12"
    "span (a + 8) 4 \<subseteq> span a 12" "span a 4 \<inter> span (a + 8) 4 = {}" "span (a + 4) 4 \<inter> span (a + 8) 4 = {}"
    "span a 4 \<inter> span (a + 4) 4 = {}"
proof -
  show "fit a 4" "fit (a + 4) 4" "fit (a + 8) 4"
    using fit_field [OF assms, of 0 4] fit_field [OF assms, of 4 4] fit_field [OF assms, of 8 4] by simp_all
  show "span a 4 \<subseteq> span a 12" "span (a + 4) 4 \<subseteq> span a 12" "span (a + 8) 4 \<subseteq> span a 12"
    using span_field [OF assms, of 0 4] span_field [OF assms, of 4 4] span_field [OF assms, of 8 4] by simp_all
  have "unat (a + 4) = unat a + 4" "unat (a + 8) = unat a + 8"
    using unat_offset [OF assms, of 4] unat_offset [OF assms, of 8] by simp_all
  then show "span a 4 \<inter> span (a + 8) 4 = {}" "span (a + 4) 4 \<inter> span (a + 8) 4 = {}" "span a 4 \<inter> span (a + 4) 4 = {}"
    by (simp_all add: span_def)
qed

lemma same_fieldsI: "changes S m m' \<Longrightarrow> fit a 12 \<Longrightarrow> span a 12 \<inter> S = {} \<Longrightarrow> same_fields m m' a"
  using fields [of a] unfolding same_fields_def by (intro conjI load32_frame) blast+

lemma chain_same: "\<forall>a \<in> set as. same_fields m m' a \<Longrightarrow> chain m' p as = chain m p as"
  by (induction as arbitrary: p) (auto simp: same_fields_def)

lemma arcs_same: "\<forall>a \<in> set as. same_fields m m' a \<Longrightarrow> arcs_value m' as = arcs_value m as"
  by (simp add: arcs_value_def same_fields_def)

lemma no_calls: "graph_value m [] = []" "arcs_value m [] = []"
  by (simp_all add: graph_value_def arcs_value_def)

lemma in_nodes: "(f, arcs) \<in> set sh \<Longrightarrow> f \<in> set (nodes sh) \<and> set arcs \<subseteq> set (nodes sh)"
  by (auto simp: nodes_def)

lemma nodes_simps [simp]: "nodes [] = []" "nodes ((f, arcs) # sh) = f # arcs @ nodes sh"
  by (simp_all add: nodes_def)

lemma graph_same:
  assumes "\<forall>a \<in> set (nodes sh). same_fields m m' a"
  shows "graph_value m' sh = graph_value m sh"
    and "(\<forall>(f, arcs) \<in> set sh. chain m' (load32 m' (f + 8)) arcs) = (\<forall>(f, arcs) \<in> set sh. chain m (load32 m (f + 8)) arcs)"
    and "chain m' p (map fst sh) = chain m p (map fst sh)"
proof -
  have same: "\<forall>a \<in> set (f # arcs). same_fields m m' a" if "(f, arcs) \<in> set sh" for f arcs
    using assms in_nodes [OF that] by auto
  show "graph_value m' sh = graph_value m sh"
    unfolding graph_value_def using same by (auto simp: arcs_same same_fields_def)
  have eq: "chain m' (load32 m' (f + 8)) arcs = chain m (load32 m (f + 8)) arcs" if "(f, arcs) \<in> set sh" for f arcs
    using same [OF that] by (simp add: chain_same same_fields_def)
  then show "(\<forall>(f, arcs) \<in> set sh. chain m' (load32 m' (f + 8)) arcs) = (\<forall>(f, arcs) \<in> set sh. chain m (load32 m (f + 8)) arcs)"
    by fast
  show "chain m' p (map fst sh) = chain m p (map fst sh)"
    by (rule chain_same) (use same in auto)
qed

section \<open>Recording a call\<close>

lemma load32_apart:
  assumes "fit a 4" and "fit b 4" and "span b 4 \<inter> span a 4 = {}"
  shows "load32 (store32 a v m) b = load32 m b"
  using load32_frame [OF store32_changes [OF assms(1)] assms(2,3)] .

text \<open>The stores that enter a new function at the head of its list, and a new arc of a function.\<close>

definition enter_function :: "u32 \<Rightarrow> u32 \<Rightarrow> u32 \<Rightarrow> byte_memory \<Rightarrow> byte_memory" where
  "enter_function head p self m =
     (let m = store32 (p + 4) self m; m = store32 (p + 8) 0 m; m = store32 p (load32 m head) m
      in store32 head p m)"

definition enter_arc :: "u32 \<Rightarrow> u32 \<Rightarrow> u32 \<Rightarrow> byte_memory \<Rightarrow> byte_memory" where
  "enter_arc f q caller m =
     (let m = store32 (q + 4) caller m; m = store32 (q + 8) 1 m; m = store32 q (load32 m (f + 8)) m
      in store32 (f + 8) q m)"

lemma enter_function_stores:
  fixes m :: byte_memory
  assumes "fit head 4" and "fit p 12" and "span p 12 \<inter> span head 4 = {}"
  and m': "m' = enter_function head p self m"
  shows "load32 m' head = p" and "load32 m' p = load32 m head" and "load32 m' (p + 4) = self" and "load32 m' (p + 8) = 0"
    and "changes (span p 12 \<union> span head 4) m m'"
proof -
  note p = fields [OF assms(2)]
  have apart: "span head 4 \<inter> span p 4 = {}" "span head 4 \<inter> span (p + 4) 4 = {}" "span head 4 \<inter> span (p + 8) 4 = {}"
    "span p 4 \<inter> span head 4 = {}" "span (p + 4) 4 \<inter> span head 4 = {}" "span (p + 8) 4 \<inter> span head 4 = {}"
    using p assms(3) by blast+
  note apart' = load32_apart [OF p(1) assms(1) apart(1)] load32_apart [OF p(2) assms(1) apart(2)]
    load32_apart [OF p(3) assms(1) apart(3)] load32_apart [OF assms(1) p(1) apart(4)]
    load32_apart [OF assms(1) p(2) apart(5)] load32_apart [OF assms(1) p(3) apart(6)] load32_fields [OF assms(2)]
  show "load32 m' head = p" "load32 m' p = load32 m head" "load32 m' (p + 4) = self" "load32 m' (p + 8) = 0"
    by (simp_all add: m' enter_function_def Let_def apart')
  have c: "changes (span p 12 \<union> span head 4) m (store32 x v m)" if "fit x 4" "span x 4 \<subseteq> span p 12 \<union> span head 4" for x v m
    using changes_mono [OF store32_changes [OF that(1)] that(2)] .
  show "changes (span p 12 \<union> span head 4) m m'"
    unfolding m' enter_function_def Let_def
    by (intro changes_trans [OF c changes_trans [OF c changes_trans [OF c c]]]) (use p assms(1) in auto)
qed

lemma enter_arc_stores:
  fixes m :: byte_memory
  assumes "fit f 12" and "fit q 12" and "span q 12 \<inter> span f 12 = {}"
  and m': "m' = enter_arc f q caller m"
  shows "load32 m' (f + 8) = q" and "load32 m' q = load32 m (f + 8)" and "load32 m' (q + 4) = caller"
    and "load32 m' (q + 8) = 1" and "load32 m' f = load32 m f" and "load32 m' (f + 4) = load32 m (f + 4)"
    and "changes (span q 12 \<union> span (f + 8) 4) m m'"
proof -
  note q = fields [OF assms(2)] and f = fields [OF assms(1)]
  have apart: "span a 4 \<inter> span b 4 = {}" if "a \<in> {q, q + 4, q + 8}" "b \<in> {f, f + 4, f + 8}" for a b
    using that q(4-6) f(4-6) assms(3) by blast
  have apart': "span b 4 \<inter> span a 4 = {}" if "a \<in> {q, q + 4, q + 8}" "b \<in> {f, f + 4, f + 8}" for a b
    using apart [OF that] by blast
  have qf: "load32 (store32 a v m) b = load32 m b" if "a \<in> {q, q + 4, q + 8}" "b \<in> {f, f + 4, f + 8}" for a b v m
    using that q(1-3) f(1-3) by (intro load32_apart apart') auto
  have fq: "load32 (store32 b v m) a = load32 m a" if "a \<in> {q, q + 4, q + 8}" "b \<in> {f, f + 4, f + 8}" for a b v m
    using that q(1-3) f(1-3) by (intro load32_apart apart) auto
  show "load32 m' (f + 8) = q" "load32 m' q = load32 m (f + 8)" "load32 m' (q + 4) = caller"
    "load32 m' (q + 8) = 1" "load32 m' f = load32 m f" "load32 m' (f + 4) = load32 m (f + 4)"
    by (simp_all add: m' enter_arc_def Let_def qf fq load32_fields [OF assms(1)] load32_fields [OF assms(2)])
  have c: "changes (span q 12 \<union> span (f + 8) 4) m (store32 x v m)"
    if "fit x 4" "span x 4 \<subseteq> span q 12 \<union> span (f + 8) 4" for x v m
    using changes_mono [OF store32_changes [OF that(1)] that(2)] .
  show "changes (span q 12 \<union> span (f + 8) 4) m m'"
    unfolding m' enter_arc_def Let_def
    by (intro changes_trans [OF c changes_trans [OF c changes_trans [OF c c]]]) (use q f in auto)
qed

lemma nodes_append [simp]: "nodes (us @ vs) = nodes us @ nodes vs"
  by (simp add: nodes_def)

lemma memory_irrelevant [simp]:
  "avail (g\<lparr>gmon_memory := m\<rparr>) = avail g" "slab_ok (g\<lparr>gmon_memory := m\<rparr>) = slab_ok g"
  "slab_room l n (g\<lparr>gmon_memory := m\<rparr>) = slab_room l n g"
  by (simp_all add: avail_def slab_ok_def slab_room_def)

text \<open>A fresh block: taken from what was free, and no longer free.\<close>

definition fresh :: "u32 \<Rightarrow> gmon \<Rightarrow> gmon \<Rightarrow> bool" where
  "fresh p g g' \<longleftrightarrow> fit p 12 \<and> p \<noteq> 0 \<and> span p 12 \<subseteq> avail g \<and> avail g' \<subseteq> avail g - span p 12 \<and> slab_ok g'"

lemma allocate_fresh:
  assumes "slab_ok (gmon_of s)" and "slab_room l n (gmon_of s)" and "12 \<le> n" and "n \<le> 24"
  obtains p f where "mcount_allocate l 12 s = (p, set_gmon f s)" and "fresh p (gmon_of s) (f (gmon_of s))"
    and "slab_room l (n - 12) (f (gmon_of s))" and "gmon_memory (f (gmon_of s)) = gmon_memory (gmon_of s)"
  by (rule allocate_node [OF assms]) (rule that, assumption, simp_all add: fresh_def)

lemma fresh_memory [simp]: "fresh p g (g'\<lparr>gmon_memory := m\<rparr>) = fresh p g g'"
  by (simp add: fresh_def)

lemma fresh_apart:
  assumes "graph_ok head sh g" and "fresh p g g'"
  shows "span p 12 \<inter> span head 4 = {}" and "\<forall>a \<in> set (nodes sh). span p 12 \<inter> span a 12 = {} \<and> fit a 12"
    and "p \<notin> set (nodes sh)"
proof -
  have p: "span p 12 \<subseteq> avail g" using assms(2) by (simp add: fresh_def)
  have out: "footprint head sh \<inter> avail g = {}" and sep: "separate head sh" using assms(1) by (simp_all add: graph_ok_def)
  have "span head 4 \<subseteq> footprint head sh" by (auto simp: footprint_def)
  then show "span p 12 \<inter> span head 4 = {}" using p out by blast
  show nodes: "\<forall>a \<in> set (nodes sh). span p 12 \<inter> span a 12 = {} \<and> fit a 12"
  proof
    fix a assume a: "a \<in> set (nodes sh)"
    then have "span a 12 \<subseteq> footprint head sh" by (auto simp: footprint_def)
    then show "span p 12 \<inter> span a 12 = {} \<and> fit a 12" using a p out sep by (auto simp: separate_def)
  qed
  have "unat p \<in> span p 12" by (simp add: span_def)
  then show "p \<notin> set (nodes sh)" using nodes by blast
qed

lemma separate_more:
  assumes "graph_ok head sh g" and "fresh p g g'" and "mset (nodes sh') = add_mset p (mset (nodes sh))"
  shows "separate head sh'" and "footprint head sh' \<inter> avail g' = {}"
proof -
  note apart = fresh_apart [OF assms(1,2)]
  have set: "set (nodes sh') = insert p (set (nodes sh))" using arg_cong [OF assms(3), of set_mset] by simp
  have "distinct (nodes sh')"
    using assms(1,3) apart(3) mset_eq_imp_distinct_iff [of "nodes sh'" "p # nodes sh"]
    by (simp add: graph_ok_def separate_def)
  moreover have "\<forall>a \<in> set (nodes sh). span a 12 \<inter> span p 12 = {}" using apart(2) by blast
  moreover have "fit p 12" using assms(2) by (simp add: fresh_def)
  ultimately show "separate head sh'"
    using assms(1) apart(1,2) unfolding separate_def set ball_simps by (simp add: graph_ok_def separate_def)
  have "footprint head sh' = footprint head sh \<union> span p 12" unfolding footprint_def set by auto
  then show "footprint head sh' \<inter> avail g' = {}"
    using assms(1,2) by (auto simp: graph_ok_def fresh_def)
qed

lemma function_entered:
  assumes "graph_ok head sh g" and "fresh p g g'" and "gmon_memory g' = enter_function head p self (gmon_memory g)"
  shows "graph_ok head ((p, []) # sh) g'"
    and "graph_value (gmon_memory g') ((p, []) # sh) = (self, []) # graph_value (gmon_memory g) sh"
proof -
  have sep: "separate head sh" and at: "graph_at (gmon_memory g) head sh"
    using assms(1) by (auto simp: graph_ok_def)
  note apart = fresh_apart [OF assms(1,2)]
  have fit: "fit head 4" "fit p 12" "p \<noteq> 0" using sep assms(2) by (auto simp: separate_def fresh_def)
  note st = enter_function_stores [OF fit(1,2) apart(1) assms(3)]
  have "\<forall>a \<in> set (nodes sh). same_fields (gmon_memory g) (gmon_memory g') a"
  proof
    fix a assume a: "a \<in> set (nodes sh)"
    show "same_fields (gmon_memory g) (gmon_memory g') a"
      by (rule same_fieldsI [OF st(5)]) (use a apart(2) sep in \<open>auto simp: separate_def\<close>)
  qed
  note same = graph_same [OF this]
  have "graph_at (gmon_memory g') head ((p, []) # sh)"
    using at st(1,2,4) fit(3) same(2,3) by (simp add: graph_at_def)
  moreover have "separate head ((p, []) # sh)" "footprint head ((p, []) # sh) \<inter> avail g' = {}"
    by (rule separate_more [OF assms(1,2)]; simp)+
  ultimately show "graph_ok head ((p, []) # sh) g'" using assms(2) by (simp add: graph_ok_def fresh_def)
  show "graph_value (gmon_memory g') ((p, []) # sh) = (self, []) # graph_value (gmon_memory g) sh"
    using st(3) same(1) by (simp add: graph_value_def arcs_value_def)
qed

lemma arc_entered:
  assumes "graph_ok head sh g" and "fresh q g g'" and "sh = us @ (f, arcs) # vs"
    and "gmon_memory g' = enter_arc f q caller (gmon_memory g)"
  shows "graph_ok head (us @ (f, q # arcs) # vs) g'"
    and "graph_value (gmon_memory g') (us @ (f, q # arcs) # vs) = graph_value (gmon_memory g) us
      @ (load32 (gmon_memory g) (f + 4), (caller, 1) # arcs_value (gmon_memory g) arcs) # graph_value (gmon_memory g) vs"
proof -
  let ?m = "gmon_memory g" and ?m' = "gmon_memory g'"
  have sep: "separate head sh" and at: "graph_at ?m head sh"
    using assms(1) by (auto simp: graph_ok_def)
  note apart = fresh_apart [OF assms(1,2)]
  have fit: "fit head 4" "fit f 12" "fit q 12" "q \<noteq> 0" and fq: "span q 12 \<inter> span f 12 = {}"
    using sep assms(2) apart(2) unfolding assms(3) by (auto simp: separate_def fresh_def)
  note st = enter_arc_stores [OF fit(2,3) fq assms(4)]
  have other: "same_fields ?m ?m' a" if "a \<in> set (nodes us) \<union> set arcs \<union> set (nodes vs)" for a
  proof (rule same_fieldsI [OF st(7)])
    have "a \<noteq> f" "a \<in> set (nodes sh)" "f \<in> set (nodes sh)" using that sep unfolding assms(3) separate_def by auto
    then have "span a 12 \<inter> span f 12 = {}" "fit a 12" "span a 12 \<inter> span q 12 = {}"
      using sep apart(2) unfolding separate_def by auto
    then show "fit a 12" "span a 12 \<inter> (span q 12 \<union> span (f + 8) 4) = {}" using fields(6) [OF fit(2)] by auto
  qed
  have head: "load32 ?m' head = load32 ?m head"
  proof (rule load32_frame [OF st(7) fit(1)])
    have "span f 12 \<inter> span head 4 = {}" using sep unfolding assms(3) separate_def by auto
    then show "span head 4 \<inter> (span q 12 \<union> span (f + 8) 4) = {}" using apart(1) fields(6) [OF fit(2)] by blast
  qed
  have us: "\<forall>a \<in> set (nodes us). same_fields ?m ?m' a" and vs: "\<forall>a \<in> set (nodes vs). same_fields ?m ?m' a"
    and arcs: "\<forall>a \<in> set arcs. same_fields ?m ?m' a" using other by auto
  have next_ptrs: "chain ?m' p (map fst sh) = chain ?m p (map fst sh)" for p
  proof -
    have "\<forall>a \<in> fst ` set sh. load32 ?m' a = load32 ?m a"
    proof
      fix a assume a: "a \<in> fst ` set sh"
      show "load32 ?m' a = load32 ?m a"
      proof (cases "a = f")
        case False
        then have "a \<in> set (nodes us) \<union> set arcs \<union> set (nodes vs)" using a in_nodes unfolding assms(3) by fastforce
        then show ?thesis using other by (simp add: same_fields_def)
      qed (simp add: st(5))
    qed
    then have "\<forall>a \<in> set (map fst sh). load32 ?m' a = load32 ?m a" by simp
    then show ?thesis by (induction "map fst sh" arbitrary: p sh) auto
  qed
  have "graph_at ?m' head (us @ (f, q # arcs) # vs)"
    using at next_ptrs graph_same(2) [OF us] graph_same(2) [OF vs] st(1,2) fit(4) chain_same [OF arcs] head
    unfolding graph_at_def assms(3) by (simp add: ball_Un)
  moreover have "separate head (us @ (f, q # arcs) # vs)" "footprint head (us @ (f, q # arcs) # vs) \<inter> avail g' = {}"
    by (rule separate_more [OF assms(1,2)]; simp add: assms(3))+
  ultimately show "graph_ok head (us @ (f, q # arcs) # vs) g'" using assms(2) by (simp add: graph_ok_def fresh_def)
  show "graph_value ?m' (us @ (f, q # arcs) # vs) = graph_value ?m us
      @ (load32 ?m (f + 4), (caller, 1) # arcs_value ?m arcs) # graph_value ?m vs"
    using graph_same(1) [OF us] graph_same(1) [OF vs] arcs_same [OF arcs] st(3,4,6)
    by (simp add: graph_value_def arcs_value_def)
qed

lemma gmon_of_irq [simp]:
  "gmon_of (snd (alt_irq_disable_all s)) = gmon_of s" "gmon_of (alt_irq_enable_all c s) = gmon_of s"
  by (simp_all add: alt_irq_disable_all_def alt_irq_enable_all_def)

definition add_function :: "gmon_layout \<Rightarrow> u32 \<Rightarrow> u32 \<Rightarrow> profiling \<Rightarrow> u32 \<times> profiling" where
  "add_function l head self s =
     (let (p, s) = mcount_allocate l 12 s;
          s = gmon_store (p + 4) self s; s = gmon_store (p + 8) 0 s;
          s = gmon_store p (gmon_load head s) s; s = gmon_store head p s
      in (p, s))"

definition add_arc :: "gmon_layout \<Rightarrow> u32 \<Rightarrow> u32 \<Rightarrow> profiling \<Rightarrow> profiling" where
  "add_arc l f caller s =
     (let (q, s) = mcount_allocate l 12 s;
          s = gmon_store (q + 4) caller s; s = gmon_store (q + 8) 1 s;
          s = gmon_store q (gmon_load (f + 8) s) s
      in gmon_store (f + 8) q s)"

lemma record_parts:
  assumes "pcsample_need_init (gmon_of s) = 0"
  shows "mcount_record l self caller f head s =
    (let (context, s) = alt_irq_disable_all s;
         (f, s) = (if f = 0 then add_function l head self s else (f, s))
     in alt_irq_enable_all context (add_arc l f caller s))"
  using assms by (simp add: mcount_record_def add_function_def add_arc_def Let_def split_def)

lemma add_function_ok:
  assumes "graph_ok head sh (gmon_of s)" and "slab_room l 24 (gmon_of s)"
  obtains p s' where "add_function l head self s = (p, s')" and "p \<noteq> 0" and "graph_ok head ((p, []) # sh) (gmon_of s')"
    and "graph_value (gmon_memory (gmon_of s')) ((p, []) # sh) = (self, []) # graph_value (gmon_memory (gmon_of s)) sh"
    and "load32 (gmon_memory (gmon_of s')) (p + 4) = self"
    and "slab_room l 12 (gmon_of s')" and "avail (gmon_of s') \<subseteq> avail (gmon_of s)"
    and "changes (footprint head sh \<union> avail (gmon_of s)) (gmon_memory (gmon_of s)) (gmon_memory (gmon_of s'))"
    and "footprint head ((p, []) # sh) \<subseteq> footprint head sh \<union> avail (gmon_of s)"
proof -
  have ok: "slab_ok (gmon_of s)" "fit head 4" using assms(1) by (simp_all add: graph_ok_def separate_def)
  obtain p f where p: "mcount_allocate l 12 s = (p, set_gmon f s)" "fresh p (gmon_of s) (f (gmon_of s))"
      "slab_room l (24 - 12) (f (gmon_of s))" "gmon_memory (f (gmon_of s)) = gmon_memory (gmon_of s)"
    by (rule allocate_fresh [OF ok(1) assms(2)]) simp_all
  have fp: "fit p 12" "p \<noteq> 0" "span p 12 \<subseteq> avail (gmon_of s)" "avail (f (gmon_of s)) \<subseteq> avail (gmon_of s)"
    using p(2) by (auto simp: fresh_def)
  let ?s = "snd (add_function l head self s)"
  have g: "gmon_of ?s = (f (gmon_of s))\<lparr>gmon_memory := enter_function head p self (gmon_memory (gmon_of s))\<rparr>"
    using p(1,4) by (simp add: add_function_def gmon_store_def gmon_load_def enter_function_def Let_def)
  have "fresh p (gmon_of s) (gmon_of ?s)" using p(2) by (simp add: g)
  note fresh = fresh_apart(1) [OF assms(1) this] function_entered [OF assms(1) this, of self]
  note st = enter_function_stores [OF ok(2) fp(1) fresh(1) refl, where m = "gmon_memory (gmon_of s)" and self = self]
  show thesis
  proof (rule that [of p ?s])
    show "add_function l head self s = (p, ?s)" using p(1) by (simp add: add_function_def Let_def)
    show "changes (footprint head sh \<union> avail (gmon_of s)) (gmon_memory (gmon_of s)) (gmon_memory (gmon_of ?s))"
      unfolding g using st(5) fp(3) by (auto elim!: changes_mono simp: footprint_def)
    show "footprint head ((p, []) # sh) \<subseteq> footprint head sh \<union> avail (gmon_of s)"
      using fp(3) by (auto simp: footprint_def)
  qed (use p fp fresh(2,3) st(3) in \<open>auto simp: g\<close>)
qed

lemma add_arc_ok:
  assumes "graph_ok head sh (gmon_of s)" and "slab_room l 12 (gmon_of s)" and "sh = us @ (f, arcs) # vs"
  obtains q where "graph_ok head (us @ (f, q # arcs) # vs) (gmon_of (add_arc l f caller s))"
    and "graph_value (gmon_memory (gmon_of (add_arc l f caller s))) (us @ (f, q # arcs) # vs)
      = graph_value (gmon_memory (gmon_of s)) us
        @ (load32 (gmon_memory (gmon_of s)) (f + 4), (caller, 1) # arcs_value (gmon_memory (gmon_of s)) arcs)
        # graph_value (gmon_memory (gmon_of s)) vs"
    and "changes (footprint head sh \<union> avail (gmon_of s)) (gmon_memory (gmon_of s)) (gmon_memory (gmon_of (add_arc l f caller s)))"
proof -
  have ok: "slab_ok (gmon_of s)" "fit f 12" using assms(1,3) by (auto simp: graph_ok_def separate_def)
  obtain q h where q: "mcount_allocate l 12 s = (q, set_gmon h s)" "fresh q (gmon_of s) (h (gmon_of s))"
      "gmon_memory (h (gmon_of s)) = gmon_memory (gmon_of s)"
    by (rule allocate_fresh [OF ok(1) assms(2)]) simp_all
  have fq: "fit q 12" "span q 12 \<subseteq> avail (gmon_of s)" using q(2) by (auto simp: fresh_def)
  let ?g = "gmon_of (add_arc l f caller s)"
  have g: "?g = (h (gmon_of s))\<lparr>gmon_memory := enter_arc f q caller (gmon_memory (gmon_of s))\<rparr>"
    using q(1,3) by (simp add: add_arc_def gmon_store_def gmon_load_def enter_arc_def Let_def)
  have fresh: "fresh q (gmon_of s) ?g" using q(2) by (simp add: g)
  have "span q 12 \<inter> span f 12 = {}" using fresh_apart(2) [OF assms(1) fresh] assms(3) by auto
  note st = enter_arc_stores [OF ok(2) fq(1) this refl, where m = "gmon_memory (gmon_of s)" and caller = caller]
  show thesis
  proof (rule that [of q])
    have "span (f + 8) 4 \<subseteq> footprint head sh" using fields(6) [OF ok(2)] assms(3) by (auto simp: footprint_def)
    then show "changes (footprint head sh \<union> avail (gmon_of s)) (gmon_memory (gmon_of s)) (gmon_memory ?g)"
      unfolding g using fq(2) st(7) by (auto elim!: changes_mono)
  qed (use arc_entered [OF assms(1) fresh assms(3), of caller] g in auto)
qed

section \<open>Properties\<close>

text \<open>A call of a function, new or the one at index \<open>i\<close>, by a caller that it does not have yet.\<close>

fun record_call :: "nat option \<Rightarrow> u32 \<Rightarrow> u32 \<Rightarrow> calls_made \<Rightarrow> calls_made" where
  "record_call None self caller G = (self, [(caller, 1)]) # G"
| "record_call (Some i) self caller G = G[i := (fst (G ! i), (caller, 1) # snd (G ! i))]"

text \<open>Property C36. Recording a call implements the entry of a caller into the call graph: the lists in memory stay well formed, their blocks apart
  from each other and from free memory, and their value is that of the abstract graph; no other memory changes.\<close>

theorem call_is_recorded:
  assumes "graph_ok head sh (gmon_of s)" and "pcsample_need_init (gmon_of s) = 0" and "slab_room l 24 (gmon_of s)"
    and "fn_entry \<noteq> 0 \<longrightarrow> i < length sh \<and> fst (sh ! i) = fn_entry"
  shows "\<exists>sh'. graph_ok head sh' (gmon_of (mcount_record l self_pc from_pc fn_entry head s))
    \<and> graph_value (gmon_memory (gmon_of (mcount_record l self_pc from_pc fn_entry head s))) sh'
      = record_call (if fn_entry = 0 then None else Some i) self_pc from_pc (graph_value (gmon_memory (gmon_of s)) sh)
    \<and> changes (footprint head sh \<union> avail (gmon_of s)) (gmon_memory (gmon_of s))
        (gmon_memory (gmon_of (mcount_record l self_pc from_pc fn_entry head s)))"
proof -
  let ?s = "snd (alt_irq_disable_all s)"
  let ?m = "gmon_memory (gmon_of s)" and ?r = "mcount_record l self_pc from_pc fn_entry head s"
  show ?thesis
  proof (cases "fn_entry = 0")
    case True
    obtain p s' where p: "add_function l head self_pc ?s = (p, s')" "graph_ok head ((p, []) # sh) (gmon_of s')"
        "graph_value (gmon_memory (gmon_of s')) ((p, []) # sh) = (self_pc, []) # graph_value ?m sh"
        "load32 (gmon_memory (gmon_of s')) (p + 4) = self_pc"
        "slab_room l 12 (gmon_of s')" "avail (gmon_of s') \<subseteq> avail (gmon_of s)"
        "changes (footprint head sh \<union> avail (gmon_of s)) ?m (gmon_memory (gmon_of s'))"
        "footprint head ((p, []) # sh) \<subseteq> footprint head sh \<union> avail (gmon_of s)"
      by (rule add_function_ok [of head sh ?s l self_pc]) (use assms(1,3) in simp_all)
    have r: "gmon_of ?r = gmon_of (add_arc l p from_pc s')"
      using True p(1) by (simp add: record_parts [OF assms(2)] split_def Let_def)
    obtain q where q: "graph_ok head ((p, [q]) # sh) (gmon_of ?r)"
        "graph_value (gmon_memory (gmon_of ?r)) ((p, [q]) # sh)
          = (load32 (gmon_memory (gmon_of s')) (p + 4), [(from_pc, 1)]) # graph_value (gmon_memory (gmon_of s')) sh"
        "changes (footprint head ((p, []) # sh) \<union> avail (gmon_of s')) (gmon_memory (gmon_of s')) (gmon_memory (gmon_of ?r))"
      unfolding r by (rule add_arc_ok [OF p(2,5), where us = "[]" and f = p and arcs = "[]" and vs = sh and caller = from_pc])
        (simp_all add: no_calls)
    have "graph_value (gmon_memory (gmon_of s')) sh = graph_value ?m sh"
      using p(3) by (simp add: graph_value_def)
    then have all: "graph_value (gmon_memory (gmon_of ?r)) ((p, [q]) # sh) = (self_pc, [(from_pc, 1)]) # graph_value ?m sh"
      using q(2) p(4) by simp
    have "changes (footprint head sh \<union> avail (gmon_of s)) ?m (gmon_memory (gmon_of ?r))"
      by (rule changes_trans [OF p(7) changes_mono [OF q(3)]]) (use p(6,8) in blast)
    then show ?thesis using True q(1) all by (intro exI [of _ "(p, [q]) # sh"] conjI) simp_all
  next
    case False
    define us where "us = take i sh"
    define vs where "vs = drop (Suc i) sh"
    have i: "i < length sh" "fst (sh ! i) = fn_entry" using assms(4) False by auto
    then have sh: "sh = us @ (fn_entry, snd (sh ! i)) # vs"
      by (metis us_def vs_def id_take_nth_drop prod.collapse)
    have r: "gmon_of ?r = gmon_of (add_arc l fn_entry from_pc ?s)"
      using False by (simp add: record_parts [OF assms(2)] split_def Let_def)
    have room: "slab_room l 12 (gmon_of s)" using assms(3) by (auto simp: slab_room_def)
    obtain q where q: "graph_ok head (us @ (fn_entry, q # snd (sh ! i)) # vs) (gmon_of ?r)"
        "graph_value (gmon_memory (gmon_of ?r)) (us @ (fn_entry, q # snd (sh ! i)) # vs) = graph_value ?m us
          @ (load32 ?m (fn_entry + 4), (from_pc, 1) # arcs_value ?m (snd (sh ! i))) # graph_value ?m vs"
        "changes (footprint head sh \<union> avail (gmon_of s)) ?m (gmon_memory (gmon_of ?r))"
      unfolding r by (rule add_arc_ok [of head sh ?s l us, OF _ _ sh]) (use assms(1) room in simp_all)
    let ?G = "graph_value ?m sh"
    have "?G = graph_value ?m us @ (load32 ?m (fn_entry + 4), arcs_value ?m (snd (sh ! i))) # graph_value ?m vs"
      by (subst sh) (simp add: graph_value_def)
    moreover have "length (graph_value ?m us) = i" using i(1) by (simp add: graph_value_def us_def)
    ultimately have "record_call (Some i) self_pc from_pc ?G = graph_value (gmon_memory (gmon_of ?r)) (us @ (fn_entry, q # snd (sh ! i)) # vs)"
      unfolding q(2) by (simp add: list_update_append nth_append)
    then show ?thesis using False q(1,3) by (intro exI [of _ "us @ (fn_entry, q # snd (sh ! i)) # vs"] conjI) simp_all
  qed
qed

definition example_layout :: gmon_layout where
  "example_layout = \<lparr>s_low_pc = 0x1000, s_high_pc = 0x1100, mcount_fn_head = 0x100, heap_limit = 0x10000,
     pcsample_code = 0x1040, pcsample_alarm = Alarm 0\<rparr>"

definition example_profile :: "int \<Rightarrow> profiling" where
  "example_profile need = initial_cpu 1 0 (initial_clock
     (\<lambda>_. \<lparr>alarm_time = 0, callback = 0, rollover = 0, alarm_context = 0\<rparr>)
     ((initial_gmon example_layout 0x8000 (\<lambda>_. 0))\<lparr>pcsample_need_init := need\<rparr>))"

theorem call_is_recorded_witness:
  "\<exists>sh. graph_value (gmon_memory (gmon_of (mcount_record example_layout 0x1010 0x1084 0 0x100 (example_profile 0)))) sh
    = [(0x1010, [(0x1084, 1)])]"
proof -
  have g: "gmon_of (example_profile 0) = (initial_gmon example_layout 0x8000 (\<lambda>_. 0))\<lparr>pcsample_need_init := 0\<rparr>"
    by (simp add: example_profile_def initial_cpu_def initial_clock_def)
  have "graph_ok 0x100 [] (gmon_of (example_profile 0))"
    unfolding g
    by (simp add: graph_ok_def graph_at_def separate_def footprint_def slab_ok_def avail_def initial_gmon_def
        load32_def fit_def span_def)
  then show ?thesis
    using call_is_recorded [of "0x100" "[]" "example_profile 0" example_layout 0 0 "0x1010" "0x1084"]
    by (auto simp: g initial_gmon_def slab_room_def example_layout_def no_calls)
qed

section \<open>The histogram\<close>

definition bucket_count :: "gmon_layout \<Rightarrow> nat" where
  "bucket_count l = unat (s_high_pc l - s_low_pc l) div 32"

definition in_bucket :: "gmon_layout \<Rightarrow> nat \<Rightarrow> u32 \<Rightarrow> bool" where
  "in_bucket l b pc \<longleftrightarrow> s_low_pc l \<le> pc \<and> pc < s_high_pc l \<and> unat (pc - s_low_pc l) div 32 = b"

definition bucket :: "gmon \<Rightarrow> nat \<Rightarrow> u16" where
  "bucket g b = load16 (gmon_memory g) (s_pcsamples g + of_nat (2 * b))"

text \<open>One sample adds one to its bucket and changes two bytes at most.\<close>

lemma bucket_span:
  assumes "fit a (2 * n)" and "b < n"
  shows "fit (a + of_nat (2 * b)) 2" and "span (a + of_nat (2 * b)) 2 \<subseteq> span a (2 * n)"
    and "b \<noteq> c \<Longrightarrow> c < n \<Longrightarrow> span (a + of_nat (2 * c)) 2 \<inter> span (a + of_nat (2 * b)) 2 = {}"
proof -
  show "fit (a + of_nat (2 * b)) 2" "span (a + of_nat (2 * b)) 2 \<subseteq> span a (2 * n)"
    using fit_field [OF assms(1), of "2 * b" 2] span_field [OF assms(1), of "2 * b" 2] assms(2) by simp_all
  have "unat (a + of_nat (2 * b)) = unat a + 2 * b" "c < n \<Longrightarrow> unat (a + of_nat (2 * c)) = unat a + 2 * c" for c
    using assms unat_offset [OF assms(1)] by (auto simp del: of_nat_mult)
  then show "b \<noteq> c \<Longrightarrow> c < n \<Longrightarrow> span (a + of_nat (2 * c)) 2 \<inter> span (a + of_nat (2 * b)) 2 = {}"
    by (auto simp: span_def simp del: of_nat_mult)
qed

lemma sample_value:
  assumes "s_pcsamples g \<noteq> 0"
  shows "sample l pc g = (if s_low_pc l \<le> pc \<and> pc < s_high_pc l
     then let b = unat (pc - s_low_pc l) div 32 in
       g\<lparr>gmon_memory := store16 (s_pcsamples g + of_nat (2 * b)) (bucket g b + 1) (gmon_memory g)\<rparr>
     else g)"
proof -
  have "2 * ((pc - s_low_pc l) div 32) = (of_nat (2 * (unat (pc - s_low_pc l) div 32)) :: u32)"
  proof -
    have "(pc - s_low_pc l) div 32 = of_nat (unat (pc - s_low_pc l) div 32)"
      using order.strict_trans1 [OF div_le_dividend unat_u32_less, of "pc - s_low_pc l" 32]
      by (intro word_unat_eq_iff [THEN iffD2]) (simp add: unat_div unat_of_nat)
    then show ?thesis by simp
  qed
  then show ?thesis
    using assms by (simp add: sample_def PCSAMPLE_BYTES_PER_BUCKET_def bucket_def Let_def del: of_nat_mult)
qed

lemma sample_counts:
  assumes "s_pcsamples g \<noteq> 0" and "fit (s_pcsamples g) (2 * n)" and "\<forall>b. in_bucket l b pc \<longrightarrow> b < n"
  shows "s_pcsamples (sample l pc g) = s_pcsamples g"
    and "b < n \<Longrightarrow> bucket (sample l pc g) b = bucket g b + (if in_bucket l b pc then 1 else 0)"
    and "changes (span (s_pcsamples g) (2 * n)) (gmon_memory g) (gmon_memory (sample l pc g))"
proof -
  let ?k = "unat (pc - s_low_pc l) div 32" and ?a = "s_pcsamples g"
  show "s_pcsamples (sample l pc g) = ?a" using assms(1) by (simp add: sample_value Let_def)
  have "(b < n \<longrightarrow> bucket (sample l pc g) b = bucket g b + (if in_bucket l b pc then 1 else 0)) \<and>
      changes (span ?a (2 * n)) (gmon_memory g) (gmon_memory (sample l pc g))" for b
  proof (cases "in_bucket l ?k pc")
    case True
    then have k: "?k < n" using assms(3) by blast
    have s: "sample l pc g = g\<lparr>gmon_memory := store16 (?a + of_nat (2 * ?k)) (bucket g ?k + 1) (gmon_memory g)\<rparr>"
      using True by (simp add: sample_value [OF assms(1)] in_bucket_def Let_def)
    note ch = store16_changes [OF bucket_span(1) [OF assms(2) k]]
    show ?thesis
    proof (intro conjI impI)
      assume b: "b < n"
      show "bucket (sample l pc g) b = bucket g b + (if in_bucket l b pc then 1 else 0)"
      proof (cases "b = ?k")
        case False
        then have "load16 (gmon_memory (sample l pc g)) (?a + of_nat (2 * b)) = load16 (gmon_memory g) (?a + of_nat (2 * b))"
          using load16_frame [OF ch bucket_span(1) [OF assms(2) b] bucket_span(3) [OF assms(2) k _ b]] by (simp add: s)
        then show ?thesis using False True by (simp add: s bucket_def in_bucket_def)
      qed (use True in \<open>simp add: s bucket_def\<close>)
    next
      show "changes (span ?a (2 * n)) (gmon_memory g) (gmon_memory (sample l pc g))"
        using changes_mono [OF ch bucket_span(2) [OF assms(2) k]] by (simp add: s)
    qed
  next
    case False
    then have "sample l pc g = g" "\<not> in_bucket l b pc"
      by (auto simp: sample_value [OF assms(1)] in_bucket_def)
    then show ?thesis by simp
  qed
  note all = this
  show "b < n \<Longrightarrow> bucket (sample l pc g) b = bucket g b + (if in_bucket l b pc then 1 else 0)"
    using all by blast
  show "changes (span ?a (2 * n)) (gmon_memory g) (gmon_memory (sample l pc g))" using all by blast
qed

lemma bucket_below:
  assumes "32 dvd unat (s_high_pc l - s_low_pc l)" and "in_bucket l b pc"
  shows "b < bucket_count l"
proof -
  have "s_low_pc l \<le> pc" "pc < s_high_pc l" using assms(2) by (simp_all add: in_bucket_def)
  then have "unat (pc - s_low_pc l) < unat (s_high_pc l - s_low_pc l)"
    by (simp add: unat_sub word_le_nat_alt word_less_nat_alt)
  moreover have "unat (s_high_pc l - s_low_pc l) = 32 * bucket_count l" using assms(1) by (simp add: bucket_count_def)
  ultimately have "unat (pc - s_low_pc l) < bucket_count l * 32" by simp
  then have "unat (pc - s_low_pc l) div 32 < bucket_count l" by (rule less_mult_imp_div_less)
  then show ?thesis using assms(2) by (simp add: in_bucket_def)
qed

lemma samples_counted:
  assumes "s_pcsamples g \<noteq> 0" and "fit (s_pcsamples g) (2 * bucket_count l)" and "32 dvd unat (s_high_pc l - s_low_pc l)"
    and "b < bucket_count l"
  shows "bucket (fold (sample l) pcs g) b = bucket g b + of_nat (length (filter (in_bucket l b) pcs))"
  using assms(1,2)
proof (induction pcs arbitrary: g)
  case (Cons pc pcs)
  have below: "\<forall>b. in_bucket l b pc \<longrightarrow> b < bucket_count l" using bucket_below [OF assms(3)] by blast
  show ?case
    using Cons.IH [of "sample l pc g"] Cons.prems sample_counts(1,2) [OF Cons.prems below] assms(4) by simp
qed simp

lemma waiting_set_gmon [simp]: "waiting (set_gmon f s) ks = waiting s ks" "tick_rate (system (set_gmon f s)) = tick_rate (system s)"
  by (simp_all add: waiting_def set_gmon_def)

text \<open>Starting the sampler: a cleared histogram, and an alarm that rings every tick from the second on.\<close>

lemma sampler_alarm:
  assumes "waiting s []" and "a \<noteq> alt_alarm_list" and "tick_rate (system s) \<noteq> 0" and "code \<noteq> 0"
  obtains t where "alt_alarm_start (Some a) 1 code 0 s = (0, t)" and "waiting t [(a, 2)]" and "gmon_of t = gmon_of s"
proof -
  have two: "unat (1 :: u32) + 1 = 2" by simp
  have "(2 :: nat) < 2 ^ 32" by simp
  then show thesis
    using start_registers [OF assms(1) _ assms(2-4), of 1 0, unfolded two] that by auto
qed

lemma sampler_starts:
  assumes "waiting s []" and "tick_rate (system s) \<noteq> 0" and "pcsample_code l \<noteq> 0" and "pcsample_alarm l \<noteq> alt_alarm_list"
    and "heap_end (gmon_of s) \<noteq> 0" and "unat (heap_end (gmon_of s)) + 3 + 2 * bucket_count l \<le> unat (heap_limit l)"
  obtains t where "nios2_pcsample_init l s = (0, t)" and "waiting t [(pcsample_alarm l, 2)]"
    and "s_pcsamples (gmon_of t) \<noteq> 0" and "fit (s_pcsamples (gmon_of t)) (2 * bucket_count l)"
    and "\<forall>b < bucket_count l. bucket (gmon_of t) b = 0"
proof -
  let ?n = "bucket_count l" and ?w = "(s_high_pc l - s_low_pc l) div 32 * 2" and ?g = "gmon_of s"
  let ?e = "(heap_end ?g + 3) AND NOT 3"
  have "?n < 2 ^ 31" using unat_u32_less [of "s_high_pc l - s_low_pc l"] by (simp add: bucket_count_def)
  then have w: "unat ?w = 2 * ?n" by (simp add: unat_word_ariths(2) unat_div bucket_count_def)
  have lim: "unat (heap_limit l) < 2 ^ 32" by (rule unat_u32_less)
  have e: "unat ?e = (unat (heap_end ?g) + 3) div 4 * 4" using align_value [of "heap_end ?g"] assms(6) lim by simp
  have le: "unat (heap_end ?g) \<le> unat ?e" "unat ?e + 2 * ?n \<le> unat (heap_limit l)"
    unfolding e using assms(6) by linarith+
  have nz: "?e \<noteq> 0" using le(1) assms(5) by (metis le_zero_eq unat_0 unat_eq_zero)
  have fit: "fit ?e (2 * ?n)" using le(2) lim by (simp add: fit_def)
  have "unat (?e + ?w) = unat ?e + 2 * ?n" using le(2) lim w by (simp add: unat_word_ariths(1))
  then have grant: "\<not> heap_limit l < ?e + ?w" using le(2) by (simp add: word_less_nat_alt)
  let ?f = "\<lambda>g :: gmon. g\<lparr>heap_end := ?e + ?w, s_pcsamples := ?e, gmon_memory := zero_fill ?e (2 * ?n) (gmon_memory g),
    alt_gmon_data := ((alt_gmon_data g)[GMON_DATA_PROFILE_DATA := ?e])[GMON_DATA_PROFILE_RATE := tick_rate (system s)]\<rparr>"
  obtain t where t: "alt_alarm_start (Some (pcsample_alarm l)) 1 (pcsample_code l) 0 (set_gmon ?f s) = (0, t)"
      "waiting t [(pcsample_alarm l, 2)]" "gmon_of t = ?f ?g"
    by (rule sampler_alarm [of "set_gmon ?f s" "pcsample_alarm l" "pcsample_code l"]) (use assms(1-4) in simp_all)
  show thesis
  proof (rule that [OF _ t(2)])
    show "nios2_pcsample_init l s = (0, t)"
      using t(1) assms(2) grant nz
      by (simp add: nios2_pcsample_init_def alt_ticks_per_second_def gmon_sbrk_value PCSAMPLE_BYTES_PER_BUCKET_def w Let_def)
    have "bucket (gmon_of t) b = 0" if b: "b < ?n" for b
    proof -
      have "zero_fill ?e (2 * ?n) m (?e + of_nat (2 * b)) = 0" "zero_fill ?e (2 * ?n) m (?e + of_nat (2 * b) + 1) = 0" for m
        using zero_fill_inside [OF fit, of "2 * b"] zero_fill_inside [OF fit, of "2 * b + 1"] b by (simp_all add: algebra_simps)
      then show ?thesis unfolding t(3) by (simp add: bucket_def load16_def)
    qed
    then show "\<forall>b < ?n. bucket (gmon_of t) b = 0" by blast
  qed (use nz fit in \<open>simp_all add: t(3)\<close>)
qed

text \<open>Ticks of the system clock, each interrupting the program at an address of \<open>pcs\<close>.\<close>

fun profiled_ticks :: "gmon_layout \<Rightarrow> u32 list \<Rightarrow> profiling \<Rightarrow> profiling outcome" where
  "profiled_ticks l [] s = Ret s"
| "profiled_ticks l (pc # pcs) s = seq (alt_tick (\<lambda>f. nios2_pcsample l pc) s) (profiled_ticks l pcs)"

lemma sampler_plain: "plain (\<lambda>f. nios2_pcsample l pc) (\<lambda>f c w. (1, sample l pc w))"
  by (simp add: plain_def nios2_pcsample_def set_gmon_def)

lemma tick_samples:
  assumes "waiting s [(a, k)]"
  obtains t where "alt_tick (\<lambda>f. nios2_pcsample l pc) s = Ret t" and "waiting t [(a, max 1 (k - 1))]"
    and "gmon_of t = (if k \<le> 1 then sample l pc (gmon_of s) else gmon_of s)"
proof -
  have "fst (countdown (of_alarm (\<lambda>f c w. (1, sample l pc w)) s) [(a, k)] (gmon_of s)) = [(a, max 1 (k - 1))]"
    by (cases "k \<le> 1") (auto simp: of_alarm_def max_def)
  moreover have "snd (countdown (of_alarm (\<lambda>f c w. (1, sample l pc w)) s) [(a, k)] (gmon_of s))
      = (if k \<le> 1 then sample l pc (gmon_of s) else gmon_of s)"
    by (simp add: of_alarm_def)
  ultimately show thesis using tick_waiting [OF assms sampler_plain, of l pc] that by auto
qed

lemma ticks_sample:
  "waiting s [(a, 1)] \<Longrightarrow> \<exists>t. profiled_ticks l pcs s = Ret t \<and> gmon_of t = fold (sample l) pcs (gmon_of s)"
proof (induction pcs arbitrary: s)
  case (Cons pc pcs)
  obtain t where "alt_tick (\<lambda>f. nios2_pcsample l pc) s = Ret t" "waiting t [(a, 1)]" "gmon_of t = sample l pc (gmon_of s)"
    using tick_samples [OF Cons.prems, of l pc] by auto
  with Cons.IH [of t] show ?case by auto
qed simp

text \<open>Property C37. After the sampler has started, the first tick passes and every further one counts: when the program text is a whole number of
  buckets, each bucket holds the number of ticks, modulo 65536, that interrupted the program at its 32 bytes.\<close>

theorem profile_counts_ticks:
  assumes "waiting s []" and "tick_rate (system s) \<noteq> 0" and "pcsample_code l \<noteq> 0" and "pcsample_alarm l \<noteq> alt_alarm_list"
    and "heap_end (gmon_of s) \<noteq> 0" and "unat (heap_end (gmon_of s)) + 3 + 2 * bucket_count l \<le> unat (heap_limit l)"
    and "32 dvd unat (s_high_pc l - s_low_pc l)"
  shows "\<exists>t u. nios2_pcsample_init l s = (0, t) \<and> profiled_ticks l (pc # pcs) t = Ret u
    \<and> map (bucket (gmon_of u)) [0..<bucket_count l]
      = map (\<lambda>b. of_nat (length (filter (in_bucket l b) pcs))) [0..<bucket_count l]"
proof -
  obtain t where t: "nios2_pcsample_init l s = (0, t)" "waiting t [(pcsample_alarm l, 2)]" "s_pcsamples (gmon_of t) \<noteq> 0"
      "fit (s_pcsamples (gmon_of t)) (2 * bucket_count l)" "\<forall>b < bucket_count l. bucket (gmon_of t) b = 0"
    using sampler_starts [OF assms(1-6)] .
  obtain v where v: "alt_tick (\<lambda>f. nios2_pcsample l pc) t = Ret v" "waiting v [(pcsample_alarm l, 1)]" "gmon_of v = gmon_of t"
    using tick_samples [OF t(2), of l pc] by auto
  obtain u where "profiled_ticks l pcs v = Ret u" "gmon_of u = fold (sample l) pcs (gmon_of t)"
    using ticks_sample [OF v(2), of l pcs] v(3) by auto
  then show ?thesis using t v(1) samples_counted [OF t(3,4) assms(7)] by (intro exI [of _ t] exI [of _ u]) simp
qed

definition clocked_profile :: profiling where
  "clocked_profile = snd (alt_sysclk_init 1000 (example_profile 1))"

theorem profile_counts_ticks_witness:
  "\<exists>t u. nios2_pcsample_init example_layout clocked_profile = (0, t)
    \<and> profiled_ticks example_layout [0x1004, 0x1004, 0x1020, 0x101f, 0x2000] t = Ret u
    \<and> map (bucket (gmon_of u)) [0..<8] = [2, 1, 0, 0, 0, 0, 0, 0]"
proof -
  have "waiting clocked_profile []" "tick_rate (system clocked_profile) \<noteq> 0" "heap_end (gmon_of clocked_profile) = 0x8000"
    by (simp_all add: clocked_profile_def alt_sysclk_init_def example_profile_def initial_cpu_def initial_clock_def
        initial_gmon_def waiting_def is_list_empty)
  moreover have "bucket_count example_layout = 8" "32 dvd unat (s_high_pc example_layout - s_low_pc example_layout)"
    by (simp_all add: bucket_count_def example_layout_def)
  ultimately show ?thesis
    using profile_counts_ticks [of clocked_profile example_layout "0x1004" "[0x1004, 0x1020, 0x101f, 0x2000]"]
    by (simp add: example_layout_def in_bucket_def upt_rec)
qed

text \<open>Otherwise the last bytes of the program have no bucket of their own: a sample there adds one to the two bytes after the
  histogram.\<close>

lemma sample_past_histogram:
  assumes "s_pcsamples g \<noteq> 0" and "in_bucket l (bucket_count l) pc"
  shows "bucket (sample l pc g) (bucket_count l) = bucket g (bucket_count l) + 1"
  using assms by (simp add: sample_value in_bucket_def Let_def bucket_def)

lemma program_with_tail:
  "bucket_count (example_layout\<lparr>s_high_pc := 0x1110\<rparr>) = 8" "in_bucket (example_layout\<lparr>s_high_pc := 0x1110\<rparr>) 8 0x1104"
  by (simp_all add: bucket_count_def in_bucket_def example_layout_def)

text \<open>When the heap is exhausted, the allocator hands out the \<open>-1\<close> of \<open>sbrk\<close> as the address of a node, and goes on from there.\<close>

lemma allocate_without_heap:
  assumes "mcount_slab_size (gmon_of s) < 12" and "heap_limit l < ((heap_end (gmon_of s) + 3) AND NOT 3) + 1020"
  shows "fst (mcount_allocate l 12 s) = - 1 \<and> mcount_slab_ptr (gmon_of (snd (mcount_allocate l 12 s))) = 11"
  using assms by (simp add: mcount_allocate_def gmon_sbrk_value MCOUNT_SLAB_INCREMENT_def Let_def)

end
