(* ===== verification/Ring.thy ===== *)
theory Ring
  imports Prelude
begin

text \<open>
  The circular buffers of the UART driver as queues.  \<open>ring buf s e\<close> is the HOL list of the bytes
  between the start index \<open>s\<close> and the end index \<open>e\<close> of a buffer of 64; the interface \<open>bounded_queue\<close> says
  what storing at the end, advancing the end and advancing the start do to it.
\<close>

definition ring_length :: "nat \<Rightarrow> nat \<Rightarrow> nat" where
  "ring_length s e = (e + 64 - s) mod 64"

definition ring :: "'a list \<Rightarrow> nat \<Rightarrow> nat \<Rightarrow> 'a list" where
  "ring buf s e = map (\<lambda>k. buf ! ((s + k) mod 64)) [0..<ring_length s e]"

text \<open>What the driver relies on.\<close>

locale bounded_queue =
  fixes queue :: "'a list \<Rightarrow> nat \<Rightarrow> nat \<Rightarrow> 'a list"
    and succ :: "nat \<Rightarrow> nat"
    and size :: nat
  assumes succ_less: "i < size \<Longrightarrow> succ i < size"
    and empty: "s < size \<Longrightarrow> e < size \<Longrightarrow> queue buf s e = [] \<longleftrightarrow> s = e"
    and bound: "s < size \<Longrightarrow> e < size \<Longrightarrow> List.length (queue buf s e) < size"
    and full: "s < size \<Longrightarrow> e < size \<Longrightarrow> succ e = s \<longleftrightarrow> List.length (queue buf s e) = size - 1"
    and free_slot: "s < size \<Longrightarrow> e < size \<Longrightarrow> queue (buf[e := v]) s e = queue buf s e"
    and push: "s < size \<Longrightarrow> e < size \<Longrightarrow> List.length buf = size \<Longrightarrow> succ e \<noteq> s \<Longrightarrow>
      queue (buf[e := v]) s (succ e) = queue buf s e @ [v]"
    and pop: "s < size \<Longrightarrow> e < size \<Longrightarrow> s \<noteq> e \<Longrightarrow> queue buf s e = buf ! s # queue buf (succ s) e"
begin

text \<open>A push that does not check for a full queue empties it.\<close>

lemma push_full:
  assumes "s < size" and "e < size" and "succ e = s"
  shows "queue (buf[e := v]) s (succ e) = []"
  using assms empty by simp

lemma push_any:
  assumes "s < size" and "e < size" and "List.length buf = size"
  shows "queue (buf[e := v]) s (succ e) =
    (if List.length (queue buf s e) = size - 1 then [] else queue buf s e @ [v])"
  using push_full push full assms by simp

end

section \<open>The index arithmetic implements the queue\<close>

lemma ring_length_cases:
  "s < 64 \<Longrightarrow> e < 64 \<Longrightarrow> ring_length s e = (if s \<le> e then e - s else e + 64 - s)"
  by (simp add: ring_length_def mod_if)

definition ring_succ :: "nat \<Rightarrow> nat" where
  "ring_succ i = Suc i mod 64"

lemma ring_succ_cases: "i < 64 \<Longrightarrow> ring_succ i = (if i = 63 then 0 else Suc i)"
  by (simp add: ring_succ_def mod_if)

lemma ring_length_succ:
  "s < 64 \<Longrightarrow> e < 64 \<Longrightarrow> ring_succ e \<noteq> s \<Longrightarrow> ring_length s (ring_succ e) = Suc (ring_length s e)"
  by (auto simp: ring_length_cases ring_succ_cases split: if_splits)

lemma ring_index:
  "s < 64 \<Longrightarrow> k < 64 \<Longrightarrow> (s + k) mod 64 = (if s + k < 64 then s + k else s + k - (64 :: nat))"
  by (simp add: mod_if)

lemma ring_length_less: "ring_length s e < 64"
  by (simp add: ring_length_def)

lemma ring_at_end: "s < 64 \<Longrightarrow> e < 64 \<Longrightarrow> (s + ring_length s e) mod 64 = e"
  using ring_index [of s "ring_length s e"] ring_length_less [of s e]
  by (auto simp: ring_length_cases split: if_splits)

lemma ring_before_end:
  assumes "s < 64" and "e < 64" and "k < ring_length s e"
  shows "(s + k) mod 64 \<noteq> e"
proof -
  have "k < 64" using assms(3) ring_length_less less_trans by blast
  then show ?thesis
    using assms by (subst ring_index) (auto simp: ring_length_cases split: if_splits)
qed

lemma ring_free_slot:
  assumes "s < 64" and "e < 64"
  shows "ring (buf[e := v]) s e = ring buf s e"
proof -
  have "e \<noteq> (s + k) mod 64" if "k < ring_length s e" for k
    using ring_before_end [OF assms that] by blast
  then show ?thesis by (simp add: ring_def)
qed

lemma ring_push:
  assumes "s < 64" and "e < 64" and "length buf = 64" and "ring_succ e \<noteq> s"
  shows "ring (buf[e := v]) s (ring_succ e) = ring buf s e @ [v]"
proof -
  have "ring (buf[e := v]) s (ring_succ e) = ring (buf[e := v]) s e @ [buf[e := v] ! ((s + ring_length s e) mod 64)]"
    by (simp add: ring_def ring_length_succ [OF assms(1,2,4)])
  then show ?thesis
    using assms by (simp add: ring_at_end ring_free_slot)
qed

lemma ring_empty: "s < 64 \<Longrightarrow> e < 64 \<Longrightarrow> ring buf s e = [] \<longleftrightarrow> s = e"
  by (auto simp: ring_def ring_length_cases split: if_splits)

lemma ring_bound: "s < 64 \<Longrightarrow> e < 64 \<Longrightarrow> length (ring buf s e) < 64"
  by (simp add: ring_def ring_length_def)

lemma ring_full: "s < 64 \<Longrightarrow> e < 64 \<Longrightarrow> ring_succ e = s \<longleftrightarrow> length (ring buf s e) = 64 - 1"
  by (auto simp: ring_def ring_length_cases ring_succ_cases split: if_splits)

lemma ring_succ_less: "i < 64 \<Longrightarrow> ring_succ i < 64"
  by (simp add: ring_succ_def)

lemma ring_pop:
  assumes "s < 64" and "e < 64" and "s \<noteq> e"
  shows "ring buf s e = buf ! s # ring buf (ring_succ s) e"
proof -
  have len: "ring_length s e = Suc (ring_length (ring_succ s) e)"
    using assms by (auto simp: ring_length_cases ring_succ_cases split: if_splits)
  have "(ring_succ s + k) mod 64 = (s + Suc k) mod 64" for k
    by (simp add: ring_succ_def mod_add_left_eq)
  then show ?thesis
    using assms(1) unfolding ring_def len by (simp add: upt_conv_Cons map_Suc_upt [symmetric] del: upt_Suc)
qed

interpretation ring: bounded_queue ring ring_succ 64
  by unfold_locales
    (fact ring_succ_less ring_empty ring_bound ring_full ring_free_slot ring_push ring_pop)+

text \<open>The driver's indices are words and wrap by a mask.\<close>

lemma unat_ring_succ: "unat (i :: u32) < 64 \<Longrightarrow> unat ((i + 1) AND 63) = ring_succ (unat i)"
proof -
  assume "unat i < 64"
  moreover have "(i + 1) AND 63 = take_bit 6 (i + 1)"
    by (simp only: take_bit_eq_mask mask_eq_exp_minus_1) simp
  moreover have "unat (i + 1) = Suc (unat i)" if "unat i < 64"
    using that by (simp add: unat_plus_if')
  ultimately show ?thesis by (simp only: unsigned_take_bit_eq ring_succ_def) (simp add: take_bit_eq_mod)
qed

end
