(* ===== verification/Uart.thy ===== *)
theory Uart
  imports Hardware Irq Ring File_Results
begin

text \<open>
  The Avalon UART driver (\<open>drivers/src/altera_avalon_uart_*.c\<close>), the interrupt-driven version that this
  build selects and the polling "small" version.

  \<open>uart\<close> is the state of an instance (\<open>altera_avalon_uart_state\<close>) with what its functions reach: the
  register trace, \<open>errno\<close>, the processor's memory behind the caller's pointers.  The interrupt handler may
  run wherever the foreground code reads a volatile field: \<open>preempt\<close> runs it as often as the parameter
  \<open>irqs\<close> says, which is asked with a count of the places passed so far, so that every interleaving is
  some \<open>irqs\<close>.  Sections between \<open>alt_irq_disable_all\<close> and \<open>alt_irq_enable_all\<close> have no such place.  The
  semaphores and event flags are empty in this single-threaded build.
\<close>

section \<open>Registers\<close>

definition UART_RXDATA :: nat where "UART_RXDATA = 0"
definition UART_TXDATA :: nat where "UART_TXDATA = 1"
definition UART_STATUS :: nat where "UART_STATUS = 2"
definition UART_CONTROL :: nat where "UART_CONTROL = 3"
definition UART_DIVISOR :: nat where "UART_DIVISOR = 4"

lemmas uart_regs = UART_RXDATA_def UART_TXDATA_def UART_STATUS_def UART_CONTROL_def UART_DIVISOR_def

definition STATUS_PE_MSK :: u32 where "STATUS_PE_MSK = 0x1"
definition STATUS_FE_MSK :: u32 where "STATUS_FE_MSK = 0x2"
definition STATUS_TRDY_MSK :: u32 where "STATUS_TRDY_MSK = 0x40"
definition STATUS_RRDY_MSK :: u32 where "STATUS_RRDY_MSK = 0x80"
definition STATUS_DCTS_MSK :: u32 where "STATUS_DCTS_MSK = 0x400"
definition STATUS_CTS_MSK :: u32 where "STATUS_CTS_MSK = 0x800"
definition CONTROL_TRDY_MSK :: u32 where "CONTROL_TRDY_MSK = 0x40"
definition CONTROL_RRDY_MSK :: u32 where "CONTROL_RRDY_MSK = 0x80"
definition CONTROL_DCTS_MSK :: u32 where "CONTROL_DCTS_MSK = 0x400"
definition CONTROL_RTS_MSK :: u32 where "CONTROL_RTS_MSK = 0x800"

section \<open>State\<close>

definition ALT_AVALON_UART_BUF_LEN :: nat where "ALT_AVALON_UART_BUF_LEN = 64"
definition ALT_AVALON_UART_BUF_MSK :: u32 where "ALT_AVALON_UART_BUF_MSK = of_nat (ALT_AVALON_UART_BUF_LEN - 1)"
definition ALT_AVALON_UART_FB :: u32 where "ALT_AVALON_UART_FB = 0x1"
definition ALT_AVALON_UART_FC :: u32 where "ALT_AVALON_UART_FC = 0x2"

text \<open>\<open>termios.h\<close>; the 9-bit mode borrows the 5-bit setting.\<close>

definition CS5 :: u16 where "CS5 = 0"
definition CS7 :: u16 where "CS7 = 0x20"
definition CS8 :: u16 where "CS8 = 0x30"
definition CSTOPB :: u16 where "CSTOPB = 0x40"
definition PARENB :: u16 where "PARENB = 0x100"
definition PAODD :: u16 where "PAODD = 0x200"
definition CRTSCTS :: u16 where "CRTSCTS = 0x1000 OR 0x2000"
definition CS9 :: u16 where "CS9 = CS5"

record termios =
  c_iflag :: u16
  c_oflag :: u16
  c_cflag :: u16
  c_lflag :: u16
  c_line :: u8
  c_cc :: "u8 list"
  c_ispeed :: u32
  c_ospeed :: u32

record uart =
  uart_base :: u32
  ctrl :: u32
  rx_start :: u32
  rx_end :: u32
  tx_start :: u32
  tx_end :: u32
  termios :: termios
  uart_freq :: u32
  uart_flags :: u32
  rx_buf :: "u8 list"
  tx_buf :: "u8 list"
  uart_io :: trace
  uart_errno :: int
  ram :: "u32 \<Rightarrow> u8"
  places :: nat

text \<open>
  \<open>ALTERA_AVALON_UART_TERMIOS\<close>, and \<open>ALTERA_AVALON_UART_STATE_INSTANCE\<close> from the system's parameters: its
  \<open>parity\<close> argument is \<open>name##_PARITY == 'N'\<close>.
\<close>

definition ALTERA_AVALON_UART_TERMIOS :: "nat \<Rightarrow> bool \<Rightarrow> bool \<Rightarrow> nat \<Rightarrow> bool \<Rightarrow> u32 \<Rightarrow> termios" where
  "ALTERA_AVALON_UART_TERMIOS stop_bits parity odd_parity data_bits ctsrts baud =
     \<lparr>c_iflag = 0, c_oflag = 0,
      c_cflag = (if stop_bits = 2 then CSTOPB else 0) OR (if parity then PARENB else 0)
        OR (if odd_parity then PAODD else 0)
        OR (if data_bits = 7 then CS7 else if data_bits = 9 then CS9 else CS8)
        OR (if ctsrts then CRTSCTS else 0),
      c_lflag = 0, c_line = 0, c_cc = replicate 13 0, c_ispeed = baud, c_ospeed = baud\<rparr>"

definition ALTERA_AVALON_UART_STATE_INSTANCE ::
    "u32 \<Rightarrow> nat \<Rightarrow> char \<Rightarrow> nat \<Rightarrow> bool \<Rightarrow> bool \<Rightarrow> u32 \<Rightarrow> u32 \<Rightarrow> trace \<Rightarrow> (u32 \<Rightarrow> u8) \<Rightarrow> uart" where
  "ALTERA_AVALON_UART_STATE_INSTANCE base stop_bits parity data_bits use_cts_rts fixed_baud baud freq t m =
     \<lparr>uart_base = base, ctrl = 0, rx_start = 0, rx_end = 0, tx_start = 0, tx_end = 0,
      termios = ALTERA_AVALON_UART_TERMIOS stop_bits (parity = CHR ''N'') (parity = CHR ''O'')
        data_bits use_cts_rts baud,
      uart_freq = freq,
      uart_flags = (if fixed_baud then ALT_AVALON_UART_FB else 0) OR (if use_cts_rts then ALT_AVALON_UART_FC else 0),
      rx_buf = replicate ALT_AVALON_UART_BUF_LEN 0, tx_buf = replicate ALT_AVALON_UART_BUF_LEN 0,
      uart_io = t, uart_errno = 0, ram = m, places = 0\<rparr>"

section \<open>Register and buffer accesses\<close>

definition uart_IORD :: "device \<Rightarrow> nat \<Rightarrow> uart \<Rightarrow> u32 \<times> uart" where
  "uart_IORD dev reg s =
     (let (v, t) = IORD dev (uart_base s) reg (uart_io s) in (v, s\<lparr>uart_io := t\<rparr>))"

definition uart_IOWR :: "nat \<Rightarrow> u32 \<Rightarrow> uart \<Rightarrow> uart" where
  "uart_IOWR reg v s = s\<lparr>uart_io := IOWR (uart_base s) reg v (uart_io s)\<rparr>"

definition buf_load :: "u8 list \<Rightarrow> u32 \<Rightarrow> u8 outcome" where
  "buf_load buf i = (if unat i < length buf then Ret (buf ! unat i) else Undef)"

definition buf_store :: "u8 list \<Rightarrow> u32 \<Rightarrow> u8 \<Rightarrow> u8 list outcome" where
  "buf_store buf i v = (if unat i < length buf then Ret (buf[unat i := v]) else Undef)"

text \<open>\<open>sp->ctrl |= bits; IOWR_ALTERA_AVALON_UART_CONTROL(...)\<close> with interrupts disabled.\<close>

definition enable_irqs :: "u32 \<Rightarrow> uart \<Rightarrow> uart" where
  "enable_irqs bits s =
     (let s = s\<lparr>ctrl := ctrl s OR bits\<rparr> in uart_IOWR UART_CONTROL (ctrl s) s)"

section \<open>The interrupt handler\<close>

definition altera_avalon_uart_rxirq :: "device \<Rightarrow> u32 \<Rightarrow> uart \<Rightarrow> uart outcome" where
  "altera_avalon_uart_rxirq dev st s =
     (if st AND (STATUS_PE_MSK OR STATUS_FE_MSK) \<noteq> 0 then Ret s
      else
        let next = (rx_end s + 1) AND ALT_AVALON_UART_BUF_MSK;
            (v, s) = uart_IORD dev UART_RXDATA s
        in seq (buf_store (rx_buf s) (rx_end s) (ucast v)) (\<lambda>buf.
           let s = s\<lparr>rx_buf := buf\<rparr>;
               s = s\<lparr>rx_end := next\<rparr>;
               next = (rx_end s + 1) AND ALT_AVALON_UART_BUF_MSK
           in Ret (if next = rx_start s
                then let s = s\<lparr>ctrl := ctrl s AND NOT CONTROL_RRDY_MSK\<rparr> in uart_IOWR UART_CONTROL (ctrl s) s
                else s)))"

text \<open>The transmitter gets the next byte unless flow control holds it back.\<close>

definition uart_transmit :: "device \<Rightarrow> u32 \<Rightarrow> uart \<Rightarrow> uart outcome" where
  "uart_transmit dev st s =
     (if uart_flags s AND ALT_AVALON_UART_FC = 0 \<or> st AND STATUS_CTS_MSK \<noteq> 0 then
        seq (buf_load (tx_buf s) (tx_start s)) (\<lambda>b.
        let s = uart_IOWR UART_TXDATA (ucast b) s;
            s = s\<lparr>tx_start := (tx_start s + 1) AND ALT_AVALON_UART_BUF_MSK\<rparr>
        in Ret (s\<lparr>ctrl := ctrl s OR CONTROL_TRDY_MSK\<rparr>))
      else
        let (st, s) = uart_IORD dev UART_STATUS s
        in Ret (if st AND STATUS_CTS_MSK = 0 then s\<lparr>ctrl := ctrl s AND NOT CONTROL_TRDY_MSK\<rparr> else s))"

definition altera_avalon_uart_txirq :: "device \<Rightarrow> u32 \<Rightarrow> uart \<Rightarrow> uart outcome" where
  "altera_avalon_uart_txirq dev st s =
     seq (if tx_start s \<noteq> tx_end s then uart_transmit dev st s else Ret s) (\<lambda>s.
     let s = (if tx_start s = tx_end s
              then s\<lparr>ctrl := ctrl s AND NOT (CONTROL_TRDY_MSK OR CONTROL_DCTS_MSK)\<rparr> else s)
     in Ret (uart_IOWR UART_CONTROL (ctrl s) s))"

definition altera_avalon_uart_irq :: "device \<Rightarrow> uart \<Rightarrow> uart outcome" where
  "altera_avalon_uart_irq dev s =
     (let (st, s) = uart_IORD dev UART_STATUS s;
          s = uart_IOWR UART_STATUS 0 s;
          (ignored, s) = uart_IORD dev UART_STATUS s
      in seq (if st AND STATUS_RRDY_MSK \<noteq> 0 then altera_avalon_uart_rxirq dev st s else Ret s) (\<lambda>s.
         if st AND (STATUS_TRDY_MSK OR STATUS_DCTS_MSK) \<noteq> 0 then altera_avalon_uart_txirq dev st s
         else Ret s))"

primrec uart_irqs :: "device \<Rightarrow> nat \<Rightarrow> uart \<Rightarrow> uart outcome" where
  "uart_irqs dev 0 s = Ret s"
| "uart_irqs dev (Suc n) s = seq (altera_avalon_uart_irq dev s) (uart_irqs dev n)"

definition preempt :: "device \<Rightarrow> (nat \<Rightarrow> nat) \<Rightarrow> uart \<Rightarrow> uart outcome" where
  "preempt dev irqs s = uart_irqs dev (irqs (places s)) (s\<lparr>places := Suc (places s)\<rparr>)"

section \<open>Initialisation\<close>

text \<open>The registration with the interrupt controller gives the controller's state.\<close>

definition altera_avalon_uart_init :: "u32 \<Rightarrow> u32 \<Rightarrow> u32 \<Rightarrow> uart \<times> 'w cpu \<Rightarrow> (uart \<times> 'w cpu) outcome" where
  "altera_avalon_uart_init irq isr sp x =
     (let (s, c) = x;
          s = s\<lparr>ctrl := CONTROL_RTS_MSK OR CONTROL_RRDY_MSK OR CONTROL_DCTS_MSK\<rparr>;
          s = uart_IOWR UART_CONTROL (ctrl s) s
      in seq (alt_ic_isr_register irq isr sp c) (\<lambda>(rc, c). Ret (s, c)))"

section \<open>Write, read and close\<close>

definition EWOULDBLOCK :: int where "EWOULDBLOCK = 11"
definition EIO :: int where "EIO = 5"

text \<open>\<open>do { } while (next == sp->tx_start)\<close>.\<close>

definition wait_space :: "device \<Rightarrow> (nat \<Rightarrow> nat) \<Rightarrow> u32 \<Rightarrow> uart \<Rightarrow> uart outcome" where
  "wait_space dev irqs next =
     loop (\<lambda>s. seq (preempt dev irqs s) (\<lambda>s. Ret (if next = tx_start s then Again s else Break s)))"

definition write_turn ::
    "device \<Rightarrow> (nat \<Rightarrow> nat) \<Rightarrow> bool \<Rightarrow> u32 \<times> u32 \<times> uart \<Rightarrow> (u32 \<times> u32 \<times> uart, u32 \<times> uart) turn outcome" where
  "write_turn dev irqs no_block x =
     (let (count, ptr, s) = x in
      if count = 0 then Ret (Break (count, s))
      else
        let next = (tx_end s + 1) AND ALT_AVALON_UART_BUF_MSK in
        seq (preempt dev irqs s) (\<lambda>s.
        if next = tx_start s \<and> no_block then Ret (Break (count, s\<lparr>uart_errno := EWOULDBLOCK\<rparr>))
        else
          seq (if next = tx_start s
               then seq (preempt dev irqs s) (\<lambda>s.
                    wait_space dev irqs next (enable_irqs (CONTROL_TRDY_MSK OR CONTROL_DCTS_MSK) s))
               else Ret s) (\<lambda>s.
          seq (buf_store (tx_buf s) (tx_end s) (ram s ptr)) (\<lambda>buf.
          seq (preempt dev irqs (s\<lparr>tx_buf := buf\<rparr>)) (\<lambda>s.
          Ret (Again (count - 1, ptr + 1, s\<lparr>tx_end := next\<rparr>)))))))"

definition altera_avalon_uart_write ::
    "device \<Rightarrow> (nat \<Rightarrow> nat) \<Rightarrow> u32 \<Rightarrow> u32 \<Rightarrow> u32 \<Rightarrow> uart \<Rightarrow> (u32 \<times> uart) outcome" where
  "altera_avalon_uart_write dev irqs ptr len flags s =
     seq (loop (write_turn dev irqs (flags AND O_NONBLOCK \<noteq> 0)) (len, ptr, s)) (\<lambda>(count, s).
     seq (preempt dev irqs s) (\<lambda>s.
     Ret (len - count, enable_irqs (CONTROL_TRDY_MSK OR CONTROL_DCTS_MSK) s)))"

text \<open>\<open>while ((count < len) && (sp->rx_start != sp->rx_end))\<close>; the comparison is signed.\<close>

definition read_turn ::
    "device \<Rightarrow> (nat \<Rightarrow> nat) \<Rightarrow> u32 \<Rightarrow> u32 \<times> u32 \<times> uart
       \<Rightarrow> (u32 \<times> u32 \<times> uart, u32 \<times> u32 \<times> uart) turn outcome" where
  "read_turn dev irqs len x =
     (let (count, ptr, s) = x in
      seq (preempt dev irqs s) (\<lambda>s.
      if sint count < sint len \<and> rx_start s \<noteq> rx_end s then
        seq (buf_load (rx_buf s) (rx_start s)) (\<lambda>b.
        let s = s\<lparr>ram := (ram s)(ptr := b)\<rparr>;
            s = s\<lparr>rx_start := (rx_start s + 1) AND ALT_AVALON_UART_BUF_MSK\<rparr>
        in Ret (Again (count + 1, ptr + 1, s)))
      else Ret (Break (count, ptr, s))))"

definition read_round ::
    "device \<Rightarrow> (nat \<Rightarrow> nat) \<Rightarrow> u32 \<Rightarrow> bool \<Rightarrow> u32 \<times> u32 \<times> uart
       \<Rightarrow> (u32 \<times> u32 \<times> uart, u32 \<times> bool \<times> uart) turn outcome" where
  "read_round dev irqs len block x =
     seq (loop (read_turn dev irqs len) x) (\<lambda>(count, ptr, s).
     seq (preempt dev irqs s) (\<lambda>s.
     if count = 0 \<and> rx_start s = rx_end s \<and> \<not> block then
       Ret (Break (count, True, s\<lparr>uart_errno := EWOULDBLOCK\<rparr>))
     else
       seq (if count = 0 \<and> rx_start s = rx_end s
            then seq (preempt dev irqs s) (\<lambda>s. Ret (enable_irqs CONTROL_RRDY_MSK s)) else Ret s) (\<lambda>s.
       Ret (if count = 0 \<and> len \<noteq> 0 then Again (count, ptr, s) else Break (count, False, s)))))"

definition altera_avalon_uart_read ::
    "device \<Rightarrow> (nat \<Rightarrow> nat) \<Rightarrow> u32 \<Rightarrow> u32 \<Rightarrow> u32 \<Rightarrow> uart \<Rightarrow> (int \<times> uart) outcome" where
  "altera_avalon_uart_read dev irqs ptr len flags s =
     seq (loop (read_round dev irqs len (flags AND O_NONBLOCK = 0)) (0, ptr, s)) (\<lambda>(count, read_would_block, s).
     seq (preempt dev irqs s) (\<lambda>s.
     Ret (if read_would_block then - EWOULDBLOCK else sint count, enable_irqs CONTROL_RRDY_MSK s)))"

definition altera_avalon_uart_close ::
    "device \<Rightarrow> (nat \<Rightarrow> nat) \<Rightarrow> u32 \<Rightarrow> uart \<Rightarrow> (int \<times> uart) outcome" where
  "altera_avalon_uart_close dev irqs flags =
     loop (\<lambda>s. seq (preempt dev irqs s) (\<lambda>s.
       Ret (if tx_start s = tx_end s then Break (0, s)
            else if flags AND O_NONBLOCK \<noteq> 0 then Break (- EWOULDBLOCK, s) else Again s)))"

section \<open>Configuration\<close>

definition TIOCMGET :: int where "TIOCMGET = 0x741d"
definition TIOCMSET :: int where "TIOCMSET = 0x741a"

definition altera_avalon_uart_tiocmget :: "uart \<Rightarrow> termios \<Rightarrow> int \<times> termios" where
  "altera_avalon_uart_tiocmget s term = (0, termios s)"

text \<open>\<open>memcmp\<close> compares the fields (the structure's padding is zero); dividing by a speed of zero is \<open>Undef\<close>.\<close>

definition altera_avalon_uart_tiocmset :: "termios \<Rightarrow> uart \<Rightarrow> (int \<times> uart) outcome" where
  "altera_avalon_uart_tiocmset term s =
     (let speed = c_ispeed (termios s);
          s = (if uart_flags s AND ALT_AVALON_UART_FB = 0
               then s\<lparr>termios := (termios s)\<lparr>c_ispeed := c_ispeed term, c_ospeed := c_ispeed term\<rparr>\<rparr> else s)
      in if term \<noteq> termios s
         then Ret (- EIO, s\<lparr>termios := (termios s)\<lparr>c_ispeed := speed, c_ospeed := speed\<rparr>\<rparr>)
         else if c_ispeed (termios s) = 0 then Undef
         else Ret (0, uart_IOWR UART_DIVISOR (uart_freq s div c_ispeed (termios s) - 1) s))"

definition altera_avalon_uart_ioctl :: "int \<Rightarrow> termios \<Rightarrow> uart \<Rightarrow> (int \<times> termios \<times> uart) outcome" where
  "altera_avalon_uart_ioctl req arg s =
     (if req = TIOCMGET then let (rc, arg) = altera_avalon_uart_tiocmget s arg in Ret (rc, arg, s)
      else if req = TIOCMSET then seq (altera_avalon_uart_tiocmset arg s) (\<lambda>(rc, s). Ret (rc, arg, s))
      else Ret (- ENOTTY, arg, s))"

section \<open>The polling driver\<close>

definition small_read_turn ::
    "device \<Rightarrow> u32 \<Rightarrow> bool \<Rightarrow> uart \<Rightarrow> (uart, u32 \<times> uart) turn outcome" where
  "small_read_turn dev ptr block s =
     (let (st, s) = uart_IORD dev UART_STATUS s;
          s = uart_IOWR UART_STATUS 0 s;
          ready = (st AND CONTROL_RRDY_MSK \<noteq> 0);
          s = (if ready then let (v, s) = uart_IORD dev UART_RXDATA s in s\<lparr>ram := (ram s)(ptr := ucast v)\<rparr> else s)
      in if ready \<and> st AND (STATUS_PE_MSK OR STATUS_FE_MSK) = 0 then Ret (Break (1, s))
         else if block then Ret (Again s) else Ret (Break (0, s\<lparr>uart_errno := EWOULDBLOCK\<rparr>)))"

definition small_uart_read :: "device \<Rightarrow> u32 \<Rightarrow> u32 \<Rightarrow> u32 \<Rightarrow> uart \<Rightarrow> (u32 \<times> uart) outcome" where
  "small_uart_read dev ptr len flags = loop (small_read_turn dev ptr (flags AND O_NONBLOCK = 0))"

definition small_write_turn ::
    "device \<Rightarrow> bool \<Rightarrow> u32 \<times> u32 \<times> uart \<Rightarrow> (u32 \<times> u32 \<times> uart, u32 \<times> uart) turn outcome" where
  "small_write_turn dev block x =
     (let (count, ptr, s) = x;
          (st, s) = uart_IORD dev UART_STATUS s;
          (count, ptr, s) = (if st AND STATUS_TRDY_MSK \<noteq> 0
            then (count - 1, ptr + 1, uart_IOWR UART_TXDATA (scast (ram s ptr)) s) else (count, ptr, s))
      in Ret (if block \<and> count \<noteq> 0 then Again (count, ptr, s) else Break (count, s)))"

definition small_uart_write :: "device \<Rightarrow> u32 \<Rightarrow> u32 \<Rightarrow> u32 \<Rightarrow> uart \<Rightarrow> (u32 \<times> uart) outcome" where
  "small_uart_write dev ptr len flags s =
     seq (loop (small_write_turn dev (flags AND O_NONBLOCK = 0)) (len, ptr, s)) (\<lambda>(count, s).
     Ret (len - count, if count \<noteq> 0 then s\<lparr>uart_errno := EWOULDBLOCK\<rparr> else s))"

section \<open>Registration as a file\<close>

definition altera_avalon_uart_read_fd :: "device \<Rightarrow> (nat \<Rightarrow> nat) \<Rightarrow> u32 \<Rightarrow> u32 \<Rightarrow> uart fd_op" where
  "altera_avalon_uart_read_fd dev irqs buffer space fd s =
     seq (altera_avalon_uart_read dev irqs buffer space (fd_flags fd) s) (\<lambda>(rc, s). Ret (rc, fd, s))"

definition altera_avalon_uart_write_fd :: "device \<Rightarrow> (nat \<Rightarrow> nat) \<Rightarrow> u32 \<Rightarrow> u32 \<Rightarrow> uart fd_op" where
  "altera_avalon_uart_write_fd dev irqs buffer space fd s =
     seq (altera_avalon_uart_write dev irqs buffer space (fd_flags fd) s) (\<lambda>(n, s). Ret (sint n, fd, s))"

definition altera_avalon_uart_close_fd :: "device \<Rightarrow> (nat \<Rightarrow> nat) \<Rightarrow> uart fd_op" where
  "altera_avalon_uart_close_fd dev irqs fd s =
     seq (altera_avalon_uart_close dev irqs (fd_flags fd) s) (\<lambda>(rc, s). Ret (rc, fd, s))"

text \<open>\<open>ALTERA_AVALON_UART_USE_IOCTL\<close> is not set, so the device registers no \<open>ioctl\<close>.\<close>

definition ALTERA_AVALON_UART_DEV_INSTANCE :: "device \<Rightarrow> (nat \<Rightarrow> nat) \<Rightarrow> string \<Rightarrow> uart alt_dev" where
  "ALTERA_AVALON_UART_DEV_INSTANCE dev irqs name =
     \<lparr>dev_name = Some name, dev_open = None, dev_close = Some (altera_avalon_uart_close_fd dev irqs),
      dev_read = Some (altera_avalon_uart_read_fd dev irqs),
      dev_write = Some (altera_avalon_uart_write_fd dev irqs),
      dev_lseek = None, dev_fstat = None, dev_ioctl = None\<rparr>"

end
