(* ===== verification/Uart_Results.thy ===== *)
theory Uart_Results
  imports Uart
begin

text \<open>
  What the UART driver does to its queues, whatever the hardware answers and wherever its interrupts
  fall.  \<open>tx_stream\<close> is everything handed to the transmitter so far, then what is queued for it: the
  interrupt handler keeps it, a write extends it.
\<close>

section \<open>Queues and the transmitted stream\<close>

definition uart_ok :: "uart \<Rightarrow> bool" where
  "uart_ok s =
     (unat (rx_start s) < 64 \<and> unat (rx_end s) < 64 \<and> unat (tx_start s) < 64 \<and> unat (tx_end s) < 64
      \<and> length (rx_buf s) = 64 \<and> length (tx_buf s) = 64)"

definition rxq :: "uart \<Rightarrow> u8 list" where
  "rxq s = ring (rx_buf s) (unat (rx_start s)) (unat (rx_end s))"

definition txq :: "uart \<Rightarrow> u8 list" where
  "txq s = ring (tx_buf s) (unat (tx_start s)) (unat (tx_end s))"

definition sent :: "uart \<Rightarrow> u32 list" where
  "sent s = map snd (filter (\<lambda>w. fst w = UART_TXDATA) (bus_writes (uart_base s) (uart_io s)))"

definition tx_stream :: "uart \<Rightarrow> u32 list" where
  "tx_stream s = sent s @ map ucast (txq s)"

text \<open>What an interrupt leaves alone.\<close>

definition tx_kept :: "uart \<Rightarrow> uart \<Rightarrow> bool" where
  "tx_kept s s' =
     (uart_ok s' \<and> uart_base s' = uart_base s \<and> ram s' = ram s \<and> uart_errno s' = uart_errno s
      \<and> tx_buf s' = tx_buf s \<and> tx_end s' = tx_end s \<and> tx_stream s' = tx_stream s
      \<and> length (txq s') \<le> length (txq s))"

lemma tx_kept_refl: "uart_ok s \<Longrightarrow> tx_kept s s"
  by (simp add: tx_kept_def)

lemma tx_kept_trans: "tx_kept s s' \<Longrightarrow> tx_kept s' s'' \<Longrightarrow> tx_kept s s''"
  by (simp add: tx_kept_def)

lemma BUF_MSK: "ALT_AVALON_UART_BUF_MSK = 63"
  by (simp add: ALT_AVALON_UART_BUF_MSK_def ALT_AVALON_UART_BUF_LEN_def)

lemma uart_IOWR_fields [simp]:
  "uart_base (uart_IOWR r v s) = uart_base s" "ctrl (uart_IOWR r v s) = ctrl s"
  "rx_start (uart_IOWR r v s) = rx_start s" "rx_end (uart_IOWR r v s) = rx_end s"
  "tx_start (uart_IOWR r v s) = tx_start s" "tx_end (uart_IOWR r v s) = tx_end s"
  "uart_flags (uart_IOWR r v s) = uart_flags s" "rx_buf (uart_IOWR r v s) = rx_buf s"
  "tx_buf (uart_IOWR r v s) = tx_buf s" "uart_errno (uart_IOWR r v s) = uart_errno s"
  "ram (uart_IOWR r v s) = ram s" "places (uart_IOWR r v s) = places s"
  by (simp_all add: uart_IOWR_def)

lemma uart_IORD_state: "uart_IORD dev r s = (fst (uart_IORD dev r s), s\<lparr>uart_io := uart_io (snd (uart_IORD dev r s))\<rparr>)"
  by (simp add: uart_IORD_def split_beta)

lemma sent_IOWR [simp]:
  "r < 8 \<Longrightarrow> sent (uart_IOWR r v s) = sent s @ (if r = UART_TXDATA then [v] else [])"
  by (simp add: sent_def uart_IOWR_def)

lemma sent_IORD [simp]:
  "sent (s\<lparr>uart_io := uart_io (snd (uart_IORD dev r s))\<rparr>) = sent s"
  by (simp add: sent_def uart_IORD_def split_beta)

lemma sent_cong: "uart_base s' = uart_base s \<Longrightarrow> uart_io s' = uart_io s \<Longrightarrow> sent s' = sent s"
  by (simp add: sent_def)

lemma sent_more [simp]:
  "sent (s\<lparr>ctrl := c\<rparr>) = sent s" "sent (s\<lparr>rx_buf := b\<rparr>) = sent s" "sent (s\<lparr>rx_end := e\<rparr>) = sent s"
  "sent (s\<lparr>rx_start := e\<rparr>) = sent s" "sent (s\<lparr>tx_start := e\<rparr>) = sent s" "sent (s\<lparr>tx_end := e\<rparr>) = sent s"
  "sent (s\<lparr>tx_buf := b\<rparr>) = sent s" "sent (s\<lparr>places := n\<rparr>) = sent s" "sent (s\<lparr>uart_errno := x\<rparr>) = sent s"
  "sent (s\<lparr>ram := m\<rparr>) = sent s"
  by (simp_all add: sent_def)

lemmas uart_masks = STATUS_PE_MSK_def STATUS_FE_MSK_def STATUS_TRDY_MSK_def STATUS_RRDY_MSK_def
  STATUS_DCTS_MSK_def STATUS_CTS_MSK_def CONTROL_TRDY_MSK_def CONTROL_RRDY_MSK_def CONTROL_DCTS_MSK_def
  CONTROL_RTS_MSK_def

section \<open>The interrupt handler\<close>

lemma transmit_kept:
  assumes "uart_ok s" and "tx_start s \<noteq> tx_end s"
  shows "yields (uart_transmit dev st s) (tx_kept s)"
proof -
  let ?b = "tx_buf s ! unat (tx_start s)"
  have idx: "unat (tx_start s) < 64" "unat (tx_end s) < 64" "length (tx_buf s) = 64"
    using assms(1) by (simp_all add: uart_ok_def)
  have ne: "unat (tx_start s) \<noteq> unat (tx_end s)" using assms(2) by (simp add: word_unat_eq_iff)
  have pop: "txq s = ?b # ring (tx_buf s) (unat ((tx_start s + 1) AND 63)) (unat (tx_end s))"
    unfolding txq_def unat_ring_succ [OF idx(1)] by (rule ring.pop [OF idx(1,2) ne])
  show ?thesis
  proof (cases "uart_flags s AND ALT_AVALON_UART_FC = 0 \<or> st AND STATUS_CTS_MSK \<noteq> 0")
    case True
    have "tx_kept s (uart_IOWR UART_TXDATA (ucast ?b) s
        \<lparr>tx_start := (tx_start s + 1) AND 63, ctrl := ctrl s OR CONTROL_TRDY_MSK\<rparr>)"
      using assms(1) ring.succ_less [OF idx(1)] pop
      by (simp add: tx_kept_def uart_ok_def tx_stream_def uart_regs unat_ring_succ txq_def)
    then show ?thesis
      using True idx unfolding uart_transmit_def if_P [OF True] buf_load_def
      by (simp add: Let_def BUF_MSK)
  next
    case False
    have "tx_kept s (s\<lparr>uart_io := uart_io (snd (uart_IORD dev UART_STATUS s)), ctrl := c\<rparr>)" for c
      using assms(1) by (simp add: tx_kept_def uart_ok_def tx_stream_def txq_def)
    moreover have "tx_kept s (s\<lparr>uart_io := uart_io (snd (uart_IORD dev UART_STATUS s))\<rparr>)"
      using assms(1) by (simp add: tx_kept_def uart_ok_def tx_stream_def txq_def)
    ultimately show ?thesis
      unfolding uart_transmit_def if_not_P [OF False]
      by (subst uart_IORD_state) (simp add: Let_def)
  qed
qed

lemma tx_kept_control:
  "tx_kept s t \<Longrightarrow> r < 8 \<Longrightarrow> r \<noteq> UART_TXDATA \<Longrightarrow> tx_kept s (uart_IOWR r v (t\<lparr>ctrl := c\<rparr>))"
  "tx_kept s t \<Longrightarrow> r < 8 \<Longrightarrow> r \<noteq> UART_TXDATA \<Longrightarrow> tx_kept s (uart_IOWR r v t)"
  "tx_kept s t \<Longrightarrow> tx_kept s (t\<lparr>uart_io := uart_io (snd (uart_IORD dev r t))\<rparr>)"
  "tx_kept s t \<Longrightarrow> tx_kept s (t\<lparr>places := n\<rparr>)"
  by (auto simp: tx_kept_def uart_ok_def tx_stream_def txq_def)

lemma txirq_kept: "uart_ok s \<Longrightarrow> yields (altera_avalon_uart_txirq dev st s) (tx_kept s)"
  unfolding altera_avalon_uart_txirq_def
  by (rule yields_seq [where R = "tx_kept s"])
    (auto simp: Let_def uart_regs tx_kept_refl intro: transmit_kept tx_kept_control)

text \<open>Receiving stores the byte at the end of the queue, without looking whether it is full.\<close>

definition received :: "u8 list \<Rightarrow> u8 \<Rightarrow> u8 list" where
  "received q b = (if length q = 63 then [] else q @ [b])"

lemma rxirq_queue:
  assumes "uart_ok s"
  shows "yields (altera_avalon_uart_rxirq dev st s) (\<lambda>s'. tx_kept s s' \<and>
    (if st AND (STATUS_PE_MSK OR STATUS_FE_MSK) \<noteq> 0 then s' = s
     else rxq s' = received (rxq s) (ucast (fst (uart_IORD dev UART_RXDATA s)))
       \<and> rx_start s' = rx_start s))"
proof (cases "st AND (STATUS_PE_MSK OR STATUS_FE_MSK) = 0")
  case False
  then show ?thesis using assms by (simp add: altera_avalon_uart_rxirq_def tx_kept_refl)
next
  case True
  let ?v = "fst (uart_IORD dev UART_RXDATA s)" and ?s = "snd (uart_IORD dev UART_RXDATA s)"
  have idx: "unat (rx_start s) < 64" "unat (rx_end s) < 64" "length (rx_buf s) = 64"
    using assms by (simp_all add: uart_ok_def)
  have push: "ring ((rx_buf s)[unat (rx_end s) := b]) (unat (rx_start s)) (unat ((rx_end s + 1) AND 63))
      = received (rxq s) b" for b
    unfolding unat_ring_succ [OF idx(2)] received_def rxq_def ring.push_any [OF idx] by simp
  define t where "t = s\<lparr>uart_io := uart_io ?s, rx_buf := (rx_buf s)[unat (rx_end s) := ucast ?v],
      rx_end := (rx_end s + 1) AND 63\<rparr>"
  have t: "tx_kept s t"
    using assms ring.succ_less [OF idx(2)]
    by (simp add: t_def tx_kept_def uart_ok_def tx_stream_def txq_def unat_ring_succ)
  have q: "rxq t = received (rxq s) (ucast ?v)" "rx_start t = rx_start s"
    using push by (simp_all add: t_def rxq_def)
  have "altera_avalon_uart_rxirq dev st s = Ret (if (rx_end t + 1) AND 63 = rx_start t
      then uart_IOWR UART_CONTROL (ctrl t AND NOT CONTROL_RRDY_MSK) (t\<lparr>ctrl := ctrl t AND NOT CONTROL_RRDY_MSK\<rparr>)
      else t)"
    unfolding altera_avalon_uart_rxirq_def BUF_MSK
    by (subst uart_IORD_state) (simp add: True Let_def buf_store_def idx t_def)
  then show ?thesis
    using t q True tx_kept_control(1) [OF t, of UART_CONTROL]
    by (simp add: uart_regs rxq_def)
qed

lemma tx_kept_seq:
  "yields m (tx_kept s) \<Longrightarrow> (\<And>t. uart_ok t \<Longrightarrow> yields (f t) (tx_kept t)) \<Longrightarrow> yields (seq m f) (tx_kept s)"
proof (erule yields_seq)
  fix t assume step: "\<And>t. uart_ok t \<Longrightarrow> yields (f t) (tx_kept t)" and t: "tx_kept s t"
  then have "yields (f t) (tx_kept t)" by (simp add: tx_kept_def)
  then show "yields (f t) (tx_kept s)" by (rule yields_mono) (rule tx_kept_trans [OF t])
qed

text \<open>The status the handler acts on, and what it does to the receive queue.\<close>

definition irq_status :: "device \<Rightarrow> uart \<Rightarrow> u32" where
  "irq_status dev s = fst (uart_IORD dev UART_STATUS s)"

definition irq_acknowledged :: "device \<Rightarrow> uart \<Rightarrow> uart" where
  "irq_acknowledged dev s =
     snd (uart_IORD dev UART_STATUS (uart_IOWR UART_STATUS 0 (snd (uart_IORD dev UART_STATUS s))))"

lemma irq_acknowledged_kept:
  assumes "uart_ok s"
  shows "tx_kept s (irq_acknowledged dev s)" "rxq (irq_acknowledged dev s) = rxq s"
    "rx_start (irq_acknowledged dev s) = rx_start s"
proof -
  let ?t = "uart_IOWR UART_STATUS 0 (s\<lparr>uart_io := uart_io (snd (uart_IORD dev UART_STATUS s))\<rparr>)"
  have ack: "irq_acknowledged dev s = ?t\<lparr>uart_io := uart_io (snd (uart_IORD dev UART_STATUS ?t))\<rparr>"
    unfolding irq_acknowledged_def
    by (subst uart_IORD_state [of dev UART_STATUS s], subst uart_IORD_state) simp
  have "tx_kept s ?t"
    by (rule tx_kept_control(2) [OF tx_kept_control(3) [OF tx_kept_refl [OF assms]]]) (simp_all add: uart_regs)
  then show "tx_kept s (irq_acknowledged dev s)"
    unfolding ack by (rule tx_kept_control(3))
qed (simp_all add: irq_acknowledged_def rxq_def uart_IORD_def split_beta)

lemma irq_unfold:
  "altera_avalon_uart_irq dev s =
     seq (if irq_status dev s AND STATUS_RRDY_MSK \<noteq> 0
          then altera_avalon_uart_rxirq dev (irq_status dev s) (irq_acknowledged dev s)
          else Ret (irq_acknowledged dev s)) (\<lambda>s'.
     if irq_status dev s AND (STATUS_TRDY_MSK OR STATUS_DCTS_MSK) \<noteq> 0
     then altera_avalon_uart_txirq dev (irq_status dev s) s' else Ret s')"
  by (simp add: altera_avalon_uart_irq_def irq_status_def irq_acknowledged_def Let_def split_beta)

lemma irq_kept: "uart_ok s \<Longrightarrow> yields (altera_avalon_uart_irq dev s) (tx_kept s)"
proof -
  assume ok: "uart_ok s"
  note ack = irq_acknowledged_kept [OF ok, of dev]
  then have ok': "uart_ok (irq_acknowledged dev s)" by (simp add: tx_kept_def)
  have rx: "yields (altera_avalon_uart_rxirq dev st (irq_acknowledged dev s)) (tx_kept s)" for st
    using rxirq_queue [OF ok'] by (rule yields_mono) (auto intro: tx_kept_trans [OF ack(1)])
  show ?thesis
    unfolding irq_unfold by (rule tx_kept_seq) (auto simp: rx ack txirq_kept tx_kept_refl)
qed

lemma preempt_kept: "uart_ok s \<Longrightarrow> yields (preempt dev irqs s) (tx_kept s)"
proof -
  have irqs: "uart_ok s \<Longrightarrow> yields (uart_irqs dev n s) (tx_kept s)" for n s
  proof (induction n arbitrary: s)
    case (Suc n)
    then show ?case by (auto intro: tx_kept_seq irq_kept)
  qed (simp add: tx_kept_refl)
  assume ok: "uart_ok s"
  then have "uart_ok (s\<lparr>places := Suc (places s)\<rparr>)" by (simp add: uart_ok_def)
  from irqs [OF this] show ?thesis
    unfolding preempt_def
    by (rule yields_mono)
      (use tx_kept_control(4) [OF tx_kept_refl [OF ok]] in \<open>blast intro: tx_kept_trans\<close>)
qed

section \<open>Writing\<close>

definition space :: "u32 \<Rightarrow> uart \<Rightarrow> bool" where
  "space next s = (uart_ok s \<and> next = (tx_end s + 1) AND 63 \<and> next \<noteq> tx_start s)"

lemma space_length: "uart_ok s \<Longrightarrow> (tx_end s + 1) AND 63 \<noteq> tx_start s \<longleftrightarrow> length (txq s) < 63"
proof -
  assume ok: "uart_ok s"
  then have idx: "unat (tx_start s) < 64" "unat (tx_end s) < 64" by (simp_all add: uart_ok_def)
  have "(tx_end s + 1) AND 63 = tx_start s \<longleftrightarrow> ring_succ (unat (tx_end s)) = unat (tx_start s)"
    by (simp add: word_unat_eq_iff unat_ring_succ [OF idx(2)])
  also have "\<dots> \<longleftrightarrow> length (txq s) = 63"
    unfolding txq_def using ring.full [OF idx, of "tx_buf s"] by simp
  finally show ?thesis
    using ring.bound [OF idx, of "tx_buf s"] by (auto simp: txq_def)
qed

lemma tx_kept_space: "tx_kept s s' \<Longrightarrow> space next s \<Longrightarrow> space next s'"
  using space_length [of s] space_length [of s'] by (auto simp: space_def tx_kept_def)

lemma enable_irqs_kept: "tx_kept s t \<Longrightarrow> tx_kept s (enable_irqs bits t)"
  by (simp add: enable_irqs_def Let_def tx_kept_control uart_regs)

lemma wait_space_kept:
  assumes "uart_ok s" and "next = (tx_end s + 1) AND 63"
  shows "post (wait_space dev irqs next s) (\<lambda>t. tx_kept s t \<and> space next t)"
  unfolding wait_space_def
proof (rule loop_post [where I = "tx_kept s"])
  show "tx_kept s s" by (rule tx_kept_refl [OF assms(1)])
next
  fix t assume t: "tx_kept s t"
  then have "yields (preempt dev irqs t) (tx_kept t)" by (simp add: tx_kept_def preempt_kept)
  then have "yields (preempt dev irqs t) (tx_kept s)" by (rule yields_mono) (rule tx_kept_trans [OF t])
  then have "post (preempt dev irqs t) (tx_kept s)" by (simp add: yields_iff)
  then show "post (seq (preempt dev irqs t) (\<lambda>s. Ret (if next = tx_start s then Again s else Break s)))
      (\<lambda>w. case w of Again s' \<Rightarrow> tx_kept s s' | Break r \<Rightarrow> tx_kept s r \<and> space next r)"
    by (rule post_seq) (use assms(2) in \<open>auto simp: space_def tx_kept_def\<close>)
qed

text \<open>The byte stored at the end becomes part of the queue when the end moves over it.\<close>

lemma tx_push:
  assumes "space next s"
  shows "tx_kept s (s\<lparr>tx_buf := (tx_buf s)[unat (tx_end s) := b], tx_buf := tx_buf s\<rparr>)"
    and "uart_ok (s\<lparr>tx_buf := (tx_buf s)[unat (tx_end s) := b]\<rparr>)"
    and "tx_stream (s\<lparr>tx_buf := (tx_buf s)[unat (tx_end s) := b]\<rparr>) = tx_stream s"
    and "space next (s\<lparr>tx_buf := (tx_buf s)[unat (tx_end s) := b]\<rparr>)"
proof -
  have idx: "unat (tx_start s) < 64" "unat (tx_end s) < 64"
    using assms by (simp_all add: space_def uart_ok_def)
  then show "uart_ok (s\<lparr>tx_buf := (tx_buf s)[unat (tx_end s) := b]\<rparr>)"
    and "space next (s\<lparr>tx_buf := (tx_buf s)[unat (tx_end s) := b]\<rparr>)"
    and "tx_stream (s\<lparr>tx_buf := (tx_buf s)[unat (tx_end s) := b]\<rparr>) = tx_stream s"
    using assms ring.free_slot [OF idx, of "tx_buf s"] by (auto simp: space_def uart_ok_def tx_stream_def txq_def)
  show "tx_kept s (s\<lparr>tx_buf := (tx_buf s)[unat (tx_end s) := b], tx_buf := tx_buf s\<rparr>)"
    using assms by (simp add: space_def tx_kept_refl)
qed

lemma tx_advance:
  assumes "space next t" and "tx_buf t ! unat (tx_end t) = b"
  shows "uart_ok (t\<lparr>tx_end := next\<rparr>)" and "tx_stream (t\<lparr>tx_end := next\<rparr>) = tx_stream t @ [ucast b]"
proof -
  have idx: "unat (tx_start t) < 64" "unat (tx_end t) < 64" and len: "length (tx_buf t) = 64"
    and nxt: "next = (tx_end t + 1) AND 63" "next \<noteq> tx_start t"
    using assms(1) by (auto simp: space_def uart_ok_def)
  have succ: "unat next = ring_succ (unat (tx_end t))" by (simp add: nxt unat_ring_succ idx)
  then have "ring_succ (unat (tx_end t)) \<noteq> unat (tx_start t)" using nxt(2) by (metis word_unat_eq_iff)
  then have "ring ((tx_buf t)[unat (tx_end t) := b]) (unat (tx_start t)) (unat next) = txq t @ [b]"
    unfolding succ txq_def by (rule ring.push [OF idx len])
  then show "tx_stream (t\<lparr>tx_end := next\<rparr>) = tx_stream t @ [ucast b]"
    using assms(2) by (auto simp: tx_stream_def txq_def)
  show "uart_ok (t\<lparr>tx_end := next\<rparr>)"
    using assms(1) ring.succ_less [OF idx(2)] succ by (auto simp: space_def uart_ok_def)
qed

definition ram_bytes :: "uart \<Rightarrow> u32 \<Rightarrow> nat \<Rightarrow> u32 list" where
  "ram_bytes s p n = map (\<lambda>k. ucast (ram s (p + of_nat k))) [0..<n]"

lemma ram_bytes_Suc: "ram_bytes s p (Suc n) = ram_bytes s p n @ [ucast (ram s (p + of_nat n))]"
  by (simp add: ram_bytes_def)

text \<open>\<open>written s n s'\<close>: from \<open>s\<close> to \<open>s'\<close> the stream grew by \<open>n\<close> bytes at \<open>p\<close>.\<close>

definition written :: "u32 \<Rightarrow> uart \<Rightarrow> nat \<Rightarrow> uart \<Rightarrow> bool" where
  "written p s n s' = (uart_ok s' \<and> ram s' = ram s \<and> tx_stream s' = tx_stream s @ ram_bytes s p n)"

lemma written_kept: "written p s n t \<Longrightarrow> tx_kept t t' \<Longrightarrow> written p s n t'"
  by (simp add: written_def tx_kept_def)

lemma written_preempt: "written p s n t \<Longrightarrow> yields (preempt dev irqs t) (\<lambda>t'. written p s n t' \<and> tx_kept t t')"
  by (rule yields_mono [OF preempt_kept]) (auto simp: written_def tx_kept_def)

lemma write_turn_written:
  assumes "written p s n t"
  shows "post (write_turn dev irqs nb (count, p + of_nat n, t))
    (\<lambda>w. case w of
       Again x \<Rightarrow> count \<noteq> 0 \<and> fst x = count - 1 \<and> fst (snd x) = p + of_nat (Suc n) \<and> written p s (Suc n) (snd (snd x))
     | Break r \<Rightarrow> fst r = count \<and> (count = 0 \<or> nb) \<and> written p s n (snd r))"
proof (cases "count = 0")
  case True
  then show ?thesis using assms by (simp add: write_turn_def)
next
  case False
  let ?next = "(tx_end t + 1) AND 63"
  have store: "post (seq (buf_store (tx_buf u) (tx_end u) (ram u (p + of_nat n))) (\<lambda>buf.
        seq (preempt dev irqs (u\<lparr>tx_buf := buf\<rparr>)) (\<lambda>s. Ret (Again (count - 1, p + of_nat n + 1, s\<lparr>tx_end := ?next\<rparr>)))))
      (\<lambda>w. case w of
         Again x \<Rightarrow> count \<noteq> 0 \<and> fst x = count - 1 \<and> fst (snd x) = p + of_nat (Suc n) \<and> written p s (Suc n) (snd (snd x))
       | Break r \<Rightarrow> fst r = count \<and> (count = 0 \<or> nb) \<and> written p s n (snd r))"
    if u: "written p s n u" "space ?next u" for u
  proof -
    let ?b = "ram u (p + of_nat n)"
    let ?v = "u\<lparr>tx_buf := (tx_buf u)[unat (tx_end u) := ?b]\<rparr>"
    have end_less: "unat (tx_end u) < length (tx_buf u)" using u(2) by (simp add: space_def uart_ok_def)
    have v: "written p s n ?v" "space ?next ?v"
      using u tx_push [OF u(2), of ?b] by (simp_all add: written_def)
    have b: "?b = ram s (p + of_nat n)" using u(1) by (simp add: written_def)
    have "yields (preempt dev irqs ?v) (\<lambda>x. written p s n x \<and> tx_kept ?v x)" by (rule written_preempt [OF v(1)])
    then have "yields (seq (preempt dev irqs ?v) (\<lambda>s. Ret (Again (count - 1, p + of_nat n + 1, s\<lparr>tx_end := ?next\<rparr>))))
      (\<lambda>w. case w of
         Again x \<Rightarrow> count \<noteq> 0 \<and> fst x = count - 1 \<and> fst (snd x) = p + of_nat (Suc n) \<and> written p s (Suc n) (snd (snd x))
       | Break (r :: u32 \<times> uart) \<Rightarrow> fst r = count \<and> (count = 0 \<or> nb) \<and> written p s n (snd r))"
    proof (rule yields_seq, elim conjE)
      fix x assume x: "written p s n x" "tx_kept ?v x"
      have "space ?next x" by (rule tx_kept_space [OF x(2) v(2)])
      moreover have "tx_buf x ! unat (tx_end x) = ?b"
        using x(2) end_less by (simp add: tx_kept_def)
      ultimately have "written p s (Suc n) (x\<lparr>tx_end := ?next\<rparr>)"
        using tx_advance [of ?next x ?b] x(1) b by (simp add: written_def ram_bytes_Suc)
      then show "yields (Ret (Again (count - 1, p + of_nat n + 1, x\<lparr>tx_end := ?next\<rparr>)))
        (\<lambda>w. case w of
         Again x \<Rightarrow> count \<noteq> 0 \<and> fst x = count - 1 \<and> fst (snd x) = p + of_nat (Suc n) \<and> written p s (Suc n) (snd (snd x))
       | Break (r :: u32 \<times> uart) \<Rightarrow> fst r = count \<and> (count = 0 \<or> nb) \<and> written p s n (snd r))"
        using False by (simp add: algebra_simps)
    qed
    then show ?thesis using end_less by (simp add: buf_store_def yields_iff)
  qed
  have wait: "post (if ?next = tx_start u
        then seq (preempt dev irqs u) (\<lambda>s. wait_space dev irqs ?next (enable_irqs bits s)) else Ret u)
      (\<lambda>v. written p s n v \<and> space ?next v)"
    if u: "written p s n u" "tx_kept t u" for u bits
  proof (cases "?next = tx_start u")
    case True
    have waits: "post (wait_space dev irqs ?next (enable_irqs bits x)) (\<lambda>v. written p s n v \<and> space ?next v)"
      if x: "written p s n x" "tx_kept u x" for x
    proof -
      have k: "tx_kept x (enable_irqs bits x)"
        by (rule enable_irqs_kept [OF tx_kept_refl]) (use x in \<open>simp add: written_def\<close>)
      have "tx_end x = tx_end t" using u(2) x(2) by (simp add: tx_kept_def)
      then have "post (wait_space dev irqs ?next (enable_irqs bits x))
          (\<lambda>v. tx_kept (enable_irqs bits x) v \<and> space ?next v)"
        using k by (intro wait_space_kept) (simp_all add: tx_kept_def)
      then show ?thesis
        by (rule post_mono) (use written_kept [OF x(1)] tx_kept_trans [OF k] in blast)
    qed
    have "post (preempt dev irqs u) (\<lambda>x. written p s n x \<and> tx_kept u x)"
      using written_preempt [OF u(1), of dev irqs] by (simp add: yields_iff)
    then show ?thesis
      unfolding if_P [OF True] by (rule post_seq) (use waits in blast)
  next
    case False
    then show ?thesis using u by (auto simp: space_def tx_kept_def)
  qed
  have "yields (preempt dev irqs t) (\<lambda>u. written p s n u \<and> tx_kept t u)" by (rule written_preempt [OF assms])
  then have pre: "post (preempt dev irqs t) (\<lambda>u. written p s n u \<and> tx_kept t u)" by (simp add: yields_iff)
  show ?thesis
    unfolding write_turn_def Let_def prod.case if_not_P [OF False] BUF_MSK
  proof (rule post_seq [OF pre], elim conjE)
    fix u assume u: "written p s n u" "tx_kept t u"
    show "post (if ?next = tx_start u \<and> nb then Ret (Break (count, u\<lparr>uart_errno := EWOULDBLOCK\<rparr>))
        else seq (if ?next = tx_start u
             then seq (preempt dev irqs u) (\<lambda>s. wait_space dev irqs ?next
                    (enable_irqs (CONTROL_TRDY_MSK OR CONTROL_DCTS_MSK) s)) else Ret u)
          (\<lambda>s. seq (buf_store (tx_buf s) (tx_end s) (ram s (p + of_nat n))) (\<lambda>buf.
            seq (preempt dev irqs (s\<lparr>tx_buf := buf\<rparr>)) (\<lambda>s. Ret (Again (count - 1, p + of_nat n + 1, s\<lparr>tx_end := ?next\<rparr>))))))
      (\<lambda>w. case w of
       Again x \<Rightarrow> count \<noteq> 0 \<and> fst x = count - 1 \<and> fst (snd x) = p + of_nat (Suc n) \<and> written p s (Suc n) (snd (snd x))
     | Break r \<Rightarrow> fst r = count \<and> (count = 0 \<or> nb) \<and> written p s n (snd r))"
    proof (cases "?next = tx_start u \<and> nb")
      case True
      then show ?thesis
        using u(1) by (simp add: written_def uart_ok_def tx_stream_def txq_def)
    next
      case False
      then show ?thesis
        by (simp only: if_False) (rule post_seq [OF wait [OF u]], use store in blast)
    qed
  qed
qed

lemma loop_written:
  "post (loop (write_turn dev irqs nb) (len, p, s))
     (\<lambda>r. \<exists>n \<le> unat len. fst r = len - of_nat n \<and> (fst r = 0 \<or> nb) \<and> written p s n (snd r))"
  if ok: "uart_ok s"
proof (rule loop_post [where I = "\<lambda>x. \<exists>n \<le> unat len. fst x = len - of_nat n \<and> fst (snd x) = p + of_nat n
      \<and> written p s n (snd (snd x))"])
  show "\<exists>n \<le> unat len. fst (len, p, s) = len - of_nat n \<and> fst (snd (len, p, s)) = p + of_nat n
      \<and> written p s n (snd (snd (len, p, s)))"
    using ok by (intro exI [of _ 0]) (simp add: written_def ram_bytes_def)
next
  fix x :: "u32 \<times> u32 \<times> uart"
  assume "\<exists>n \<le> unat len. fst x = len - of_nat n \<and> fst (snd x) = p + of_nat n \<and> written p s n (snd (snd x))"
  then obtain n t where n: "n \<le> unat len" "x = (len - of_nat n, p + of_nat n, t)" "written p s n t"
    by (cases x) auto
  have more: "Suc n \<le> unat len" if "len - of_nat n \<noteq> 0"
  proof -
    have "n \<noteq> unat len" using that by auto
    then show ?thesis using n(1) by simp
  qed
  show "post (write_turn dev irqs nb x)
      (\<lambda>w. case w of
         Again x \<Rightarrow> \<exists>n \<le> unat len. fst x = len - of_nat n \<and> fst (snd x) = p + of_nat n \<and> written p s n (snd (snd x))
       | Break r \<Rightarrow> \<exists>n \<le> unat len. fst r = len - of_nat n \<and> (fst r = 0 \<or> nb) \<and> written p s n (snd r))"
    unfolding n(2)
  proof (rule post_mono [OF write_turn_written [OF n(3)]], split turn.split, intro conjI allI impI)
    fix w :: "(u32 \<times> u32 \<times> uart, u32 \<times> uart) turn" and y
    assume "w = Again y" and "case w of
         Again x \<Rightarrow> len - of_nat n \<noteq> 0 \<and> fst x = len - of_nat n - 1 \<and> fst (snd x) = p + of_nat (Suc n) \<and> written p s (Suc n) (snd (snd x))
       | Break r \<Rightarrow> fst r = len - of_nat n \<and> (len - of_nat n = 0 \<or> nb) \<and> written p s n (snd r)"
    then show "\<exists>n \<le> unat len. fst y = len - of_nat n \<and> fst (snd y) = p + of_nat n \<and> written p s n (snd (snd y))"
      using more by (intro exI [of _ "Suc n"]) (simp add: algebra_simps)
  next
    fix w :: "(u32 \<times> u32 \<times> uart, u32 \<times> uart) turn" and r
    assume "w = Break r" and "case w of
         Again x \<Rightarrow> len - of_nat n \<noteq> 0 \<and> fst x = len - of_nat n - 1 \<and> fst (snd x) = p + of_nat (Suc n) \<and> written p s (Suc n) (snd (snd x))
       | Break r \<Rightarrow> fst r = len - of_nat n \<and> (len - of_nat n = 0 \<or> nb) \<and> written p s n (snd r)"
    then show "\<exists>n \<le> unat len. fst r = len - of_nat n \<and> (fst r = 0 \<or> nb) \<and> written p s n (snd r)"
      using n(1) by (intro exI [of _ n]) simp
  qed
qed

text \<open>A non-blocking write waits for nothing.\<close>

lemma write_turn_returns:
  assumes "uart_ok t"
  shows "write_turn dev irqs True (count, q, t) \<noteq> Hang"
proof -
  have pre: "preempt dev irqs u \<noteq> Hang" if "uart_ok u" for u
    using preempt_kept [OF that] by (auto simp: yields_iff)
  have store: "buf_store (tx_buf u) (tx_end u) b = Ret buf \<Longrightarrow> uart_ok u \<Longrightarrow> uart_ok (u\<lparr>tx_buf := buf\<rparr>)" for u b buf
    by (auto simp: buf_store_def uart_ok_def split: if_splits)
  show ?thesis
  proof (cases "count = 0")
    case True
    then show ?thesis by (simp add: write_turn_def)
  next
    case False
    show ?thesis
      unfolding write_turn_def Let_def prod.case if_not_P [OF False]
    proof (rule seq_not_Hang [OF pre [OF assms]])
      fix u assume "preempt dev irqs t = Ret u"
      then have u: "uart_ok u" using preempt_kept [OF assms, of dev irqs] by (simp add: tx_kept_def)
      have "seq (buf_store (tx_buf u) (tx_end u) b) (\<lambda>buf. seq (preempt dev irqs (u\<lparr>tx_buf := buf\<rparr>)) (\<lambda>s. Ret (f s))) \<noteq> Hang"
        for b and f :: "uart \<Rightarrow> (u32 \<times> u32 \<times> uart, u32 \<times> uart) turn"
      proof (intro seq_not_Hang)
        show "buf_store (tx_buf u) (tx_end u) b \<noteq> Hang" by (simp add: buf_store_def)
        show "preempt dev irqs (u\<lparr>tx_buf := buf\<rparr>) \<noteq> Hang" if "buf_store (tx_buf u) (tx_end u) b = Ret buf" for buf
          by (rule pre [OF store [OF that u]])
      qed simp
      then show "(if (tx_end t + 1) AND ALT_AVALON_UART_BUF_MSK = tx_start u \<and> True
          then Ret (Break (count, u\<lparr>uart_errno := EWOULDBLOCK\<rparr>))
          else seq (if (tx_end t + 1) AND ALT_AVALON_UART_BUF_MSK = tx_start u
                    then seq (preempt dev irqs u) (\<lambda>s. wait_space dev irqs ((tx_end t + 1) AND ALT_AVALON_UART_BUF_MSK)
                      (enable_irqs (CONTROL_TRDY_MSK OR CONTROL_DCTS_MSK) s)) else Ret u)
            (\<lambda>s. seq (buf_store (tx_buf s) (tx_end s) (ram s q)) (\<lambda>buf.
              seq (preempt dev irqs (s\<lparr>tx_buf := buf\<rparr>)) (\<lambda>s.
              Ret (Again (count - 1, q + 1, s\<lparr>tx_end := (tx_end t + 1) AND ALT_AVALON_UART_BUF_MSK\<rparr>)))))) \<noteq> Hang"
        by simp
    qed
  qed
qed

lemma loop_write_returns: "uart_ok s \<Longrightarrow> loop (write_turn dev irqs True) (len, p, s) \<noteq> Hang"
proof (rule loop_terminates [where f = "\<lambda>x. unat (fst x)"
      and I = "\<lambda>x. \<exists>n. fst (snd x) = p + of_nat n \<and> written p s n (snd (snd x))"])
  assume "uart_ok s"
  then show "\<exists>n. fst (snd (len, p, s)) = p + of_nat n \<and> written p s n (snd (snd (len, p, s)))"
    by (intro exI [of _ 0]) (simp add: written_def ram_bytes_def)
next
  fix x y :: "u32 \<times> u32 \<times> uart"
  assume "\<exists>n. fst (snd x) = p + of_nat n \<and> written p s n (snd (snd x))"
  then obtain n t count where x: "x = (count, p + of_nat n, t)" and w: "written p s n t"
    by (cases x) auto
  then show "write_turn dev irqs True x \<noteq> Hang"
    by (simp add: write_turn_returns written_def)
  assume "write_turn dev irqs True x = Ret (Again y)"
  then have y: "count \<noteq> 0" "fst y = count - 1" "fst (snd y) = p + of_nat (Suc n)" "written p s (Suc n) (snd (snd y))"
    using write_turn_written [OF w, of dev irqs True count] by (simp_all add: x)
  then have "unat (fst y) < unat (fst x)"
    by (simp add: x unat_minus_one unat_gt_0)
  with y show "(\<exists>n. fst (snd y) = p + of_nat n \<and> written p s n (snd (snd y))) \<and> unat (fst y) < unat (fst x)"
    by blast
qed

section \<open>The driver as a file\<close>

lemma fd_result_keeps:
  "ensures (seq m (\<lambda>(rc, s). Ret (f rc, fd, s))) (\<lambda>(rc, fd', w'). fd_dev fd' = fd_dev fd)"
  by (cases m) auto

lemma uart_driver_ok: "driver_ok (ALTERA_AVALON_UART_DEV_INSTANCE dev irqs name)"
  by (simp add: driver_ok_def ALTERA_AVALON_UART_DEV_INSTANCE_def keeps_dev_def
      altera_avalon_uart_read_fd_def altera_avalon_uart_write_fd_def altera_avalon_uart_close_fd_def
      fd_result_keeps)

interpretation uart_drivers: drivers "\<lambda>_. ALTERA_AVALON_UART_DEV_INSTANCE dev irqs name"
  by unfold_locales (rule uart_driver_ok)

section \<open>Receiving\<close>

lemma txirq_rx: "post (altera_avalon_uart_txirq dev st s)
    (\<lambda>s'. rx_buf s' = rx_buf s \<and> rx_start s' = rx_start s \<and> rx_end s' = rx_end s)" if "uart_ok s"
proof -
  have "post (if tx_start s \<noteq> tx_end s then uart_transmit dev st s else Ret s)
      (\<lambda>s'. rx_buf s' = rx_buf s \<and> rx_start s' = rx_start s \<and> rx_end s' = rx_end s)"
    using that by (auto simp: uart_transmit_def buf_load_def uart_ok_def Let_def uart_IORD_def split_beta)
  then show ?thesis
    unfolding altera_avalon_uart_txirq_def by (rule post_seq) (simp add: Let_def)
qed

lemma irq_receives:
  assumes "uart_ok s"
  shows "yields (altera_avalon_uart_irq dev s) (\<lambda>s'. rxq s' =
    (if irq_status dev s AND STATUS_RRDY_MSK \<noteq> 0 \<and> irq_status dev s AND (STATUS_PE_MSK OR STATUS_FE_MSK) = 0
     then received (rxq s) (ucast (fst (uart_IORD dev UART_RXDATA (irq_acknowledged dev s)))) else rxq s))"
proof -
  let ?st = "irq_status dev s" and ?a = "irq_acknowledged dev s"
  note ack = irq_acknowledged_kept [OF assms, of dev]
  then have ok: "uart_ok ?a" by (simp add: tx_kept_def)
  have rx: "yields (if ?st AND STATUS_RRDY_MSK \<noteq> 0 then altera_avalon_uart_rxirq dev ?st ?a else Ret ?a)
    (\<lambda>s'. uart_ok s' \<and> rxq s' = (if ?st AND STATUS_RRDY_MSK \<noteq> 0 \<and> ?st AND (STATUS_PE_MSK OR STATUS_FE_MSK) = 0
       then received (rxq s) (ucast (fst (uart_IORD dev UART_RXDATA ?a))) else rxq s))"
    using rxirq_queue [OF ok, of dev ?st] ack
    by (cases "?st AND STATUS_RRDY_MSK = 0") (auto simp: ok tx_kept_def elim!: yields_mono)
  show ?thesis
    unfolding irq_unfold
  proof (rule yields_seq [OF rx], elim conjE)
    fix t assume t: "uart_ok t" and q: "rxq t = (if ?st AND STATUS_RRDY_MSK \<noteq> 0
        \<and> ?st AND (STATUS_PE_MSK OR STATUS_FE_MSK) = 0
       then received (rxq s) (ucast (fst (uart_IORD dev UART_RXDATA ?a))) else rxq s)"
    have "altera_avalon_uart_txirq dev ?st t \<noteq> Hang"
      using txirq_kept [OF t] by (auto simp: yields_iff)
    then have "yields (altera_avalon_uart_txirq dev ?st t) (\<lambda>s'. rxq s' = rxq t)"
      using post_mono [OF txirq_rx [OF t, of dev ?st], of "\<lambda>s'. rxq s' = rxq t"] by (simp add: yields_iff rxq_def)
    then show "yields (if ?st AND (STATUS_TRDY_MSK OR STATUS_DCTS_MSK) \<noteq> 0 then altera_avalon_uart_txirq dev ?st t else Ret t)
      (\<lambda>s'. rxq s' = (if ?st AND STATUS_RRDY_MSK \<noteq> 0 \<and> ?st AND (STATUS_PE_MSK OR STATUS_FE_MSK) = 0
       then received (rxq s) (ucast (fst (uart_IORD dev UART_RXDATA ?a))) else rxq s))"
      using q by simp
  qed
qed

text \<open>A new instance, and the parity it claims: none (\<open>'N'\<close>) sets the parity enable bit.\<close>

lemma instance_ok: "uart_ok (ALTERA_AVALON_UART_STATE_INSTANCE base sb par db cts fb baud fr t m)"
  by (simp add: ALTERA_AVALON_UART_STATE_INSTANCE_def uart_ok_def ALT_AVALON_UART_BUF_LEN_def)

lemma instance_queues:
  "txq (ALTERA_AVALON_UART_STATE_INSTANCE base sb par db cts fb baud fr t m) = []"
  "rxq (ALTERA_AVALON_UART_STATE_INSTANCE base sb par db cts fb baud fr t m) = []"
  by (simp_all add: ALTERA_AVALON_UART_STATE_INSTANCE_def txq_def rxq_def ring_def ring_length_def)

lemma parity_inverted:
  "c_cflag (termios (ALTERA_AVALON_UART_STATE_INSTANCE base sb par 8 cts fb baud fr t m)) AND PARENB \<noteq> 0
     \<longleftrightarrow> par = CHR ''N''"
  by (auto simp: ALTERA_AVALON_UART_STATE_INSTANCE_def ALTERA_AVALON_UART_TERMIOS_def CSTOPB_def
      PARENB_def PAODD_def CS8_def CRTSCTS_def)

section \<open>Properties\<close>

text \<open>Property C25. Wherever its interrupts fall and whatever the hardware answers, a write that returns
  \<open>n\<close> has added exactly the first \<open>n\<close> bytes of the caller's buffer, in order, to the stream of bytes handed
  to the transmitter or queued for it, and returns fewer than asked only in non-blocking mode; it never
  leaves its buffers, and in non-blocking mode it always returns.\<close>

theorem uart_writes_in_order:
  assumes "uart_ok s"
  shows "runs (flags AND O_NONBLOCK \<noteq> 0) (altera_avalon_uart_write dev irqs ptr len flags s)
    (\<lambda>(n, s'). uart_ok s' \<and> tx_stream s' = tx_stream s @ ram_bytes s ptr (unat n) \<and> n \<le> len
      \<and> (n = len \<or> flags AND O_NONBLOCK \<noteq> 0))"
  unfolding altera_avalon_uart_write_def
proof (rule runs_seq)
  let ?nb = "flags AND O_NONBLOCK \<noteq> 0"
  show "runs ?nb (loop (write_turn dev irqs ?nb) (len, ptr, s))
     (\<lambda>r. \<exists>n \<le> unat len. fst r = len - of_nat n \<and> (fst r = 0 \<or> ?nb) \<and> written ptr s n (snd r))"
    using loop_written [OF assms] loop_write_returns [OF assms] by (auto simp: runs_def)
next
  let ?nb = "flags AND O_NONBLOCK \<noteq> 0" and ?bits = "CONTROL_TRDY_MSK OR CONTROL_DCTS_MSK"
  let ?Q = "\<lambda>(n, s'). uart_ok s' \<and> tx_stream s' = tx_stream s @ ram_bytes s ptr (unat n) \<and> n \<le> len \<and> (n = len \<or> ?nb)"
  fix r assume "\<exists>n \<le> unat len. fst r = len - of_nat n \<and> (fst r = 0 \<or> ?nb) \<and> written ptr s n (snd r)"
  then obtain n t where r: "r = (len - of_nat n, t)" and n: "n \<le> unat len" "len = of_nat n \<or> ?nb" "written ptr s n t"
    by (cases r) auto
  have "unat len < 2 ^ LENGTH(32)" by (rule unsigned_less)
  then have idx: "unat (of_nat n :: u32) = n" using n(1) by (simp add: unat_of_nat)
  then have le: "of_nat n \<le> len" using n(1) by (simp add: word_le_nat_alt)
  have "yields (seq (preempt dev irqs t) (\<lambda>s. Ret (of_nat n, enable_irqs ?bits s))) ?Q"
  proof (rule yields_seq [OF written_preempt [OF n(3)]], elim conjE)
    fix u assume u: "written ptr s n u"
    then have "tx_kept u (enable_irqs ?bits u)"
      by (intro enable_irqs_kept tx_kept_refl) (simp add: written_def)
    from written_kept [OF u this] show "yields (Ret (of_nat n, enable_irqs ?bits u)) ?Q"
      using le n(2) idx by (auto simp: written_def)
  qed
  then show "runs ?nb (case r of (count, s) \<Rightarrow> seq (preempt dev irqs s) (\<lambda>s. Ret (len - count, enable_irqs ?bits s))) ?Q"
    by (simp add: r yields_runs)
qed

definition idle_uart :: uart where
  "idle_uart = ALTERA_AVALON_UART_STATE_INSTANCE 0x12000 1 CHR ''N'' 8 False True 115200 100000000 []
     (\<lambda>a. ucast a)"

theorem uart_writes_in_order_witness:
  "runs False (altera_avalon_uart_write (\<lambda>t a. STATUS_TRDY_MSK) (\<lambda>i. i) 0x41 3 0 idle_uart)
     (\<lambda>(n, s'). n = 3 \<and> tx_stream s' = [0x41, 0x42, 0x43])"
proof -
  have bytes: "tx_stream idle_uart = []" "ram_bytes idle_uart 0x41 3 = [0x41, 0x42, 0x43]"
    by (simp_all add: idle_uart_def tx_stream_def instance_queues)
      (simp_all add: ALTERA_AVALON_UART_STATE_INSTANCE_def sent_def ram_bytes_def upt_rec)
  have "uart_ok idle_uart" by (simp add: idle_uart_def instance_ok)
  from uart_writes_in_order [OF this, of 0]
  have "runs False (altera_avalon_uart_write dev irqs 0x41 3 0 idle_uart)
      (\<lambda>(n, s'). uart_ok s' \<and> tx_stream s' = ram_bytes idle_uart 0x41 (unat n) \<and> n \<le> 3 \<and> n = 3)" for dev irqs
    by (simp add: bytes(1))
  then show ?thesis by (rule runs_mono) (auto simp: bytes)
qed

text \<open>Property C26. The interrupt handler appends a byte received without error to the receive queue, and
  leaves the queue alone otherwise; but it does not look whether the queue is full.  Receive interrupts
  are disabled then, yet the handler still runs for the transmitter: with 63 bytes queued and another in
  the receiver, it throws the whole queue away.\<close>

theorem uart_receive_overrun:
  assumes "uart_ok s"
  shows "yields (altera_avalon_uart_irq dev s) (\<lambda>s'. tx_stream s' = tx_stream s \<and> rxq s' =
    (if irq_status dev s AND STATUS_RRDY_MSK = 0 \<or> irq_status dev s AND (STATUS_PE_MSK OR STATUS_FE_MSK) \<noteq> 0
     then rxq s
     else if length (rxq s) = 63 then []
     else rxq s @ [ucast (fst (uart_IORD dev UART_RXDATA (irq_acknowledged dev s)))]))"
  using irq_kept [OF assms, of dev] irq_receives [OF assms, of dev]
  by (auto simp: yields_Ret tx_kept_def received_def)

definition full_uart :: uart where
  "full_uart = idle_uart\<lparr>rx_end := 63\<rparr>"

theorem uart_receive_overrun_witness:
  "length (rxq full_uart) = 63 \<and> yields (altera_avalon_uart_irq (\<lambda>t a. STATUS_RRDY_MSK OR STATUS_TRDY_MSK) full_uart)
     (\<lambda>s'. rxq s' = [])"
proof
  have ok: "uart_ok full_uart"
    using instance_ok by (simp add: full_uart_def idle_uart_def uart_ok_def)
  show len: "length (rxq full_uart) = 63"
    by (simp add: full_uart_def idle_uart_def ALTERA_AVALON_UART_STATE_INSTANCE_def rxq_def ring_def ring_length_def)
  have "irq_status (\<lambda>t a. STATUS_RRDY_MSK OR STATUS_TRDY_MSK) full_uart = 0xC0"
    by (simp add: irq_status_def uart_IORD_def IORD_def uart_masks)
  then show "yields (altera_avalon_uart_irq (\<lambda>t a. STATUS_RRDY_MSK OR STATUS_TRDY_MSK) full_uart) (\<lambda>s'. rxq s' = [])"
    using uart_receive_overrun [OF ok, of "\<lambda>t a. STATUS_RRDY_MSK OR STATUS_TRDY_MSK"] len
    by (auto simp: uart_masks elim!: yields_mono)
qed

end
