(* ===== verification/Direct.thy ===== *)
theory Direct
  imports Uart_Results Printing
begin

text \<open>
  The system calls in a build with direct drivers (\<open>ALT_USE_DIRECT_DRIVERS\<close>, \<open>alt_driver.h\<close>): there are no descriptors, only the
  three standard ones, and each goes to the functions of a driver that is known when the program is compiled.  Such a driver is a
  \<open>driver_module\<close>; a channel that is not present is \<open>None\<close>.  \<open>std_module\<close> is the contract that relates a module to the device it is
  registered as in the usual build, and the UART fulfils it.
\<close>

section \<open>Drivers\<close>

record 'w driver_module =
  module_read :: "u32 \<Rightarrow> u32 \<Rightarrow> u32 \<Rightarrow> 'w \<Rightarrow> (int \<times> 'w) outcome"
  module_write :: "u32 \<Rightarrow> u32 \<Rightarrow> u32 \<Rightarrow> 'w \<Rightarrow> (int \<times> 'w) outcome"
  module_ioctl :: "int \<Rightarrow> u32 \<Rightarrow> 'w \<Rightarrow> (int \<times> 'w) outcome"

record 'w channels =
  ALT_STDIN_DEV :: "'w driver_module option"
  ALT_STDOUT_DEV :: "'w driver_module option"
  ALT_STDERR_DEV :: "'w driver_module option"

record 'w direct =
  direct_errno :: int
  module_state :: 'w

definition on_module :: "('w \<Rightarrow> (int \<times> 'w) outcome) \<Rightarrow> 'w direct \<Rightarrow> (int \<times> 'w direct) outcome" where
  "on_module f s = seq (f (module_state s)) (\<lambda>(rc, w). Ret (rc, s\<lparr>module_state := w\<rparr>))"

definition ALT_DRIVER_WRITE :: "'w driver_module \<Rightarrow> u32 \<Rightarrow> u32 \<Rightarrow> u32 \<Rightarrow> 'w direct \<Rightarrow> (int \<times> 'w direct) outcome" where
  "ALT_DRIVER_WRITE m buffer len flags = on_module (module_write m buffer len flags)"

definition ALT_DRIVER_READ :: "'w driver_module \<Rightarrow> u32 \<Rightarrow> u32 \<Rightarrow> u32 \<Rightarrow> 'w direct \<Rightarrow> (int \<times> 'w direct) outcome" where
  "ALT_DRIVER_READ m buffer len flags = on_module (module_read m buffer len flags)"

definition ALT_DRIVER_IOCTL :: "'w driver_module \<Rightarrow> int \<Rightarrow> u32 \<Rightarrow> 'w direct \<Rightarrow> (int \<times> 'w direct) outcome" where
  "ALT_DRIVER_IOCTL m req arg = on_module (module_ioctl m req arg)"

section \<open>System calls\<close>

definition direct_fail :: "int \<Rightarrow> 'w direct \<Rightarrow> (int \<times> 'w direct) outcome" where
  "direct_fail e s = Ret (- 1, s\<lparr>direct_errno := e\<rparr>)"

text \<open>\<open>open\<close>, \<open>close\<close> and \<open>lseek\<close> always fail.\<close>

definition direct_open :: "string \<Rightarrow> u32 \<Rightarrow> u32 \<Rightarrow> 'w direct \<Rightarrow> (int \<times> 'w direct) outcome" where
  "direct_open file flags mode = direct_fail ENOSYS"

definition direct_close :: "int \<Rightarrow> 'w direct \<Rightarrow> (int \<times> 'w direct) outcome" where
  "direct_close fildes = direct_fail ENOSYS"

definition direct_lseek :: "int \<Rightarrow> int \<Rightarrow> int \<Rightarrow> 'w direct \<Rightarrow> (int \<times> 'w direct) outcome" where
  "direct_lseek file ptr dir = direct_fail ENOSYS"

definition direct_write :: "'w channels \<Rightarrow> int \<Rightarrow> u32 \<Rightarrow> u32 \<Rightarrow> 'w direct \<Rightarrow> (int \<times> 'w direct) outcome" where
  "direct_write io file ptr len s =
     (case (if file = 1 then ALT_STDOUT_DEV io else if file = 2 then ALT_STDERR_DEV io else None) of
        Some m \<Rightarrow> ALT_DRIVER_WRITE m ptr len 0 s
      | None \<Rightarrow> direct_fail EBADFD s)"

definition direct_read :: "'w channels \<Rightarrow> int \<Rightarrow> u32 \<Rightarrow> u32 \<Rightarrow> 'w direct \<Rightarrow> (int \<times> 'w direct) outcome" where
  "direct_read io file ptr len s =
     (case (if file = 0 then ALT_STDIN_DEV io else None) of
        Some m \<Rightarrow> ALT_DRIVER_READ m ptr len 0 s
      | None \<Rightarrow> direct_fail EBADFD s)"

text \<open>The channel of a descriptor, if it is present.\<close>

definition channel :: "'w channels \<Rightarrow> int \<Rightarrow> 'w driver_module option" where
  "channel io file =
     (if file = 0 then ALT_STDIN_DEV io else if file = 1 then ALT_STDOUT_DEV io
      else if file = 2 then ALT_STDERR_DEV io else None)"

definition direct_ioctl :: "'w channels \<Rightarrow> int \<Rightarrow> int \<Rightarrow> u32 \<Rightarrow> 'w direct \<Rightarrow> (int \<times> 'w direct) outcome" where
  "direct_ioctl io file req arg s =
     (case channel io file of Some m \<Rightarrow> ALT_DRIVER_IOCTL m req arg s | None \<Rightarrow> direct_fail EBADFD s)"

definition direct_fstat :: "'w channels \<Rightarrow> int \<Rightarrow> u32 \<Rightarrow> int \<times> u32" where
  "direct_fstat io file st = (case channel io file of Some m \<Rightarrow> (0, IFCHR) | None \<Rightarrow> (- 1, st))"

definition direct_isatty :: "'w channels \<Rightarrow> int \<Rightarrow> int" where
  "direct_isatty io file = (case channel io file of Some m \<Rightarrow> 1 | None \<Rightarrow> 0)"

section \<open>Characters\<close>

text \<open>\<open>c1\<close> and \<open>c\<close> are the addresses of locals; \<open>put_char\<close> and \<open>get_char\<close> access the memory in the state of the drivers.\<close>

definition alt_putchar_direct ::
    "(u32 \<Rightarrow> char \<Rightarrow> 'w \<Rightarrow> 'w) \<Rightarrow> u32 \<Rightarrow> 'w driver_module \<Rightarrow> u32 \<Rightarrow> 'w direct \<Rightarrow> (u32 \<times> 'w direct) outcome" where
  "alt_putchar_direct put_char c1 m c s =
     seq (ALT_DRIVER_WRITE m c1 1 0 (s\<lparr>module_state := put_char c1 (to_char c) (module_state s)\<rparr>)) (\<lambda>(rc, s).
     Ret (if rc = - 1 then - 1 else c, s))"

definition alt_putstr_direct ::
    "'w driver_module \<Rightarrow> u32 \<Rightarrow> string \<Rightarrow> 'w direct \<Rightarrow> (int \<times> 'w direct) outcome" where
  "alt_putstr_direct m str out s = ALT_DRIVER_WRITE m str (word_of_nat (length out)) 0 s"

definition alt_getchar_direct ::
    "(u32 \<Rightarrow> 'w \<Rightarrow> char) \<Rightarrow> u32 \<Rightarrow> 'w driver_module \<Rightarrow> u32 \<Rightarrow> 'w direct \<Rightarrow> (int \<times> 'w direct) outcome" where
  "alt_getchar_direct get_char c m flags s =
     seq (ALT_DRIVER_READ m c 1 flags s) (\<lambda>(rc, s).
     Ret (if rc \<le> 0 then - 1 else sint (of_char (get_char c (module_state s)) :: 8 word), s))"

section \<open>Modules and devices\<close>

text \<open>
  The device \<open>dv\<close> registers the functions of the module \<open>m\<close>, each with the flags of the descriptor; and these look at no flag
  but \<open>O_NONBLOCK\<close>.
\<close>

definition as_fd :: "(u32 \<Rightarrow> 'w \<Rightarrow> (int \<times> 'w) outcome) \<Rightarrow> 'w fd_op" where
  "as_fd f fd w = seq (f (fd_flags fd) w) (\<lambda>(rc, w). Ret (rc, fd, w))"

locale std_module =
  fixes m :: "'w driver_module" and dv :: "'w alt_dev"
  assumes read_fd: "dev_read dv = Some (\<lambda>ptr len. as_fd (module_read m ptr len))"
    and write_fd: "dev_write dv = Some (\<lambda>ptr len. as_fd (module_write m ptr len))"
    and blocking: "fl AND O_NONBLOCK = 0 \<Longrightarrow> module_read m ptr len fl = module_read m ptr len 0"
      "fl AND O_NONBLOCK = 0 \<Longrightarrow> module_write m ptr len fl = module_write m ptr len 0"

text \<open>What the usual call makes of a result: a negative one becomes \<open>-1\<close>, and \<open>errno\<close> its negation.\<close>

definition posix :: "'w files \<Rightarrow> (int \<times> 'w direct) outcome \<Rightarrow> (int \<times> 'w files) outcome" where
  "posix s r = seq r (\<lambda>(rc, t). report (rc, s\<lparr>errno := direct_errno t, world := module_state t\<rparr>))"

definition direct_of :: "'w files \<Rightarrow> 'w direct" where
  "direct_of s = \<lparr>direct_errno = errno s, module_state = world s\<rparr>"

lemma call_as_fd:
  assumes "i < length (alt_fd_list s)"
  shows "seq (call_driver (as_fd f) i s) report
    = posix s (on_module (f (fd_flags (alt_fd_list s ! i))) (direct_of s))"
  using assms
  by (cases "f (fd_flags (alt_fd_list s ! i)) (world s)")
    (auto simp: call_driver_def fd_at_def as_fd_def put_fd_def posix_def on_module_def direct_of_def report_def)

text \<open>A descriptor that is open on a device, for blocking access of the kind a call needs.\<close>

definition opened :: "node \<Rightarrow> u32 \<Rightarrow> nat \<Rightarrow> 'w files \<Rightarrow> bool" where
  "opened d refused i s =
     (i < length (alt_fd_list s) \<and> fd_dev (alt_fd_list s ! i) = Some d
      \<and> fd_flags (alt_fd_list s ! i) AND O_ACCMODE \<noteq> refused \<and> fd_flags (alt_fd_list s ! i) AND O_NONBLOCK = 0)"

context std_module
begin

lemma write_agrees:
  assumes "devs d = dv" and "opened d O_RDONLY 1 s" and "ALT_STDOUT_DEV io = Some m"
  shows "ALT_WRITE devs 1 ptr len s = posix s (direct_write io 1 ptr len (direct_of s))"
proof -
  have "module_write m ptr len (fd_flags (alt_fd_list s ! 1)) = module_write m ptr len 0"
    using assms(2) by (intro blocking(2)) (simp add: opened_def)
  then show ?thesis
    using assms call_as_fd [of 1 s "module_write m ptr len"]
    by (simp add: ALT_WRITE_def direct_write_def ALT_DRIVER_WRITE_def opened_def fd_at_def driver_def write_fd)
qed

lemma read_agrees:
  assumes "devs d = dv" and "opened d O_WRONLY 0 s" and "ALT_STDIN_DEV io = Some m"
  shows "ALT_READ devs 0 ptr len s = posix s (direct_read io 0 ptr len (direct_of s))"
proof -
  have "module_read m ptr len (fd_flags (alt_fd_list s ! 0)) = module_read m ptr len 0"
    using assms(2) by (intro blocking(1)) (simp add: opened_def)
  then show ?thesis
    using assms call_as_fd [of 0 s "module_read m ptr len"]
    by (simp add: ALT_READ_def direct_read_def ALT_DRIVER_READ_def opened_def fd_at_def driver_def read_fd)
qed

end

section \<open>The UART\<close>

text \<open>Without \<open>ALTERA_AVALON_UART_USE_IOCTL\<close> there is no \<open>ioctl\<close> to call.\<close>

definition uart_module :: "device \<Rightarrow> (nat \<Rightarrow> nat) \<Rightarrow> uart driver_module" where
  "uart_module dev irqs =
     \<lparr>module_read = \<lambda>ptr len flags s. altera_avalon_uart_read dev irqs ptr len flags s,
      module_write = \<lambda>ptr len flags s.
        seq (altera_avalon_uart_write dev irqs ptr len flags s) (\<lambda>(n, s). Ret (sint n, s)),
      module_ioctl = \<lambda>req arg s. Undef\<rparr>"

lemma uart_write_blocking:
  "fl AND O_NONBLOCK = 0 \<Longrightarrow> altera_avalon_uart_write dev irqs ptr len fl = altera_avalon_uart_write dev irqs ptr len 0"
  by (intro ext) (simp add: altera_avalon_uart_write_def)

lemma uart_read_blocking:
  "fl AND O_NONBLOCK = 0 \<Longrightarrow> altera_avalon_uart_read dev irqs ptr len fl = altera_avalon_uart_read dev irqs ptr len 0"
  by (intro ext) (simp add: altera_avalon_uart_read_def)

interpretation uart_std: std_module "uart_module dev irqs" "ALTERA_AVALON_UART_DEV_INSTANCE dev irqs name"
proof (unfold_locales, goal_cases)
  case 1
  show ?case
    by (simp add: uart_module_def ALTERA_AVALON_UART_DEV_INSTANCE_def altera_avalon_uart_read_fd_def as_fd_def fun_eq_iff)
next
  case 2
  show ?case
    by (simp add: uart_module_def ALTERA_AVALON_UART_DEV_INSTANCE_def altera_avalon_uart_write_fd_def as_fd_def
        fun_eq_iff case_prod_unfold seq_assoc)
next
  case (3 fl ptr len)
  then show ?case by (simp add: uart_module_def uart_read_blocking [of fl])
next
  case (4 fl ptr len)
  then show ?case by (simp add: uart_module_def uart_write_blocking [of fl])
qed

lemma on_module_errno: "on_module f s = Ret (rc, t) \<Longrightarrow> direct_errno t = direct_errno s"
  by (auto simp: on_module_def seq_eq_Ret)

section \<open>Properties\<close>

text \<open>Property C39. On a UART that is opened for blocking input and output, \<open>read\<close> and \<open>write\<close> of a build with direct drivers do what those of the usual
  build do, after the same accesses and under the same interrupts, and whether they return or not; but a failure of the driver is passed on
  as it is, where the usual call returns \<open>-1\<close> and sets \<open>errno\<close>, which the direct one leaves.\<close>

theorem direct_drivers_agree:
  assumes "devs d = ALTERA_AVALON_UART_DEV_INSTANCE dev irqs name" and "devs e = ALTERA_AVALON_UART_DEV_INSTANCE dev irqs name"
    and "opened d O_RDONLY 1 s" and "opened e O_WRONLY 0 s"
    and io: "io = \<lparr>ALT_STDIN_DEV = Some (uart_module dev irqs), ALT_STDOUT_DEV = Some (uart_module dev irqs),
      ALT_STDERR_DEV = None\<rparr>"
  shows "ALT_WRITE devs 1 ptr len s = posix s (direct_write io 1 ptr len (direct_of s))
    \<and> ALT_READ devs 0 ptr len s = posix s (direct_read io 0 ptr len (direct_of s))
    \<and> (\<forall>rc t. direct_write io 1 ptr len (direct_of s) = Ret (rc, t) \<longrightarrow> direct_errno t = errno s)
    \<and> (\<forall>rc t. direct_read io 0 ptr len (direct_of s) = Ret (rc, t) \<longrightarrow> direct_errno t = errno s)"
proof (intro conjI allI impI)
  show "ALT_WRITE devs 1 ptr len s = posix s (direct_write io 1 ptr len (direct_of s))"
    using assms by (intro uart_std.write_agrees [of devs d]) simp_all
  show "ALT_READ devs 0 ptr len s = posix s (direct_read io 0 ptr len (direct_of s))"
    using assms by (intro uart_std.read_agrees [of devs e]) simp_all
qed (auto simp: io direct_write_def direct_read_def ALT_DRIVER_WRITE_def ALT_DRIVER_READ_def direct_of_def
  dest!: on_module_errno)

definition uart_files :: "uart files" where
  "uart_files = (initial_files idle_uart)\<lparr>alt_fd_list := (alt_fd_list (initial_files idle_uart))
     [0 := \<lparr>fd_dev = Some Null_device, fd_priv = 0, fd_flags = O_RDONLY\<rparr>,
      1 := \<lparr>fd_dev = Some Null_device, fd_priv = 0, fd_flags = O_WRONLY\<rparr>]\<rparr>"

lemma direct_drivers_agree_witness:
  "ALT_WRITE (\<lambda>_. ALTERA_AVALON_UART_DEV_INSTANCE (\<lambda>t a. STATUS_TRDY_MSK) (\<lambda>i. i) ''/dev/uart'') 1 0x41 3 uart_files
    = posix uart_files (direct_write
        \<lparr>ALT_STDIN_DEV = Some (uart_module (\<lambda>t a. STATUS_TRDY_MSK) (\<lambda>i. i)),
         ALT_STDOUT_DEV = Some (uart_module (\<lambda>t a. STATUS_TRDY_MSK) (\<lambda>i. i)), ALT_STDERR_DEV = None\<rparr>
        1 0x41 3 (direct_of uart_files))"
  by (rule direct_drivers_agree [THEN conjunct1, OF refl refl _ _ refl])
    (simp_all add: opened_def uart_files_def initial_files_def O_RDONLY_def O_WRONLY_def O_ACCMODE_def O_NONBLOCK_def)

text \<open>Where the two differ: \<open>alt_putchar\<close> on direct drivers only takes \<open>-1\<close> for a failure.\<close>

lemma putchar_hides_failure:
  assumes "module_write m c1 1 0 (put_char c1 (to_char c) (module_state s)) = Ret (rc, w)" and "rc \<noteq> - 1"
  shows "\<exists>t. alt_putchar_direct put_char c1 m c s = Ret (c, t)"
  using assms by (simp add: alt_putchar_direct_def ALT_DRIVER_WRITE_def on_module_def)

text \<open>What is not a standard channel, or not present, is refused, and only \<open>fstat\<close> and \<open>isatty\<close> leave no reason.\<close>

lemma direct_refused:
  assumes "channel io file = None"
  shows "direct_write io file ptr len s = direct_fail EBADFD s" and "direct_ioctl io file req arg s = direct_fail EBADFD s"
    and "direct_fstat io file st = (- 1, st)" and "direct_isatty io file = 0"
  using assms by (auto simp: channel_def direct_write_def direct_ioctl_def direct_fstat_def direct_isatty_def
      split: if_splits)

end
