(* ===== verification/Uart_Options.thy ===== *)
theory Uart_Options
  imports Direct Byte_Memory
begin

text \<open>
  The UART as a file in the builds that this board does not select: with \<open>ioctl\<close> (\<open>ALTERA_AVALON_UART_USE_IOCTL\<close>), where a program
  passes a \<open>struct termios\<close> in its memory, and with the small driver (\<open>ALTERA_AVALON_UART_SMALL\<close>), which polls.  Both devices keep
  the contracts of the other drivers.
\<close>

section \<open>The settings in memory\<close>

text \<open>\<open>memcpy\<close> of a structure, as a list of bytes.\<close>

definition read_bytes :: "byte_memory \<Rightarrow> u32 \<Rightarrow> nat \<Rightarrow> u8 list" where
  "read_bytes m a n = map (\<lambda>i. m (a + of_nat i)) [0..<n]"

definition put_bytes :: "u32 \<Rightarrow> u8 list \<Rightarrow> byte_memory \<Rightarrow> byte_memory" where
  "put_bytes a bs m = (\<lambda>x. if unat (x - a) < length bs then bs ! unat (x - a) else m x)"

lemma read_bytes_put_bytes: "fit a (length bs) \<Longrightarrow> read_bytes (put_bytes a bs m) a (length bs) = bs"
  by (rule nth_equalityI) (auto simp: read_bytes_def put_bytes_def fit_def unat_of_nat)

lemma put_bytes_changes:
  assumes "fit a (length bs)"
  shows "changes (span a (length bs)) m (put_bytes a bs m)"
  using unat_back [OF _ assms] by (fastforce simp: changes_def put_bytes_def span_def)

definition bytes16 :: "u16 \<Rightarrow> u8 list" where
  "bytes16 v = [ucast v, ucast (drop_bit 8 v)]"

definition bytes32 :: "u32 \<Rightarrow> u8 list" where
  "bytes32 v = [ucast v, ucast (drop_bit 8 v), ucast (drop_bit 16 v), ucast (drop_bit 24 v)]"

text \<open>\<open>struct termios\<close>: four halves, a character, the control characters, two bytes of padding, two words.\<close>

definition termios_bytes :: "termios \<Rightarrow> u8 list" where
  "termios_bytes t = bytes16 (c_iflag t) @ bytes16 (c_oflag t) @ bytes16 (c_cflag t) @ bytes16 (c_lflag t)
     @ [c_line t] @ c_cc t @ [0, 0] @ bytes32 (c_ispeed t) @ bytes32 (c_ospeed t)"

definition termios_of :: "u8 list \<Rightarrow> termios" where
  "termios_of bs =
     (let half = (\<lambda>i. load16 (\<lambda>a. bs ! unat a) (of_nat i)); word = (\<lambda>i. load32 (\<lambda>a. bs ! unat a) (of_nat i))
      in \<lparr>c_iflag = half 0, c_oflag = half 2, c_cflag = half 4, c_lflag = half 6, c_line = bs ! 8,
        c_cc = take 13 (drop 9 bs), c_ispeed = word 24, c_ospeed = word 28\<rparr>)"

lemma bytes16_value: "ucast (ucast v :: u8) OR push_bit 8 (ucast (ucast (drop_bit 8 v) :: u8)) = (v :: u16)"
  using load16_store16 [of 0 v "\<lambda>_. 0"] by (simp add: load16_def store16_def)

lemma bytes32_value:
  "ucast (ucast v :: u8) OR push_bit 8 (ucast (ucast (drop_bit 8 v) :: u8))
     OR push_bit 16 (ucast (ucast (drop_bit 16 v) :: u8)) OR push_bit 24 (ucast (ucast (drop_bit 24 v) :: u8)) = (v :: u32)"
  using load32_store32 [of 0 v "\<lambda>_. 0"] by (simp add: load32_def store32_def)

lemma termios_of_bytes:
  assumes "length (c_cc t) = 13"
  shows "termios_of (termios_bytes t) = t" and "length (termios_bytes t) = 32"
proof -
  show "length (termios_bytes t) = 32" using assms by (simp add: termios_bytes_def bytes16_def bytes32_def)
  obtain x0 x1 x2 x3 x4 x5 x6 x7 x8 x9 x10 x11 x12 where "c_cc t = [x0, x1, x2, x3, x4, x5, x6, x7, x8, x9, x10, x11, x12]"
    using assms by (auto simp: length_Suc_conv eval_nat_numeral)
  then show "termios_of (termios_bytes t) = t"
    by (simp add: termios_of_def termios_bytes_def bytes16_def bytes32_def load16_def load32_def
        bytes16_value bytes32_value Let_def)
qed

section \<open>The driver with ioctl\<close>

text \<open>The padding of the caller's structure is zero, as \<open>TIOCMGET\<close> leaves it.\<close>

definition altera_avalon_uart_ioctl_fd :: "int \<Rightarrow> u32 \<Rightarrow> uart fd_op" where
  "altera_avalon_uart_ioctl_fd req arg fd s =
     seq (altera_avalon_uart_ioctl req (termios_of (read_bytes (ram s) arg 32)) s) (\<lambda>(rc, term, s).
     Ret (rc, fd, if req = TIOCMGET then s\<lparr>ram := put_bytes arg (termios_bytes term) (ram s)\<rparr> else s))"

definition ALTERA_AVALON_UART_IOCTL_FD :: "bool \<Rightarrow> (int \<Rightarrow> u32 \<Rightarrow> uart fd_op) option" where
  "ALTERA_AVALON_UART_IOCTL_FD use_ioctl = (if use_ioctl then Some altera_avalon_uart_ioctl_fd else None)"

definition uart_dev_instance :: "bool \<Rightarrow> device \<Rightarrow> (nat \<Rightarrow> nat) \<Rightarrow> string \<Rightarrow> uart alt_dev" where
  "uart_dev_instance use_ioctl dev irqs name =
     \<lparr>dev_name = Some name, dev_open = None, dev_close = Some (altera_avalon_uart_close_fd dev irqs),
      dev_read = Some (altera_avalon_uart_read_fd dev irqs),
      dev_write = Some (altera_avalon_uart_write_fd dev irqs),
      dev_lseek = None, dev_fstat = None, dev_ioctl = ALTERA_AVALON_UART_IOCTL_FD use_ioctl\<rparr>"

lemma uart_instance_of_board: "uart_dev_instance False = ALTERA_AVALON_UART_DEV_INSTANCE"
  by (simp add: uart_dev_instance_def ALTERA_AVALON_UART_DEV_INSTANCE_def ALTERA_AVALON_UART_IOCTL_FD_def fun_eq_iff)

lemma ioctl_fd_keeps: "keeps_dev (altera_avalon_uart_ioctl_fd req arg)"
  unfolding keeps_dev_def altera_avalon_uart_ioctl_fd_def by (auto intro!: ensures_seq_any)

lemma uart_options_ok: "driver_ok (uart_dev_instance use_ioctl dev irqs name)"
  using uart_driver_ok [of dev irqs name] ioctl_fd_keeps
  by (simp add: driver_ok_def uart_dev_instance_def ALTERA_AVALON_UART_DEV_INSTANCE_def ALTERA_AVALON_UART_IOCTL_FD_def)

interpretation uart_options: drivers "\<lambda>_. uart_dev_instance use_ioctl dev irqs name"
  by unfold_locales (rule uart_options_ok)

text \<open>The call on a descriptor that is open on such a device.\<close>

lemma uart_ioctl_call:
  assumes "devs d = uart_dev_instance True dev irqs name" and "i < length (alt_fd_list s)"
    and "fd_dev (alt_fd_list s ! i) = Some d" and "req = TIOCMGET \<or> req = TIOCMSET"
    and "altera_avalon_uart_ioctl_fd req arg (alt_fd_list s ! i) (world s) = Ret (rc, alt_fd_list s ! i, w)"
  shows "ALT_IOCTL devs (int i) req arg s
    = Ret (rc, s\<lparr>world := w, errno := if rc < 0 then - rc else errno s\<rparr>)"
  using assms
  by (auto simp: ALT_IOCTL_def fd_at_def driver_def call_driver_def put_fd_def uart_dev_instance_def
      ALTERA_AVALON_UART_IOCTL_FD_def TIOCMGET_def TIOCMSET_def TIOCEXCL_def TIOCNXCL_def)

section \<open>Reading and changing the settings\<close>

text \<open>\<open>TIOCMGET\<close> puts the settings where the caller points, and changes no other memory.\<close>

lemma settings_are_read:
  assumes "devs d = uart_dev_instance True dev irqs name" and "i < length (alt_fd_list s)"
    and "fd_dev (alt_fd_list s ! i) = Some d" and "fit arg 32" and "length (c_cc (termios (world s))) = 13"
  defines "w \<equiv> (world s)\<lparr>ram := put_bytes arg (termios_bytes (termios (world s))) (ram (world s))\<rparr>"
  shows "ALT_IOCTL devs (int i) TIOCMGET arg s = Ret (0, s\<lparr>world := w\<rparr>)"
    and "termios_of (read_bytes (ram w) arg 32) = termios (world s)"
    and "changes (span arg 32) (ram (world s)) (ram w)"
proof -
  have "altera_avalon_uart_ioctl_fd TIOCMGET arg (alt_fd_list s ! i) (world s) = Ret (0, alt_fd_list s ! i, w)"
    by (simp add: altera_avalon_uart_ioctl_fd_def altera_avalon_uart_ioctl_def altera_avalon_uart_tiocmget_def w_def)
  from uart_ioctl_call [of devs d, OF assms(1-3) _ this]
  show "ALT_IOCTL devs (int i) TIOCMGET arg s = Ret (0, s\<lparr>world := w\<rparr>)" by simp
  note bytes = termios_of_bytes [OF assms(5)]
  show "termios_of (read_bytes (ram w) arg 32) = termios (world s)"
    using read_bytes_put_bytes [of arg "termios_bytes (termios (world s))"] assms(4) bytes by (simp add: w_def)
  show "changes (span arg 32) (ram (world s)) (ram w)"
    using put_bytes_changes [of arg "termios_bytes (termios (world s))"] assms(4) bytes(2) by (simp add: w_def)
qed

text \<open>
  \<open>TIOCMSET\<close> with the settings as they are, but for a speed: where the speed can be changed it is taken over and the divisor set for it;
  where it is fixed, a different speed is refused, and the settings stay.
\<close>

lemma speed_is_set:
  assumes "devs d = uart_dev_instance True dev irqs name" and "i < length (alt_fd_list s)"
    and "fd_dev (alt_fd_list s ! i) = Some d" and "b \<noteq> 0"
    and "termios_of (read_bytes (ram (world s)) arg 32) = (termios (world s))\<lparr>c_ispeed := b, c_ospeed := b\<rparr>"
    and "uart_flags (world s) AND ALT_AVALON_UART_FB = 0"
  shows "ALT_IOCTL devs (int i) TIOCMSET arg s
    = Ret (0, s\<lparr>world := uart_IOWR UART_DIVISOR (uart_freq (world s) div b - 1)
        ((world s)\<lparr>termios := (termios (world s))\<lparr>c_ispeed := b, c_ospeed := b\<rparr>\<rparr>)\<rparr>)"
proof -
  have "altera_avalon_uart_ioctl_fd TIOCMSET arg (alt_fd_list s ! i) (world s)
      = Ret (0, alt_fd_list s ! i, uart_IOWR UART_DIVISOR (uart_freq (world s) div b - 1)
        ((world s)\<lparr>termios := (termios (world s))\<lparr>c_ispeed := b, c_ospeed := b\<rparr>\<rparr>))"
    using assms(4-6) by (simp add: altera_avalon_uart_ioctl_fd_def altera_avalon_uart_ioctl_def
      altera_avalon_uart_tiocmset_def TIOCMGET_def TIOCMSET_def Let_def)
  from uart_ioctl_call [of devs d, OF assms(1-3) _ this] show ?thesis by simp
qed

lemma fixed_speed_is_refused:
  assumes "devs d = uart_dev_instance True dev irqs name" and "i < length (alt_fd_list s)"
    and "fd_dev (alt_fd_list s ! i) = Some d" and "b \<noteq> c_ispeed (termios (world s))"
    and "c_ospeed (termios (world s)) = c_ispeed (termios (world s))"
    and "termios_of (read_bytes (ram (world s)) arg 32) = (termios (world s))\<lparr>c_ispeed := b, c_ospeed := b\<rparr>"
    and "uart_flags (world s) AND ALT_AVALON_UART_FB \<noteq> 0"
  shows "ALT_IOCTL devs (int i) TIOCMSET arg s = Ret (- EIO, s\<lparr>errno := EIO\<rparr>)"
proof -
  have speeds: "t\<lparr>c_ispeed := c_ispeed t, c_ospeed := c_ispeed t\<rparr> = t" if "c_ospeed t = c_ispeed t" for t :: termios
    using that by (metis termios.surjective termios.update_convs(7,8))
  have "(termios (world s))\<lparr>c_ispeed := b, c_ospeed := b\<rparr> \<noteq> termios (world s)"
    using assms(4) by (metis termios.ext_inject termios.surjective termios.update_convs(7,8))
  then have "altera_avalon_uart_ioctl_fd TIOCMSET arg (alt_fd_list s ! i) (world s)
      = Ret (- EIO, alt_fd_list s ! i, world s)"
    using assms(6,7) speeds [OF assms(5)] by (simp add: altera_avalon_uart_ioctl_fd_def altera_avalon_uart_ioctl_def
      altera_avalon_uart_tiocmset_def TIOCMGET_def TIOCMSET_def Let_def)
  from uart_ioctl_call [of devs d, OF assms(1-3) _ this] show ?thesis by (simp add: EIO_def)
qed

section \<open>The small driver as a file\<close>

definition small_read_fd :: "device \<Rightarrow> u32 \<Rightarrow> u32 \<Rightarrow> uart fd_op" where
  "small_read_fd dev buffer count fd s =
     seq (small_uart_read dev buffer count (fd_flags fd) s) (\<lambda>(n, s). Ret (sint n, fd, s))"

definition small_write_fd :: "device \<Rightarrow> u32 \<Rightarrow> u32 \<Rightarrow> uart fd_op" where
  "small_write_fd dev buffer count fd s =
     seq (small_uart_write dev buffer count (fd_flags fd) s) (\<lambda>(n, s). Ret (sint n, fd, s))"

definition small_dev_instance :: "device \<Rightarrow> string \<Rightarrow> uart alt_dev" where
  "small_dev_instance dev name =
     \<lparr>dev_name = Some name, dev_open = None, dev_close = None,
      dev_read = Some (small_read_fd dev), dev_write = Some (small_write_fd dev),
      dev_lseek = None, dev_fstat = None, dev_ioctl = None\<rparr>"

lemma small_driver_ok: "driver_ok (small_dev_instance dev name)"
  by (simp add: driver_ok_def small_dev_instance_def keeps_dev_def small_read_fd_def small_write_fd_def
      fd_result_keeps)

interpretation small_drivers: drivers "\<lambda>_. small_dev_instance dev name"
  by unfold_locales (rule small_driver_ok)

definition small_module :: "device \<Rightarrow> uart driver_module" where
  "small_module dev =
     \<lparr>module_read = \<lambda>ptr len flags s. seq (small_uart_read dev ptr len flags s) (\<lambda>(n, s). Ret (sint n, s)),
      module_write = \<lambda>ptr len flags s. seq (small_uart_write dev ptr len flags s) (\<lambda>(n, s). Ret (sint n, s)),
      module_ioctl = \<lambda>req arg s. Undef\<rparr>"

interpretation small_std: std_module "small_module dev" "small_dev_instance dev name"
proof (unfold_locales, goal_cases)
  case 1
  show ?case
    by (simp add: small_module_def small_dev_instance_def small_read_fd_def as_fd_def fun_eq_iff case_prod_unfold seq_assoc)
next
  case 2
  show ?case
    by (simp add: small_module_def small_dev_instance_def small_write_fd_def as_fd_def fun_eq_iff case_prod_unfold seq_assoc)
next
  case (3 fl ptr len)
  then show ?case by (simp add: small_module_def small_uart_read_def)
next
  case (4 fl ptr len)
  then show ?case by (simp add: small_module_def small_uart_write_def)
qed

end
