(* ===== verification/Unsupported.thy ===== *)
theory Unsupported
  imports Main_Loop
begin

text \<open>
  The commands that \<open>LMS64C_protocol.h\<close> declares and the switch of \<open>main\<close> has no case for: the protocol is shared
  with other boards.  The host that sends one gets a response that says so, and the board does nothing else.
\<close>

section \<open>The commands\<close>






section \<open>What happens to them\<close>




section \<open>Properties\<close>



end
