(* ===== verification/Semihosting.thy ===== *)
theory Semihosting
  imports Printing
begin

text \<open>
  Printing in a semihosting build (\<open>alt_putcharbuf.c\<close>, and \<open>alt_printf\<close> with \<open>ALT_SEMIHOSTING\<close>): \<open>alt_printf\<close> collects its
  characters in a buffer of 64 and hands them to \<open>write\<close> on the standard output when the buffer is full, and at the end.  \<open>write\<close>
  is a parameter: what it does to the world with the characters it is given, and its result.  With it the other wrappers
  of standard input and output (\<open>alt_putchar.c\<close>, \<open>alt_putstr.c\<close>, \<open>alt_getchar.c\<close>), in this build, where they call newlib, and for
  semihosting; newlib's functions and \<open>read\<close> are parameters too.
\<close>

section \<open>Definitions\<close>

definition ALT_PUTBUF_SIZE :: nat where "ALT_PUTBUF_SIZE = 64"

record 'w putbuf =
  chars :: string
  fill_index :: u32
  world :: 'w

text \<open>\<open>buf\<close> has \<open>ALT_PUTBUF_SIZE\<close> characters, zero at first; an access outside it is undefined.\<close>

definition empty_putbuf :: "'w \<Rightarrow> 'w putbuf" where
  "empty_putbuf w = \<lparr>chars = replicate ALT_PUTBUF_SIZE (to_char 0), fill_index = 0, world = w\<rparr>"

definition alt_putbufflush :: "(string \<Rightarrow> 'w \<Rightarrow> int \<times> 'w) \<Rightarrow> 'w putbuf \<Rightarrow> (int \<times> 'w putbuf) outcome" where
  "alt_putbufflush write s =
     (let n = unat (fill_index s)
      in if length (chars s) < n then Undef
         else let (results, w) = write (take n (chars s)) (world s)
              in Ret (results, s\<lparr>fill_index := 0, world := w\<rparr>))"

definition alt_putcharbuf :: "(string \<Rightarrow> 'w \<Rightarrow> int \<times> 'w) \<Rightarrow> u32 \<Rightarrow> 'w putbuf \<Rightarrow> (u32 \<times> 'w putbuf) outcome" where
  "alt_putcharbuf write c s =
     (let i = unat (fill_index s)
      in if length (chars s) \<le> i then Undef
         else let s = s\<lparr>chars := (chars s)[i := to_char c], fill_index := fill_index s + 1\<rparr>
              in if ALT_PUTBUF_SIZE \<le> unat (fill_index s)
                 then seq (alt_putbufflush write s) (\<lambda>(_, s). Ret (c, s))
                 else Ret (c, s))"

text \<open>The character stored is \<open>(char) (c & 0xff)\<close>, which \<open>to_char\<close> is.  \<open>#define alt_putchar(x) alt_putcharbuf(x)\<close>: the loop of \<open>alt_printf\<close> over a buffer, unless an access before was undefined.\<close>

definition put_buffered :: "(string \<Rightarrow> 'w \<Rightarrow> int \<times> 'w) \<Rightarrow> char \<Rightarrow> 'w putbuf outcome \<Rightarrow> 'w putbuf outcome" where
  "put_buffered write c r = seq r (\<lambda>s. seq (alt_putcharbuf write (of_char c) s) (\<lambda>(_, s). Ret s))"

definition alt_printf_semihosting ::
    "(string \<Rightarrow> 'w \<Rightarrow> int \<times> 'w) \<Rightarrow> string \<Rightarrow> arg list \<Rightarrow> 'w putbuf \<Rightarrow> 'w putbuf outcome" where
  "alt_printf_semihosting write fmt args s =
     seq (alt_printf (put_buffered write) fmt args (Ret s)) (\<lambda>r.
     seq r (\<lambda>s.
     seq (alt_putbufflush write s) (\<lambda>(_, s). Ret s)))"

text \<open>The wrappers in this build: \<open>fputs(str, stdout)\<close> and \<open>getchar()\<close>.\<close>

definition alt_putstr :: "(string \<Rightarrow> 'w \<Rightarrow> int \<times> 'w) \<Rightarrow> string \<Rightarrow> 'w \<Rightarrow> int \<times> 'w" where
  "alt_putstr fputs str w = fputs str w"

definition alt_getchar :: "('w \<Rightarrow> int \<times> 'w) \<Rightarrow> 'w \<Rightarrow> int \<times> 'w" where
  "alt_getchar getchar w = getchar w"

text \<open>And for semihosting.  \<open>read\<close> of one character stores one or, at the end of the input or after an error, none: its result is not
  looked at, and the variable it should have set is then read without a value.  A \<open>char\<close> is signed.\<close>

definition alt_putchar_semihosting :: "(string \<Rightarrow> 'w \<Rightarrow> int \<times> 'w) \<Rightarrow> u32 \<Rightarrow> 'w \<Rightarrow> int \<times> 'w" where
  "alt_putchar_semihosting write c w = write [to_char c] w"

definition alt_putstr_semihosting :: "(string \<Rightarrow> 'w \<Rightarrow> int \<times> 'w) \<Rightarrow> string \<Rightarrow> 'w \<Rightarrow> int \<times> 'w" where
  "alt_putstr_semihosting write str w = write str w"

definition alt_getchar_semihosting :: "('w \<Rightarrow> char option \<times> int \<times> 'w) \<Rightarrow> 'w \<Rightarrow> (int \<times> 'w) outcome" where
  "alt_getchar_semihosting read w =
     (let (stored, result, w) = read w
      in case stored of None \<Rightarrow> Undef | Some c \<Rightarrow> Ret (sint (of_char c :: 8 word), w))"

section \<open>The calls of \<open>write\<close>\<close>

text \<open>A text in blocks of the size of the buffer, and a shorter one, perhaps empty, at the end.\<close>

fun blocks :: "string \<Rightarrow> string list" where
  "blocks cs = (if length cs < ALT_PUTBUF_SIZE then [cs]
     else take ALT_PUTBUF_SIZE cs # (if ALT_PUTBUF_SIZE = 0 then [] else blocks (drop ALT_PUTBUF_SIZE cs)))"

declare blocks.simps [simp del]

definition written :: "(string \<Rightarrow> 'w \<Rightarrow> int \<times> 'w) \<Rightarrow> string list \<Rightarrow> 'w \<Rightarrow> 'w" where
  "written write bs w = fold (\<lambda>b w. snd (write b w)) bs w"

lemma blocks_short: "length cs < ALT_PUTBUF_SIZE \<Longrightarrow> blocks cs = [cs]"
  by (subst blocks.simps) simp

lemma blocks_full: "length cs = ALT_PUTBUF_SIZE \<Longrightarrow> blocks (cs @ ds) = cs # blocks ds"
  by (subst blocks.simps) (simp add: ALT_PUTBUF_SIZE_def)

lemma blocks_ok: "concat (blocks cs) = cs \<and> length (last (blocks cs)) < ALT_PUTBUF_SIZE
    \<and> list_all (\<lambda>b. length b = ALT_PUTBUF_SIZE) (butlast (blocks cs)) \<and> blocks cs \<noteq> []"
proof (induction cs rule: blocks.induct)
  case (1 cs)
  show ?case
  proof (cases "length cs < ALT_PUTBUF_SIZE")
    case False
    then have "blocks cs = take ALT_PUTBUF_SIZE cs # blocks (drop ALT_PUTBUF_SIZE cs)"
      using blocks_full [of "take ALT_PUTBUF_SIZE cs" "drop ALT_PUTBUF_SIZE cs"] by simp
    then show ?thesis using 1 [OF False] False by (simp add: ALT_PUTBUF_SIZE_def)
  qed (simp add: blocks_short)
qed

section \<open>The buffer\<close>

definition pending :: "'w putbuf \<Rightarrow> string" where
  "pending s = take (unat (fill_index s)) (chars s)"

definition putbuf_ok :: "'w putbuf \<Rightarrow> bool" where
  "putbuf_ok s = (length (chars s) = ALT_PUTBUF_SIZE \<and> unat (fill_index s) < ALT_PUTBUF_SIZE)"

lemma empty_putbuf_ok [simp]: "putbuf_ok (empty_putbuf w)" "pending (empty_putbuf w) = []" "world (empty_putbuf w) = w"
  by (simp_all add: putbuf_ok_def empty_putbuf_def pending_def ALT_PUTBUF_SIZE_def)

lemma to_char_of_char [simp]: "to_char (of_char c) = c"
proof -
  have "of_char c < (256 :: nat)" using nat_of_char_less_256 [of c] by simp
  moreover from this have "of_char c < (4294967296 :: nat)" by linarith
  moreover have "(of_char c :: u32) = word_of_nat (of_char c)" by (simp add: of_nat_of_char)
  ultimately have "unat (of_char c :: u32) = of_char c" by (simp only: unat_of_nat) (simp add: mod_less)
  then show ?thesis using \<open>of_char c < 256\<close> by (simp add: to_char_def)
qed

text \<open>The world once the characters pending, \<open>cs\<close> after them, have been put and the buffer flushed.\<close>

definition after_text :: "(string \<Rightarrow> 'w \<Rightarrow> int \<times> 'w) \<Rightarrow> 'w putbuf \<Rightarrow> string \<Rightarrow> 'w" where
  "after_text write s cs = written write (blocks (pending s @ cs)) (world s)"

lemma alt_putbufflush_ok:
  assumes "putbuf_ok s"
  shows "\<exists>s'. alt_putbufflush write s = Ret (fst (write (pending s) (world s)), s')
    \<and> putbuf_ok s' \<and> pending s' = [] \<and> world s' = after_text write s []"
  using assms by (simp add: alt_putbufflush_def putbuf_ok_def pending_def after_text_def written_def
      blocks_short split_beta ALT_PUTBUF_SIZE_def Let_def)

lemma put_buffered_ok:
  assumes "putbuf_ok s"
  shows "\<exists>s'. put_buffered write c (Ret s) = Ret s' \<and> putbuf_ok s'
    \<and> after_text write s' cs = after_text write s (c # cs)"
proof -
  let ?i = "unat (fill_index s)"
  let ?s = "s\<lparr>chars := (chars s)[?i := c], fill_index := fill_index s + 1\<rparr>"
  have i: "?i < 64" "length (chars s) = 64"
    using assms by (simp_all add: putbuf_ok_def ALT_PUTBUF_SIZE_def)
  have n: "unat (fill_index s + 1) = Suc ?i"
    using i(1) by (simp add: unat_word_ariths)
  have put: "take (Suc ?i) ((chars s)[?i := c]) = pending s @ [c]"
    using i by (simp add: take_Suc_conv_app_nth pending_def)
  show ?thesis
  proof (cases "Suc ?i = 64")
    case True
    then have full: "length (pending s @ [c]) = ALT_PUTBUF_SIZE"
      using i by (simp add: pending_def ALT_PUTBUF_SIZE_def)
    have "put_buffered write c (Ret s) = Ret (?s\<lparr>fill_index := 0, world := snd (write (pending s @ [c]) (world s))\<rparr>)"
      using i n put True full by (simp add: put_buffered_def alt_putcharbuf_def alt_putbufflush_def split_beta
          ALT_PUTBUF_SIZE_def Let_def)
    moreover have "blocks (pending s @ c # cs) = (pending s @ [c]) # blocks cs"
      using blocks_full [OF full, of cs] by simp
    ultimately show ?thesis
      using i by (simp add: putbuf_ok_def after_text_def written_def ALT_PUTBUF_SIZE_def pending_def)
  next
    case False
    then have "put_buffered write c (Ret s) = Ret ?s"
      using i n by (simp add: put_buffered_def alt_putcharbuf_def ALT_PUTBUF_SIZE_def)
    moreover have "pending ?s = pending s @ [c]" using n put by (simp add: pending_def)
    ultimately show ?thesis
      using i n False by (simp add: putbuf_ok_def after_text_def ALT_PUTBUF_SIZE_def)
  qed
qed

lemma put_all_buffered:
  assumes "putbuf_ok s"
  shows "\<exists>s'. fold (put_buffered write) out (Ret s) = Ret s' \<and> putbuf_ok s'
    \<and> after_text write s' [] = after_text write s out"
  using assms
proof (induction out arbitrary: s)
  case (Cons c cs)
  from put_buffered_ok [OF Cons.prems] obtain u where
    "put_buffered write c (Ret s) = Ret u" "putbuf_ok u" "after_text write u cs = after_text write s (c # cs)"
    by blast
  then show ?case using Cons.IH [of u] by simp
qed auto

text \<open>
  What \<open>alt_printf\<close> writes: the text its format stands for after what was pending, in blocks of 64 characters and one shorter
  block at the end, in order, whatever \<open>write\<close> answers; afterwards the buffer is empty.
\<close>

lemma printf_in_blocks:
  assumes "putbuf_ok s"
  shows "case rendered (directives fmt) args of
      None \<Rightarrow> alt_printf_semihosting write fmt args s = Undef
    | Some out \<Rightarrow> \<exists>s'. alt_printf_semihosting write fmt args s = Ret s' \<and> putbuf_ok s' \<and> pending s' = []
        \<and> world s' = written write (blocks (pending s @ out)) (world s)"
proof (cases "rendered (directives fmt) args")
  case (Some out)
  from put_all_buffered [OF assms] obtain u where
    u: "fold (put_buffered write) out (Ret s) = Ret u" "putbuf_ok u" "after_text write u [] = after_text write s out"
    by blast
  from alt_putbufflush_ok [OF u(2), of "write"] obtain s' r where
    "alt_putbufflush write u = Ret (r, s')" "putbuf_ok s'" "pending s' = []" "world s' = after_text write u []"
    by blast
  with u show ?thesis
    by (simp add: alt_printf_semihosting_def alt_printf_text printed_def Some after_text_def)
qed (simp add: alt_printf_semihosting_def alt_printf_text printed_def)

text \<open>A short text is one call of \<open>write\<close>: the call that \<open>alt_putstr\<close> would have made.\<close>

lemma short_printf_is_putstr:
  assumes "putbuf_ok s" and "pending s = []"
    and "rendered (directives fmt) args = Some out" and "length out < ALT_PUTBUF_SIZE"
  shows "\<exists>s'. alt_printf_semihosting write fmt args s = Ret s'
    \<and> world s' = snd (alt_putstr_semihosting write out (world s))"
  using printf_in_blocks [OF assms(1), of "write" fmt args] assms(2,3) blocks_short [OF assms(4)]
  by (auto simp: written_def alt_putstr_semihosting_def)

text \<open>At the end of the input \<open>alt_getchar\<close> returns whatever is in its variable.\<close>

lemma getchar_at_end: "fst (read w) = None \<Longrightarrow> alt_getchar_semihosting read w = Undef"
  by (auto simp: alt_getchar_semihosting_def split: prod.splits)

end
