(* ===== verification/Ecc.thy ===== *)
theory Ecc
  imports Caches
begin

text \<open>
  Two single variables of the HAL.  \<open>alt_exception_ecc_fatal_handler\<close> (\<open>alt_ecc_fatal_exception.c\<close>) is read by the exception entry past the
  cache, so that registering a handler writes it back; \<open>alt_errno\<close> (\<open>alt_errno.c\<close>, \<open>alt_errno.h\<close>) is a pointer to newlib's function that
  finds \<open>errno\<close>, null when that is not linked.
\<close>

section \<open>The handler of fatal ECC errors\<close>

record ecc =
  alt_exception_ecc_fatal_handler :: u32
  cache_ops :: "cache_op list"

definition initial_ecc :: ecc where
  "initial_ecc = \<lparr>alt_exception_ecc_fatal_handler = 0, cache_ops = []\<rparr>"

text \<open>\<open>address\<close> is where the linker puts the variable.\<close>

definition alt_ecc_fatal_exception_register :: "caches \<Rightarrow> u32 \<Rightarrow> u32 \<Rightarrow> ecc \<Rightarrow> ecc outcome" where
  "alt_ecc_fatal_exception_register c address handler s =
     (let s = s\<lparr>alt_exception_ecc_fatal_handler := handler\<rparr>
      in seq (alt_dcache_flush c address 4 (cache_ops s)) (\<lambda>ops. Ret (s\<lparr>cache_ops := ops\<rparr>)))"

text \<open>With a data cache, after the handler is set the line of the variable is written back, and of a variable that is aligned no other.\<close>

lemma ecc_handler_is_written_back:
  assumes "0 < dcache_size c" and "unat (dcache_line c) = 2 ^ k" and "2 \<le> k"
    and "unat address + 4 + 2 ^ k \<le> 2 ^ 32"
  shows "\<exists>s' as. alt_ecc_fatal_exception_register c address handler s = Ret s'
    \<and> alt_exception_ecc_fatal_handler s' = handler \<and> cache_ops s' = cache_ops s @ map Flushda as
    \<and> line_of k address \<in> set (map (line_of k) as)
    \<and> (2 ^ k dvd unat address \<longrightarrow> map (line_of k) as = [line_of k address])"
proof -
  obtain as where as: "flush_region Flushda (dcache_line c) address (address + 4) (cache_ops s)
      = Ret (cache_ops s @ map Flushda as)"
    "map (line_of k) as = [line_of k address..<line_of k address + (unat (4 :: u32) + 2 ^ k - 1) div 2 ^ k
        + (if 2 ^ k dvd unat address then 0 else 1)]"
    using flush_region_lines [of "dcache_line c" k address 4 Flushda "cache_ops s"] assms(2,4) by auto
  have "(2 :: nat) ^ 2 \<le> 2 ^ k" using assms(3) by (rule power_increasing) simp
  then have four: "4 \<le> (2 :: nat) ^ k" by simp
  have three: "(3 + 2 ^ k) div 2 ^ k = (1 :: nat)"
    using four div_add_self2 [of "2 ^ k" "3 :: nat"] by simp
  have words: "unat (4 :: u32) = 4" by code_simp
  have "4 + 2 ^ k - 1 = 3 + (2 :: nat) ^ k" by linarith
  then have one: "(unat (4 :: u32) + 2 ^ k - 1) div 2 ^ k = 1" using three unfolding words by argo
  show ?thesis
    using as assms(1) unfolding one
    by (auto simp: alt_ecc_fatal_exception_register_def alt_dcache_flush_def Let_def split: if_splits)
qed

text \<open>This board has no data cache: only the variable is set.\<close>

lemma ecc_handler_on_board:
  "alt_ecc_fatal_exception_register lms_ctr address handler s = Ret (s\<lparr>alt_exception_ecc_fatal_handler := handler\<rparr>)"
  by (simp add: alt_ecc_fatal_exception_register_def alt_dcache_flush_def lms_ctr_def Let_def)

section \<open>Finding errno\<close>

definition alt_get_errno :: "('w \<Rightarrow> u32 \<times> 'w) option \<Rightarrow> u32 \<Rightarrow> 'w \<Rightarrow> u32 \<times> 'w" where
  "alt_get_errno alt_errno errno_address w =
     (case alt_errno of Some f \<Rightarrow> f w | None \<Rightarrow> (errno_address, w))"

end
