(* ===== verification/Spec2Isabelle.thy ===== *)
theory Spec2Isabelle
  imports Main_Loop Flash Timing I2c_Bsp Wall_Clock Stack_Check Log_Jtag Startup Device_Classes System_Id
    Gmon_Results Uart_Options Unsupported Semihosting Ecc
begin

text \<open>
  A model of the Nios II control firmware of the LimeSDR-USB gateware (\<open>src/software\<close>): the
  application \<open>lms_ctr_app\<close>, which answers the LMS64C control protocol of the host, and the drivers it
  runs on.

  The program.  \<open>main\<close> (\<open>main.c\<close>) initialises the board and then polls a FIFO for 64-byte packets; for
  each it prepares a response, runs the command in a switch, and writes the response back to the
  FIFO.  The commands talk to the LMS7002M transceiver, the board registers, the AD5601 DAC and the
  ADF4002 synthesizer over three SPI masters (\<open>altera_avalon_spi.c\<close>), and to the EEPROM and the LM75
  sensor over an I2C core (\<open>i2c_opencores.c\<close>).

  How it is modelled.  A C function is a HOL function on an explicit state.  Its result is an
  \<open>outcome\<close>: \<open>Ret\<close> a value, \<open>Undef\<close> (an access outside a buffer), or \<open>Hang\<close> (a loop that never
  ends).  The state (record \<open>machine\<close>) holds the globals of \<open>main.c\<close>, the buffers as byte lists, and
  the trace of bus accesses so far.  The hardware is a parameter: a \<open>device\<close> is any function from the
  trace and an address to the value read there.  What a property needs of the hardware is a named
  hypothesis: \<open>spi_core\<close> (a byte is reported received only after one was sent), \<open>spi_live\<close> (polling
  long enough sees the core ready), \<open>mcu_live\<close> (after so many status polls in a row the microcontroller
  reports its buffer empty).  Machine integers are words of their C width.
  Loops bounded by a counter are \<open>for_up\<close>; loops that hardware ends are \<open>loop\<close>, a partial function
  whose not ending is \<open>Hang\<close>, so that a property that a command returns is proved as such.

  The theories.
  Prelude: outcomes, loops and the rules to reason about them.
  Hardware: buffers, pointers, bus accesses (\<open>io.h\<close>) and projections of a trace to one peripheral.
  Spi: \<open>alt_avalon_spi_command\<close>, its contract as the locale \<open>spi_master\<close>, and an echoing slave.
  I2c: the I2C driver and the locale \<open>i2c_master\<close>.
  Machine: the state, the statements, and \<open>effect\<close>, which bounds what a statement may touch.
  Protocol: packets, commands, status codes, FIFO (\<open>LMS64C_protocol.h\<close>, \<open>main.c\<close>).
  Board: DAC, ADF4002, EEPROM and temperature sensor (\<open>main.c\<close>).
  Commands and Command_Results: the cases of the command switch, and what they do exactly.
  Mcu: the download of the LMS7002M's microcontroller firmware.
  Main_Loop: start-up, one packet, and the main loop as the inductive set \<open>reachable\<close>.
  Unsupported: the commands of the protocol that the switch has no case for.
  Flash: the SPI flash library of the application (\<open>spi_flash_lib.c\<close>).
  Timing: the busy loop behind \<open>usleep\<close> (\<open>alt_busy_sleep.c\<close>), by the turns of its assembly loops.

  The board support package (\<open>lms_ctr_bsp\<close>), which the firmware is linked with:
  Llist: its doubly linked lists, with the locale \<open>sequence\<close> that abstracts them to HOL lists.
  Devices: registration of devices and lookup by name.
  Files and File_Results: the descriptor table and the system calls; device drivers are parameters under
    the contract of the locale \<open>drivers\<close>, which the null device and the UART driver satisfy.
  Irq: the control registers, registration and dispatch of interrupts, and instruction exceptions.
  Ring, Uart and Uart_Results: circular buffers (locale \<open>bounded_queue\<close>) and the interrupt-driven UART
    driver, whose interrupt handler runs at any of the places where the foreground reads its state.
  Uart_Options: the UART as a file with \<open>ioctl\<close>, its settings as a structure in memory, and the small driver.
  Alarms: the tick counter and the alarms (\<open>alt_tick.c\<close>, \<open>alt_alarm_start.c\<close>), against a countdown.
  Wall_Clock: \<open>settimeofday\<close>, \<open>gettimeofday\<close> and \<open>times\<close>, with the 32-bit types of newlib.
  Heap: \<open>sbrk\<close>.  Stack_Check: \<open>sbrk\<close> with its options, and the stack limit it checks (\<open>alt_stack.h\<close>).
  Direct: the system calls on drivers known when the program is compiled (\<open>alt_driver.h\<close>); the locale \<open>std_module\<close>
    relates such a driver to the device it is in the usual build.  Printing: \<open>alt_printf\<close>, against the text that a format stands for.
  Semihosting: the wrappers of standard input and output, and printing through a buffer of 64 characters.
  Log_Printf and Log_Text: the boot log's own \<open>printf\<close>, on a polled UART, against the text of a format, with
    the levels of the log and the reports on a JTAG UART, whose register layout is a parameter.
  Log_Jtag: these reports driven by an alarm: registration, and one report every tenth of a second.
  Loading: copying of sections, constructors and destructors.
  Process_Calls: \<open>stat\<close>, signals, \<open>_exit\<close>, and the calls that only report an error.
  Startup: \<open>alt_main\<close>, from reset to the firmware's \<open>main\<close>, on the processor of Irq, the files and the machine.
  Caches: flushing loops for caches of any size, and uncached memory.
  Ecc: registration of the handler of fatal ECC errors, and the pointer to \<open>errno\<close>.
  Device_Classes: the generic flash and DMA interfaces.  System_Id: the identification test.
  Byte_Memory, Gmon and Gmon_Results: the profiler (\<open>alt_gmon.c\<close>) in a memory of bytes: its call graph
    refines an abstract one, and its histogram, driven by an alarm, counts the ticks.
  I2c_Bsp: the package's own I2C driver, which polls without a bound, compared with the application's.

  The properties.  For each driver: what it sends and stores exactly, that it touches nothing else,
  and when it returns.  For each command: the bus traffic, in order, and the response.  For the main
  loop: every packet is answered (with the exceptions shown), the state stays well formed, and all that was
  ever exchanged over the FIFO is whole requests, each followed by one response to it.  For the
  support package: the lists refine HOL lists, lookup is \<open>find\<close>, every sequence of system calls keeps
  the descriptor table typed, locks exclude, pending interrupts are served in order, and the UART
  transmits what was written, in order, under every interleaving.  Alarms count down and run on time,
  but for the longest interval; the time of day advances with the ticks and reads back as set while
  32 bits suffice; heap blocks are apart, but a request that is
  not whole words ends the checking of the stack; what is printed is what the format says.  Flushing covers a region,
  but the flush without writing back discards too much and hangs on this board.  The profiler's graph in
  memory stays well formed and apart from free memory, and only the memory it owns changes.

  Bounds and fuel.  No definition needs fuel: loops that may not end are \<open>loop\<close> (a partial function
  of the option order), and the others are structural or have a measure.

  Builds.  Some files have variants that this board's build does not select (semihosting, direct drivers,
  stack checking, the small UART driver, other processors); they are modelled beside the selected ones, with
  the options as parameters.

  Not modelled.  Start-up, exception and profiling assembly, empty locks, the variable \<open>environ\<close>, declarations
  and macros without code, the driver of the JTAG UART (not in the repository), and the gateware itself.
\<close>

end
